(* ===== verification/Prelude.thy ===== *)
theory Prelude
  imports Complex_Main "HOL-Library.Sublist"
begin

text \<open>
  The vocabulary every theory of the development shares: results of fallible code, Rust
  string operations on the UTF-8 bytes of a string, decimal printing and parsing,
  durations, JSON values as the page scripts answer them, and one locale for
  ``an invariant that every operation keeps holds in every run''.

  A Rust \<open>String\<close> is the list of its UTF-8 bytes: one \<^typ>\<open>char\<close> is one byte, so
  \<^term>\<open>length\<close> is Rust's \<open>str::len\<close>, and \<open>chars().count()\<close> is
  \<open>chars_count\<close> below (the bytes that do not continue a code point).
\<close>

section \<open>Fact collections\<close>

named_theorems inv_defs "definitions of component invariants"
named_theorems op_defs "definitions of component operations"

section \<open>Results\<close>

text \<open>Rust's \<open>Result<A, E>\<close> is \<open>E + A\<close>; \<open>rbind\<close> is the \<open>?\<close> operator.\<close>

definition rbind :: "'e + 'a \<Rightarrow> ('a \<Rightarrow> 'e + 'b) \<Rightarrow> 'e + 'b" where
  "rbind r f = (case r of Inl e \<Rightarrow> Inl e | Inr x \<Rightarrow> f x)"

lemma rbind_simps [simp]:
  "rbind (Inl e) f = Inl e"
  "rbind (Inr x) f = f x"
  by (simp_all add: rbind_def)

lemma rbind_Inr_iff: "rbind r f = Inr y \<longleftrightarrow> (\<exists>x. r = Inr x \<and> f x = Inr y)"
  by (cases r) auto

lemma rbind_Inl_iff: "rbind r f = Inl e \<longleftrightarrow> r = Inl e \<or> (\<exists>x. r = Inr x \<and> f x = Inl e)"
  by (cases r) auto

definition ok_or :: "'a option \<Rightarrow> 'e \<Rightarrow> 'e + 'a" where
  "ok_or v e = (case v of None \<Rightarrow> Inl e | Some x \<Rightarrow> Inr x)"

lemma ok_or_simps [simp]:
  "ok_or None e = Inl e"
  "ok_or (Some x) e = Inr x"
  by (simp_all add: ok_or_def)

lemma ok_or_Inr_iff [simp]: "ok_or v e = Inr x \<longleftrightarrow> v = Some x"
  by (cases v) auto

definition map_err :: "('e \<Rightarrow> 'f) \<Rightarrow> 'e + 'a \<Rightarrow> 'f + 'a" where
  "map_err f r = (case r of Inl e \<Rightarrow> Inl (f e) | Inr x \<Rightarrow> Inr x)"

lemma map_err_simps [simp]:
  "map_err f (Inl e) = Inl (f e)"
  "map_err f (Inr x) = Inr x"
  by (simp_all add: map_err_def)

text \<open>Rust's \<open>Option::unwrap_or\<close>.\<close>

definition unwrap_or :: "'a option \<Rightarrow> 'a \<Rightarrow> 'a" where
  "unwrap_or v d = (case v of None \<Rightarrow> d | Some x \<Rightarrow> x)"

lemma unwrap_or_simps [simp]:
  "unwrap_or None d = d"
  "unwrap_or (Some x) d = x"
  by (simp_all add: unwrap_or_def)

text \<open>Rust's \<open>Option::or\<close>.\<close>

definition opt_or :: "'a option \<Rightarrow> 'a option \<Rightarrow> 'a option" where
  "opt_or v w = (case v of None \<Rightarrow> w | Some x \<Rightarrow> Some x)"

lemma opt_or_simps [simp]:
  "opt_or None w = w"
  "opt_or (Some x) w = Some x"
  by (simp_all add: opt_or_def)

section \<open>Strings as UTF-8 bytes\<close>

abbreviation quote_char :: char where
  "quote_char \<equiv> CHR 0x22"

abbreviation backslash :: char where
  "backslash \<equiv> CHR 0x5C"

abbreviation newline :: char where
  "newline \<equiv> CHR 0x0A"

definition quoted :: "string \<Rightarrow> string" where
  "quoted s = CHR 0x27 # s @ [CHR 0x27]"

text \<open>A byte that starts a code point is every byte outside \<open>0x80..0xBF\<close>.\<close>

definition starts_char :: "char \<Rightarrow> bool" where
  "starts_char c \<longleftrightarrow> \<not> (128 \<le> (of_char c :: nat) \<and> (of_char c :: nat) < 192)"

definition chars_count :: "string \<Rightarrow> nat" where
  "chars_count s = length (filter starts_char s)"

text \<open>\<open>s.chars().take(n)\<close>: the bytes before the start of code point number \<open>n\<close>.\<close>

fun chars_take :: "nat \<Rightarrow> string \<Rightarrow> string" where
  "chars_take n [] = []"
| "chars_take n (c # cs) =
     (if starts_char c then (case n of 0 \<Rightarrow> [] | Suc m \<Rightarrow> c # chars_take m cs)
      else c # chars_take n cs)"

lemma chars_count_simps [simp]:
  "chars_count [] = 0"
  "chars_count (c # cs) = (if starts_char c then Suc (chars_count cs) else chars_count cs)"
  "chars_count (s @ t) = chars_count s + chars_count t"
  by (simp_all add: chars_count_def)

lemma chars_count_le_length: "chars_count s \<le> length s"
  by (simp add: chars_count_def)

lemma chars_count_chars_take: "chars_count (chars_take n s) = min n (chars_count s)"
  by (induction n s rule: chars_take.induct) (auto split: nat.splits)

lemma chars_take_prefix: "prefix (chars_take n s) s"
  by (induction n s rule: chars_take.induct) (auto split: nat.splits)

lemma chars_take_all: "chars_count s < n \<Longrightarrow> chars_take n s = s"
  by (induction n s rule: chars_take.induct) (auto split: nat.splits if_splits)

text \<open>\<open>str::split\<close> on a set of bytes: never empty, the pieces hold no separator.\<close>

fun split_on :: "(char \<Rightarrow> bool) \<Rightarrow> string \<Rightarrow> string list" where
  "split_on p [] = [[]]"
| "split_on p (c # cs) =
     (if p c then [] # split_on p cs
      else (case split_on p cs of [] \<Rightarrow> [[c]] | w # ws \<Rightarrow> (c # w) # ws))"

lemma split_on_not_Nil [simp]: "split_on p s \<noteq> []"
  by (induction s) (auto split: list.splits)

lemma split_on_pieces: "w \<in> set (split_on p s) \<Longrightarrow> c \<in> set w \<Longrightarrow> \<not> p c"
  by (induction s arbitrary: w) (fastforce split: list.splits if_splits)+

lemma split_on_bytes: "c \<in> set s \<Longrightarrow> \<not> p c \<Longrightarrow> \<exists>w \<in> set (split_on p s). c \<in> set w"
  by (induction s) (auto split: list.splits)

lemma split_on_none: "(\<And>c. c \<in> set s \<Longrightarrow> \<not> p c) \<Longrightarrow> split_on p s = [s]"
  by (induction s) auto

text \<open>\<open>str::find\<close> for a byte class and for a string.\<close>

fun find_char :: "(char \<Rightarrow> bool) \<Rightarrow> string \<Rightarrow> nat option" where
  "find_char p [] = None"
| "find_char p (c # cs) = (if p c then Some 0 else map_option Suc (find_char p cs))"

lemma find_char_None_iff: "find_char p s = None \<longleftrightarrow> (\<forall>c \<in> set s. \<not> p c)"
  by (induction s) auto

lemma find_char_Some:
  "find_char p s = Some i \<Longrightarrow> i < length s \<and> p (s ! i) \<and> (\<forall>c \<in> set (take i s). \<not> p c)"
  by (induction s arbitrary: i) (auto split: if_splits)

fun find_sub :: "string \<Rightarrow> string \<Rightarrow> nat option" where
  "find_sub pat [] = (if pat = [] then Some 0 else None)"
| "find_sub pat (c # cs) =
     (if prefix pat (c # cs) then Some 0 else map_option Suc (find_sub pat cs))"

lemma find_sub_Some:
  "find_sub pat s = Some i \<Longrightarrow> i \<le> length s \<and> prefix pat (drop i s)"
  by (induction s arbitrary: i) (auto split: if_splits)

definition contains_str :: "string \<Rightarrow> string \<Rightarrow> bool" where
  "contains_str s pat \<longleftrightarrow> find_sub pat s \<noteq> None"

definition strip_prefix :: "string \<Rightarrow> string \<Rightarrow> string option" where
  "strip_prefix pre s = (if prefix pre s then Some (drop (length pre) s) else None)"

lemma strip_prefix_Some_iff: "strip_prefix pre s = Some r \<longleftrightarrow> s = pre @ r"
  by (auto simp: strip_prefix_def prefix_def)

text \<open>\<open>split_once\<close> at the first, \<open>rsplit_once\<close> at the last separator byte.\<close>

fun split_once :: "char \<Rightarrow> string \<Rightarrow> (string \<times> string) option" where
  "split_once d [] = None"
| "split_once d (c # cs) =
     (if c = d then Some ([], cs)
      else map_option (\<lambda>(a, b). (c # a, b)) (split_once d cs))"

lemma split_once_Some: "split_once d s = Some (a, b) \<Longrightarrow> s = a @ d # b \<and> d \<notin> set a"
  by (induction s arbitrary: a b) (auto split: if_splits)

lemma split_once_None_iff: "split_once d s = None \<longleftrightarrow> d \<notin> set s"
  by (induction s) auto

lemma split_once_append: "d \<notin> set a \<Longrightarrow> split_once d (a @ d # b) = Some (a, b)"
  by (induction a) auto

definition rsplit_once :: "char \<Rightarrow> string \<Rightarrow> (string \<times> string) option" where
  "rsplit_once d s = map_option (\<lambda>(b, a). (rev a, rev b)) (split_once d (rev s))"

lemma rsplit_once_None_iff: "rsplit_once d s = None \<longleftrightarrow> d \<notin> set s"
  by (simp add: rsplit_once_def split_once_None_iff)

lemma rsplit_once_append: "d \<notin> set b \<Longrightarrow> rsplit_once d (a @ d # b) = Some (a, b)"
  by (simp add: rsplit_once_def split_once_append)

lemma rsplit_once_Some:
  assumes "rsplit_once d s = Some (a, b)"
  shows "s = a @ d # b \<and> d \<notin> set b"
proof -
  from assms obtain a' b' where *: "split_once d (rev s) = Some (b', a')" "a = rev a'" "b = rev b'"
    by (auto simp: rsplit_once_def)
  from split_once_Some [OF *(1)] have "rev s = b' @ d # a'" and "d \<notin> set b'"
    by auto
  from arg_cong [OF this(1), of rev] have "s = rev a' @ d # rev b'"
    by simp
  with * \<open>d \<notin> set b'\<close> show ?thesis
    by simp
qed

text \<open>\<open>split_once\<close> at a string separator.\<close>

definition split_once_str :: "string \<Rightarrow> string \<Rightarrow> (string \<times> string) option" where
  "split_once_str pat s =
     map_option (\<lambda>i. (take i s, drop (i + length pat) s)) (find_sub pat s)"

text \<open>
  \<open>str::trim\<close> removes Unicode \<open>White_Space\<close> code points at both ends; each is listed by
  its UTF-8 bytes.
\<close>

definition white_space :: "string list" where
  "white_space =
     [[CHR 0x09], [CHR 0x0A], [CHR 0x0B], [CHR 0x0C], [CHR 0x0D], [CHR 0x20],
      [CHR 0xC2, CHR 0x85], [CHR 0xC2, CHR 0xA0], [CHR 0xE1, CHR 0x9A, CHR 0x80]] @
     map (\<lambda>b. [CHR 0xE2, CHR 0x80, b])
       [CHR 0x80, CHR 0x81, CHR 0x82, CHR 0x83, CHR 0x84, CHR 0x85, CHR 0x86, CHR 0x87,
        CHR 0x88, CHR 0x89, CHR 0x8A, CHR 0xA8, CHR 0xA9, CHR 0xAF] @
     [[CHR 0xE2, CHR 0x81, CHR 0x9F], [CHR 0xE3, CHR 0x80, CHR 0x80]]"

fun trim_by :: "string list \<Rightarrow> nat \<Rightarrow> string \<Rightarrow> string" where
  "trim_by ws 0 s = s"
| "trim_by ws (Suc n) s =
     (case find (\<lambda>w. prefix w s) ws of
        None \<Rightarrow> s
      | Some w \<Rightarrow> trim_by ws n (drop (length w) s))"

definition trim_start :: "string \<Rightarrow> string" where
  "trim_start s = trim_by white_space (length s) s"

definition trim_end :: "string \<Rightarrow> string" where
  "trim_end s = rev (trim_by (map rev white_space) (length s) (rev s))"

definition trim :: "string \<Rightarrow> string" where
  "trim s = trim_end (trim_start s)"

text \<open>\<open>trim_end_matches\<close> of one byte.\<close>

definition trim_end_char :: "char \<Rightarrow> string \<Rightarrow> string" where
  "trim_end_char c s = rev (dropWhile (\<lambda>x. x = c) (rev s))"

text \<open>\<open>str::replace\<close> of a non-empty pattern, scanning left to right.\<close>

function replace_str :: "string \<Rightarrow> string \<Rightarrow> string \<Rightarrow> string" where
  "replace_str pat new [] = []"
| "replace_str pat new (c # cs) =
     (if pat \<noteq> [] \<and> prefix pat (c # cs)
      then new @ replace_str pat new (drop (length pat) (c # cs))
      else c # replace_str pat new cs)"
  by pat_completeness auto
termination
  by (relation "measure (\<lambda>(pat, new, s). length s)") (auto simp: neq_Nil_conv)

text \<open>ASCII classes.\<close>

definition is_digit :: "char \<Rightarrow> bool" where
  "is_digit c \<longleftrightarrow> 48 \<le> (of_char c :: nat) \<and> (of_char c :: nat) \<le> 57"

definition is_upper :: "char \<Rightarrow> bool" where
  "is_upper c \<longleftrightarrow> 65 \<le> (of_char c :: nat) \<and> (of_char c :: nat) \<le> 90"

definition is_lower :: "char \<Rightarrow> bool" where
  "is_lower c \<longleftrightarrow> 97 \<le> (of_char c :: nat) \<and> (of_char c :: nat) \<le> 122"

definition is_alphanumeric :: "char \<Rightarrow> bool" where
  "is_alphanumeric c \<longleftrightarrow> is_digit c \<or> is_upper c \<or> is_lower c"

definition ascii_lower :: "char \<Rightarrow> char" where
  "ascii_lower c = (if is_upper c then char_of ((of_char c :: nat) + 32) else c)"

definition ascii_upper :: "char \<Rightarrow> char" where
  "ascii_upper c = (if is_lower c then char_of ((of_char c :: nat) - 32) else c)"

definition eq_ignore_ascii_case :: "string \<Rightarrow> string \<Rightarrow> bool" where
  "eq_ignore_ascii_case a b \<longleftrightarrow> map ascii_lower a = map ascii_lower b"

section \<open>Decimal printing and parsing\<close>

definition digit_char :: "nat \<Rightarrow> char" where
  "digit_char d = char_of (48 + d)"

fun show_nat :: "nat \<Rightarrow> string" where
  "show_nat n = (if n < 10 then [digit_char n] else show_nat (n div 10) @ [digit_char (n mod 10)])"

declare show_nat.simps [simp del]

definition digit_val :: "char \<Rightarrow> nat" where
  "digit_val c = of_char c - 48"

definition digits_val :: "string \<Rightarrow> nat" where
  "digits_val ds = foldl (\<lambda>n c. 10 * n + digit_val c) 0 ds"

text \<open>
  \<open>str::parse\<close> for an unsigned integer with the given maximum: an optional leading
  \<open>+\<close>, at least one digit, digits only, no overflow.
\<close>

definition parse_uint :: "nat \<Rightarrow> string \<Rightarrow> nat option" where
  "parse_uint mx s =
     (let ds = (case s of [] \<Rightarrow> [] | c # cs \<Rightarrow> if c = CHR ''+'' \<and> cs \<noteq> [] then cs else s)
      in if ds \<noteq> [] \<and> list_all is_digit ds \<and> digits_val ds \<le> mx
         then Some (digits_val ds) else None)"

definition u16_max :: nat where "u16_max = 65535"
definition u32_max :: nat where "u32_max = 4294967295"
definition u64_max :: nat where "u64_max = 18446744073709551615"

lemma of_digit_char: "d < 10 \<Longrightarrow> (of_char (digit_char d) :: nat) = 48 + d"
  by (simp add: digit_char_def)

lemma is_digit_digit_char [simp]: "d < 10 \<Longrightarrow> is_digit (digit_char d)"
  by (simp add: is_digit_def of_digit_char)

lemma digit_val_digit_char [simp]: "d < 10 \<Longrightarrow> digit_val (digit_char d) = d"
  by (simp add: digit_val_def of_digit_char)

lemma show_nat_not_Nil [simp]: "show_nat n \<noteq> []"
  by (subst show_nat.simps) simp

lemma show_nat_digits: "list_all is_digit (show_nat n)"
proof (induction n rule: show_nat.induct)
  case (1 n)
  then show ?case
    by (simp add: show_nat.simps [of n])
qed

lemma digits_val_append: "digits_val (ds @ [d]) = 10 * digits_val ds + digit_val d"
  by (simp add: digits_val_def)

lemma digits_val_show_nat: "digits_val (show_nat n) = n"
proof (induction n rule: show_nat.induct)
  case (1 n)
  show ?case
  proof (cases "n < 10")
    case True
    then show ?thesis
      by (simp add: show_nat.simps [of n] digits_val_def)
  next
    case False
    with "1.IH" show ?thesis
      by (simp add: show_nat.simps [of n] digits_val_append)
  qed
qed

lemma show_nat_inject [simp]: "show_nat m = show_nat n \<longleftrightarrow> m = n"
  by (metis digits_val_show_nat)

lemma show_nat_only_digits: "c \<in> set (show_nat n) \<Longrightarrow> is_digit c"
  using show_nat_digits [of n] by (simp add: list_all_iff)

lemma parse_uint_show_nat: "n \<le> mx \<Longrightarrow> parse_uint mx (show_nat n) = Some n"
proof -
  assume "n \<le> mx"
  obtain c cs where s: "show_nat n = c # cs"
    by (cases "show_nat n") auto
  have "is_digit c"
    using show_nat_only_digits [of c n] s by simp
  then have "c \<noteq> CHR ''+''"
    by (auto simp: is_digit_def)
  then show ?thesis
    using \<open>n \<le> mx\<close> show_nat_digits [of n] digits_val_show_nat [of n] s
    by (simp add: parse_uint_def)
qed

lemma parse_uint_le: "parse_uint mx s = Some n \<Longrightarrow> n \<le> mx"
  by (auto simp: parse_uint_def Let_def split: if_splits)

lemma parse_uint_bytes:
  assumes "parse_uint mx s = Some n" and "c \<in> set s"
  shows "is_digit c \<or> c = CHR ''+''"
  using assms by (auto simp: parse_uint_def Let_def list_all_iff split: list.splits if_splits)

lemma parse_uint_not_Nil: "parse_uint mx s = Some n \<Longrightarrow> s \<noteq> []"
  by (auto simp: parse_uint_def)

text \<open>
  The \<open>Debug\<close> form of a string: quoted, with the escapes Rust writes for ASCII; printable
  text beyond ASCII is kept, and the escapes of unprintable code points beyond ASCII are not
  modelled.
\<close>

definition hex_digit :: "nat \<Rightarrow> char" where
  "hex_digit d = (if d < 10 then digit_char d else char_of (87 + d))"

text \<open>A number in lower-case hexadecimal, padded with zeros to a width: \<open>{:0w$x}\<close>.\<close>

fun hex_pad :: "nat \<Rightarrow> nat \<Rightarrow> string" where
  "hex_pad 0 n = []"
| "hex_pad (Suc w) n = hex_pad w (n div 16) @ [hex_digit (n mod 16)]"

lemma hex_digit_safe: "d < 16 \<Longrightarrow> is_alphanumeric (hex_digit d)"
  by (auto simp: hex_digit_def is_alphanumeric_def is_lower_def)

lemma hex_pad_shape: "length (hex_pad w n) = w \<and> list_all is_alphanumeric (hex_pad w n)"
  by (induction w arbitrary: n) (simp_all add: hex_digit_safe)

lemma hex_digit_inject: "d < 16 \<Longrightarrow> e < 16 \<Longrightarrow> hex_digit d = hex_digit e \<longleftrightarrow> d = e"
proof -
  have code: "of_char (hex_digit n) = (if n < 10 then 48 + n else 87 + n)" if "n < 16" for n :: nat
    using that by (simp add: hex_digit_def of_digit_char)
  show ?thesis if "d < 16" "e < 16"
  proof
    assume "hex_digit d = hex_digit e"
    then have "(if d < 10 then 48 + d else 87 + d) = (if e < 10 then 48 + e else 87 + e)"
      using code [OF that(1)] code [OF that(2)] by metis
    then show "d = e" using that by (simp split: if_splits)
  qed simp
qed

lemma hex_pad_inject: "m < 16 ^ w \<Longrightarrow> n < 16 ^ w \<Longrightarrow> hex_pad w m = hex_pad w n \<longleftrightarrow> m = n"
proof (induction w arbitrary: m n)
  case (Suc w)
  then have "m div 16 < 16 ^ w" "n div 16 < 16 ^ w" by (simp_all add: less_mult_imp_div_less mult.commute)
  then have "hex_pad (Suc w) m = hex_pad (Suc w) n \<longleftrightarrow> m div 16 = n div 16 \<and> m mod 16 = n mod 16"
    using Suc.IH by (simp add: hex_digit_inject)
  then show ?case by (metis div_mult_mod_eq)
qed simp

definition debug_char :: "char \<Rightarrow> string" where
  "debug_char c =
     (let n = of_char c in
      if n = (0::nat) then [backslash, CHR ''0'']
      else if n = 9 then [backslash, CHR ''t'']
      else if n = 10 then [backslash, CHR ''n'']
      else if n = 13 then [backslash, CHR ''r'']
      else if c = quote_char \<or> c = backslash then [backslash, c]
      else if n < 16 then backslash # ''u{'' @ [hex_digit n] @ ''}''
      else if n < 32 \<or> n = 127 then backslash # ''u{'' @ [hex_digit (n div 16), hex_digit (n mod 16)] @ ''}''
      else [c])"

definition debug_str :: "string \<Rightarrow> string" where
  "debug_str s = quote_char # concat (map debug_char s) @ [quote_char]"

section \<open>Time\<close>

text \<open>
  A \<open>Duration\<close> or an \<open>Instant\<close> is its number of nanoseconds. \<open>Duration\<close> holds a 64-bit
  count of seconds and a sub-second part, so its largest value is \<open>duration_max\<close> and
  \<open>checked_mul\<close> answers \<open>None\<close> beyond it. \<open>Instant::duration_since\<close> saturates at zero,
  which is subtraction on \<^typ>\<open>nat\<close>.
\<close>

type_synonym duration = nat
type_synonym instant = nat

definition from_millis :: "nat \<Rightarrow> duration" where
  "from_millis ms = ms * 1000000"

definition from_secs :: "nat \<Rightarrow> duration" where
  "from_secs s = s * 1000000000"

definition duration_max :: duration where
  "duration_max = u64_max * 1000000000 + 999999999"

definition duration_checked_mul :: "duration \<Rightarrow> nat \<Rightarrow> duration option" where
  "duration_checked_mul d k = (if d * k \<le> duration_max then Some (d * k) else None)"

text \<open>
  The \<open>Debug\<close> form of a duration: the largest unit that fits, with the fraction's
  trailing zeros removed.
\<close>

fun pad_digits :: "nat \<Rightarrow> nat \<Rightarrow> string" where
  "pad_digits 0 n = []"
| "pad_digits (Suc w) n = pad_digits w (n div 10) @ [digit_char (n mod 10)]"

definition show_fraction :: "nat \<Rightarrow> nat \<Rightarrow> nat \<Rightarrow> string" where
  "show_fraction whole fr width =
     (let ds = trim_end_char (CHR ''0'') (pad_digits width fr)
      in show_nat whole @ (if ds = [] then [] else CHR ''.'' # ds))"

definition show_duration :: "duration \<Rightarrow> string" where
  "show_duration d =
     (if 1000000000 \<le> d then show_fraction (d div 1000000000) (d mod 1000000000) 9 @ ''s''
      else if 1000000 \<le> d then show_fraction (d div 1000000) (d mod 1000000) 6 @ ''ms''
      else if 1000 \<le> d then show_fraction (d div 1000) (d mod 1000) 3 @ [CHR 0xC2, CHR 0xB5, CHR ''s'']
      else show_nat d @ ''ns'')"

section \<open>JSON values\<close>

text \<open>
  \<open>serde_json::Value\<close>. An object is its list of fields with distinct keys. A number
  keeps whether it was written as an integer, because \<open>as_i64\<close> answers for those only.
  A 64-bit float is read as the rational it denotes: JSON has no NaN or infinity, and
  the rounding of float arithmetic is not modelled.
\<close>

type_synonym f64 = rat

datatype json =
    JNull
  | JBool bool
  | JInt int
  | JFloat f64
  | JStr string
  | JArr "json list"
  | JObj "(string \<times> json) list"

fun as_object :: "json \<Rightarrow> (string \<times> json) list option" where
  "as_object (JObj fs) = Some fs"
| "as_object _ = None"

fun as_array :: "json \<Rightarrow> json list option" where
  "as_array (JArr xs) = Some xs"
| "as_array _ = None"

fun as_str :: "json \<Rightarrow> string option" where
  "as_str (JStr s) = Some s"
| "as_str _ = None"

fun as_bool :: "json \<Rightarrow> bool option" where
  "as_bool (JBool b) = Some b"
| "as_bool _ = None"

fun as_f64 :: "json \<Rightarrow> f64 option" where
  "as_f64 (JInt i) = Some (of_int i)"
| "as_f64 (JFloat r) = Some r"
| "as_f64 _ = None"

fun as_i64 :: "json \<Rightarrow> int option" where
  "as_i64 (JInt i) = (if - (2 ^ 63) \<le> i \<and> i < 2 ^ 63 then Some i else None)"
| "as_i64 _ = None"

definition obj_get :: "(string \<times> json) list \<Rightarrow> string \<Rightarrow> json option" where
  "obj_get fs k = map_of fs k"

definition json_get :: "json \<Rightarrow> string \<Rightarrow> json option" where
  "json_get v k = Option.bind (as_object v) (\<lambda>fs. obj_get fs k)"

lemma json_get_simps [simp]:
  "json_get (JObj fs) k = map_of fs k"
  "json_get JNull k = None"
  "json_get (JBool b) k = None"
  "json_get (JInt i) k = None"
  "json_get (JFloat r) k = None"
  "json_get (JStr s) k = None"
  "json_get (JArr xs) k = None"
  by (simp_all add: json_get_def obj_get_def)

lemma obj_get_in: "obj_get fs k = Some v \<Longrightarrow> (k, v) \<in> set fs"
  by (simp add: obj_get_def map_of_SomeD)

text \<open>Association lists without one key.\<close>

lemma map_of_filter_key: "map_of (filter (\<lambda>e. fst e \<noteq> i) xs) j = (if j = i then None else map_of xs j)"
  by (induction xs) auto

section \<open>Runs of operations and their invariants\<close>

fun run_ops :: "('op \<Rightarrow> 's \<Rightarrow> 's) \<Rightarrow> 'op list \<Rightarrow> 's \<Rightarrow> 's" where
  "run_ops step [] s = s"
| "run_ops step (x # xs) s = run_ops step xs (step x s)"

lemma run_ops_append: "run_ops step (xs @ ys) s = run_ops step ys (run_ops step xs s)"
  by (induction xs arbitrary: s) auto

text \<open>
  The interface of a component guarded by one lock: its operations run one at a time in
  some order, and each keeps the invariant. The conclusion holds after every run, that is
  for every interleaving of the operations of concurrent callers.
\<close>

locale guarded_state =
  fixes start :: 's
    and step :: "'op \<Rightarrow> 's \<Rightarrow> 's"
    and inv :: "'s \<Rightarrow> bool"
  assumes inv_start: "inv start"
    and inv_step: "inv s \<Longrightarrow> inv (step x s)"
begin

lemma run_inv_from: "inv s \<Longrightarrow> inv (run_ops step xs s)"
  by (induction xs arbitrary: s) (auto intro: inv_step)

lemma run_inv: "inv (run_ops step xs start)"
  by (rule run_inv_from [OF inv_start])

lemma run_induct:
  assumes "P start" and "\<And>s x. inv s \<Longrightarrow> P s \<Longrightarrow> P (step x s)"
  shows "P (run_ops step xs start)"
proof -
  have "inv s \<Longrightarrow> P s \<Longrightarrow> P (run_ops step xs s)" for s
    by (induction xs arbitrary: s) (auto intro: inv_step assms(2))
  then show ?thesis
    using inv_start assms(1) by blast
qed

end

section \<open>Bounded logs\<close>

text \<open>
  The interface of a buffer that keeps the newest entries: what it holds after a push is
  the last \<open>bound\<close> entries of what was pushed. Both the per-session event ring and the
  per-page observation buffers provide it.
\<close>

definition keep_last :: "nat \<Rightarrow> 'a list \<Rightarrow> 'a list" where
  "keep_last n xs = drop (length xs - n) xs"

lemma keep_last_length: "length (keep_last n xs) = min n (length xs)"
  by (simp add: keep_last_def)

lemma keep_last_short: "length xs \<le> n \<Longrightarrow> keep_last n xs = xs"
  by (simp add: keep_last_def)

lemma keep_last_snoc: "0 < n \<Longrightarrow> keep_last n (xs @ [x]) = keep_last (n - 1) xs @ [x]"
  by (cases n) (auto simp: keep_last_def Suc_diff_le)

lemma keep_last_push: "0 < n \<Longrightarrow> keep_last n (keep_last n xs @ [x]) = keep_last n (xs @ [x])"
  by (cases "length xs < n") (auto simp: keep_last_def Suc_diff_le)

lemma keep_last_suffix: "suffix (keep_last n xs) xs"
  by (simp add: keep_last_def suffix_drop)

lemma keep_last_set: "set (keep_last n xs) \<subseteq> set xs"
  by (simp add: keep_last_def set_drop_subset)

locale bounded_log =
  fixes fresh :: 'b
    and push :: "'e \<Rightarrow> 'b \<Rightarrow> 'b"
    and contents :: "'b \<Rightarrow> 'e list"
    and bound :: nat
    and good :: "'b \<Rightarrow> bool"
  assumes bound_pos: "0 < bound"
    and good_fresh: "good fresh"
    and good_push: "good b \<Longrightarrow> good (push x b)"
    and contents_fresh: "contents fresh = []"
    and contents_push: "good b \<Longrightarrow> contents (push x b) = keep_last bound (contents b @ [x])"
begin

lemma good_run: "good b \<Longrightarrow> good (run_ops push xs b)"
  by (induction xs arbitrary: b) (auto intro: good_push)

lemma contents_run_from:
  "good b \<Longrightarrow> contents b = keep_last bound ys \<Longrightarrow>
   contents (run_ops push xs b) = keep_last bound (ys @ xs)"
proof (induction xs arbitrary: b ys)
  case Nil
  then show ?case by simp
next
  case (Cons x xs)
  have "contents (push x b) = keep_last bound (ys @ [x])"
    using Cons.prems by (simp add: contents_push keep_last_push [OF bound_pos])
  from Cons.IH [OF good_push [OF Cons.prems(1)] this] show ?case
    by simp
qed

lemma contents_run: "contents (run_ops push xs fresh) = keep_last bound xs"
  using contents_run_from [OF good_fresh, of "[]" xs] by (simp add: contents_fresh keep_last_def)

lemma contents_bounded: "length (contents (run_ops push xs fresh)) \<le> bound"
  by (simp add: contents_run keep_last_length)

lemma newest_kept: "xs \<noteq> [] \<Longrightarrow> last xs \<in> set (contents (run_ops push xs fresh))"
proof -
  assume "xs \<noteq> []"
  then have "xs = butlast xs @ [last xs]"
    by simp
  then show ?thesis
    using keep_last_snoc [OF bound_pos, of "butlast xs" "last xs"] by (simp add: contents_run)
qed

end

end
