(* ===== verification/Core.thy ===== *)
theory Core
  imports Prelude
begin

text \<open>
  The shared vocabulary, crate \<open>rutter-core\<close>: identifiers and references
  (\<open>ids.rs\<close>, \<open>reference.rs\<close>), actions (\<open>action.rs\<close>), cookies (\<open>cookie.rs\<close>),
  the agent-facing error taxonomy with its messages and hints (\<open>error.rs\<close>), snapshots with
  their text rendering (\<open>snapshot.rs\<close>) and readouts (\<open>readout.rs\<close>). Field widths
  that never overflow in this crate (\<open>u32\<close> counts, \<open>u16\<close> statuses) are \<^typ>\<open>nat\<close>.
\<close>

section \<open>Identifiers\<close>

datatype session_id = SessionId (session_str: string)
datatype context_id = ContextId (context_str: string)
datatype page_id = PageId (page_str: string)
datatype reference = Reference (ref_str: string)

definition max_id_bytes :: nat where
  "max_id_bytes = 200"

definition is_storage_safe :: "session_id \<Rightarrow> bool" where
  "is_storage_safe i =
     (let name = session_str i in
      \<not> (name = [] \<or> length name > max_id_bytes \<or>
         list_ex (\<lambda>c. c = CHR ''/'' \<or> c = backslash \<or> c = CHR 0x00) name))"

section \<open>Actions\<close>

datatype origin = Agent | Human

datatype scroll_direction = ScrollUp | ScrollDown | ScrollLeft | ScrollRight

datatype action =
    Navigate string
  | Back
  | Forward
  | Reload
  | Click reference
  | Hover reference
  | Type reference string
  | PressKey string
  | SelectOption reference "string list"
  | Scroll "reference option" scroll_direction nat
  | SetInputFiles reference "string list"

section \<open>Cookies\<close>

datatype same_site = SameSiteStrict | SameSiteLax | SameSiteNone

record cookie =
  ck_name :: string
  ck_value :: string
  ck_domain :: string
  ck_path :: "string option"
  ck_secure :: bool
  ck_http_only :: bool
  ck_same_site :: "same_site option"
  ck_expires :: "f64 option"

section \<open>Action errors\<close>

datatype transport_cause =
    CauseTimedOut
  | ConnectionFailed
  | DnsFailed
  | TlsFailed
  | Aborted
  | Http nat

datatype wait_phase = Visible | Stable | Enabled | Act | Settle | Poll

datatype action_error =
    NavigationFailed string transport_cause
  | ReferenceExpired reference
  | NotInteractable reference string
  | TimedOut wait_phase duration
  | ApprovalDenied reference
  | ApprovalTimedOut duration
  | EngineTerminated session_id
  | Internal string

fun show_cause :: "transport_cause \<Rightarrow> string" where
  "show_cause CauseTimedOut = ''timed out''"
| "show_cause ConnectionFailed = ''connection failed''"
| "show_cause DnsFailed = ''DNS resolution failed''"
| "show_cause TlsFailed = ''TLS failed''"
| "show_cause Aborted = ''aborted''"
| "show_cause (Http status) = ''HTTP status '' @ show_nat status"

fun show_phase :: "wait_phase \<Rightarrow> string" where
  "show_phase Visible = ''visible''"
| "show_phase Stable = ''stable''"
| "show_phase Enabled = ''enabled''"
| "show_phase Act = ''act''"
| "show_phase Settle = ''settle''"
| "show_phase Poll = ''poll''"

fun show_action_error :: "action_error \<Rightarrow> string" where
  "show_action_error (NavigationFailed url cause) =
     ''navigation to '' @ quoted url @ '' failed ('' @ show_cause cause @ '')''"
| "show_action_error (ReferenceExpired r) =
     ''reference '' @ quoted (ref_str r) @ '' expired''"
| "show_action_error (NotInteractable r reason) =
     ''element '' @ quoted (ref_str r) @ '' is not interactable: '' @ reason"
| "show_action_error (TimedOut phase elapsed) =
     ''timed out during the '' @ quoted (show_phase phase) @ '' phase after '' @ show_duration elapsed"
| "show_action_error (ApprovalDenied r) =
     ''approval denied for action on '' @ quoted (ref_str r)"
| "show_action_error (ApprovalTimedOut waited) =
     ''no approval decision arrived after '' @ show_duration waited"
| "show_action_error (EngineTerminated s) =
     ''engine terminated for session '' @ quoted (session_str s)"
| "show_action_error (Internal detail) =
     ''internal error: '' @ detail"

fun action_error_hint :: "action_error \<Rightarrow> string" where
  "action_error_hint (NavigationFailed url cause) =
     ''re-check that '' @ quoted url @ '' is reachable and correctly spelled (transport cause: '' @
     show_cause cause @ ''), then retry''"
| "action_error_hint (ReferenceExpired _) =
     ''take a fresh snapshot and retry with the new references''"
| "action_error_hint (NotInteractable _ reason) =
     ''re-snapshot and pick an element that is visible, stable, and enabled; the element reported: '' @
     reason"
| "action_error_hint (TimedOut phase elapsed) =
     ''the action gave up during the '' @ quoted (show_phase phase) @ '' phase after '' @
     show_duration elapsed @ ''; wait for readiness or raise the timeout''"
| "action_error_hint (ApprovalDenied _) =
     ''a human rejected this action; do not retry it unchanged''"
| "action_error_hint (ApprovalTimedOut waited) =
     ''no human answered within '' @ show_duration waited @
     ''; only request approval again if the operation is still needed''"
| "action_error_hint (EngineTerminated _) =
     ''the engine died and rutter is recovering it; wait for the EngineRestarted event, then take a fresh snapshot''"
| "action_error_hint (Internal detail) =
     ''an internal bug was contained; report it, citing: '' @ detail"

section \<open>Snapshots\<close>

datatype snapshot_node = SnapshotNode
  (sn_role: string)
  (sn_name: "string option")
  (sn_value: "string option")
  (sn_reference: "reference option")
  (sn_checked: "bool option")
  (sn_disabled: bool)
  (sn_folded_count: "nat option")
  (sn_children: "snapshot_node list")

record snapshot =
  snap_url :: string
  snap_root :: snapshot_node
  snap_truncated :: bool

definition sn_leaf :: "string \<Rightarrow> snapshot_node" where
  "sn_leaf role = SnapshotNode role None None None None False None []"

definition escape :: "string \<Rightarrow> string" where
  "escape name = concat (map (\<lambda>c. if c = quote_char then [backslash, quote_char] else [c]) name)"

definition times_sign :: string where
  "times_sign = [CHR 0xC3, CHR 0x97]"

definition render_line :: "snapshot_node \<Rightarrow> nat \<Rightarrow> string" where
  "render_line node depth =
     replicate (depth * 2) (CHR '' '') @ ''- '' @ sn_role node
     @ (case sn_name node of
          None \<Rightarrow> []
        | Some name \<Rightarrow> CHR '' '' # quote_char # escape name @ [quote_char])
     @ (if sn_checked node = Some True then '' [checked]'' else [])
     @ (if sn_disabled node then '' [disabled]'' else [])
     @ (case sn_reference node of None \<Rightarrow> [] | Some r \<Rightarrow> '' [ref='' @ ref_str r @ '']'')
     @ (case sn_folded_count node of
          None \<Rightarrow> []
        | Some count \<Rightarrow> CHR '' '' # times_sign @ CHR '' '' # show_nat count)
     @ [newline]"

fun render_node :: "snapshot_node \<Rightarrow> nat \<Rightarrow> string" where
  "render_node (SnapshotNode role name val r checked disabled folded children) depth =
     render_line (SnapshotNode role name val r checked disabled folded children) depth
     @ concat (map (\<lambda>child. render_node child (depth + 1)) children)"

definition show_snapshot :: "snapshot \<Rightarrow> string" where
  "show_snapshot s = render_node (snap_root s) 0"

section \<open>Readouts\<close>

record readout =
  ro_title :: string
  ro_markdown :: string
  ro_truncated :: bool

definition show_readout :: "readout \<Rightarrow> string" where
  "show_readout r = ro_title r @ [newline] @ [newline] @ ro_markdown r"

section \<open>Facts about names and rendering\<close>

lemma storage_safe_bytes:
  "is_storage_safe i \<Longrightarrow> c \<in> set (session_str i) \<Longrightarrow> c \<noteq> CHR ''/'' \<and> c \<noteq> backslash \<and> c \<noteq> CHR 0x00"
  by (auto simp: is_storage_safe_def Let_def list_ex_iff)

lemma storage_safe_length:
  "is_storage_safe i \<Longrightarrow> 0 < length (session_str i) \<and> length (session_str i) \<le> 200"
  by (auto simp: is_storage_safe_def Let_def max_id_bytes_def)

lemma escape_simps [simp]:
  "escape [] = []"
  "escape (c # cs) = (if c = quote_char then backslash # quote_char # escape cs else c # escape cs)"
  by (simp_all add: escape_def)

lemma render_node_eq:
  "render_node n depth =
     render_line n depth @ concat (map (\<lambda>c. render_node c (depth + 1)) (sn_children n))"
  by (cases n) simp

end
