(* ===== verification/Policy_Class.thy ===== *)
theory Policy_Class
  imports Core
begin

text \<open>
  Action classes, \<open>crates/policy/src/class.rs\<close>: the coarse class a policy rule matches
  on, its configuration name in both directions, and the class of every action.
\<close>

datatype action_class =
    Navigation
  | Pointer
  | Keyboard
  | Selection
  | FileUpload
  | Scrolling
  | Cookies

fun class_parse :: "string \<Rightarrow> action_class option" where
  "class_parse name =
     (if name = ''navigation'' then Some Navigation
      else if name = ''pointer'' then Some Pointer
      else if name = ''keyboard'' then Some Keyboard
      else if name = ''selection'' then Some Selection
      else if name = ''file_upload'' then Some FileUpload
      else if name = ''scroll'' then Some Scrolling
      else if name = ''cookies'' then Some Cookies
      else None)"

fun class_name :: "action_class \<Rightarrow> string" where
  "class_name Navigation = ''navigation''"
| "class_name Pointer = ''pointer''"
| "class_name Keyboard = ''keyboard''"
| "class_name Selection = ''selection''"
| "class_name FileUpload = ''file_upload''"
| "class_name Scrolling = ''scroll''"
| "class_name Cookies = ''cookies''"

fun class_of :: "action \<Rightarrow> action_class" where
  "class_of (Navigate _) = Navigation"
| "class_of Back = Navigation"
| "class_of Forward = Navigation"
| "class_of Reload = Navigation"
| "class_of (Click _) = Pointer"
| "class_of (Hover _) = Pointer"
| "class_of (Type _ _) = Keyboard"
| "class_of (PressKey _) = Keyboard"
| "class_of (SelectOption _ _) = Selection"
| "class_of (SetInputFiles _ _) = FileUpload"
| "class_of (Scroll _ _ _) = Scrolling"

lemma class_parse_name [simp]: "class_parse (class_name c) = Some c"
  by (cases c) simp_all

lemma class_parse_Some: "class_parse s = Some c \<Longrightarrow> s = class_name c"
  by (auto split: if_splits)

lemma class_of_not_cookies [simp]: "class_of a \<noteq> Cookies"
  by (cases a) simp_all

end
