(* ===== verification/Policy_Pattern.thy ===== *)
theory Policy_Pattern
  imports Core
begin

text \<open>
  URL patterns, \<open>crates/policy/src/pattern.rs\<close>: validation of a pattern string and the
  iterative wildcard matcher. The matcher is the source's loop over two positions with
  one remembered star; \<open>glob\<close> is the declarative meaning of a pattern, and
  \<open>wildcard_match_glob\<close> shows that the loop decides it.
\<close>

datatype pattern_error = Blank | UnanchoredAuthorityWildcard

datatype pattern = Pattern (pattern_str: string)

definition star :: char where
  "star = CHR ''*''"

definition unanchored_authority_wildcard :: "string \<Rightarrow> bool" where
  "unanchored_authority_wildcard pat =
     (case find_sub ''://'' pat of
        None \<Rightarrow> False
      | Some scheme_end \<Rightarrow>
          (let authority_start = scheme_end + 3;
               tail = drop authority_start pat;
               authority = (case find_char (\<lambda>c. c = CHR ''/'') tail of
                              Some off \<Rightarrow> take off tail
                            | None \<Rightarrow> tail)
           in (case find_char (\<lambda>c. c = star) authority of
                 None \<Rightarrow> False
               | Some star_at \<Rightarrow> CHR ''/'' \<notin> set (drop (authority_start + star_at) pat))))"

definition pattern_parse :: "string \<Rightarrow> pattern_error + pattern" where
  "pattern_parse pat =
     (if trim pat = [] then Inl Blank
      else if unanchored_authority_wildcard pat then Inl UnanchoredAuthorityWildcard
      else Inr (Pattern pat))"

text \<open>
  The loop of \<open>wildcard_match\<close>: \<open>p\<close> and \<open>t\<close> are the positions in the pattern and the
  text, \<open>st\<close> the position of the last star seen and \<open>star_t\<close> the text position it is
  currently stretched to.
\<close>

function skip_stars :: "string \<Rightarrow> nat \<Rightarrow> nat" where
  "skip_stars pat p =
     (if p < length pat \<and> pat ! p = star then skip_stars pat (Suc p) else p)"
  by pat_completeness auto
termination
  by (relation "measure (\<lambda>(pat, p). length pat - p)") auto

function wildcard_loop :: "string \<Rightarrow> string \<Rightarrow> nat \<Rightarrow> nat \<Rightarrow> nat option \<Rightarrow> nat \<Rightarrow> bool" where
  "wildcard_loop pat str p t st star_t =
     (if t < length str then
        (if p < length pat \<and> pat ! p = star
         then wildcard_loop pat str (Suc p) t (Some p) t
         else if p < length pat \<and> pat ! p = str ! t
         then wildcard_loop pat str (Suc p) (Suc t) st star_t
         else (case st of
                 Some star_pos \<Rightarrow>
                   wildcard_loop pat str (star_pos + 1) (star_t + 1) st (star_t + 1)
               | None \<Rightarrow> False))
      else skip_stars pat p = length pat)"
  by pat_completeness auto
termination
  by (relation "measures
        [\<lambda>(pat, str, p, t, st, star_t). if t < star_t then 1 else 0,
         \<lambda>(pat, str, p, t, st, star_t). length str - star_t,
         \<lambda>(pat, str, p, t, st, star_t). length str - t,
         \<lambda>(pat, str, p, t, st, star_t). length pat - p]") auto

declare skip_stars.simps [simp del] wildcard_loop.simps [simp del]

definition wildcard_match :: "string \<Rightarrow> string \<Rightarrow> bool" where
  "wildcard_match pat str = wildcard_loop pat str 0 0 None 0"

definition pattern_matches :: "pattern \<Rightarrow> string \<Rightarrow> bool" where
  "pattern_matches p url = wildcard_match (pattern_str p) url"

section \<open>What a pattern means\<close>

fun glob :: "string \<Rightarrow> string \<Rightarrow> bool" where
  "glob [] [] = True"
| "glob [] (d # t) = False"
| "glob (c # p) [] = (c = star \<and> glob p [])"
| "glob (c # p) (d # t) =
     (if c = star then glob p (d # t) \<or> glob (c # p) t else c = d \<and> glob p t)"

lemma glob_Nil_iff: "glob p [] \<longleftrightarrow> (\<forall>c \<in> set p. c = star)"
  by (induction p) auto

lemma glob_Nil_text [simp]: "glob [] t \<longleftrightarrow> t = []"
  by (cases t) auto

lemma glob_star_iff: "glob (star # p) t \<longleftrightarrow> (\<exists>k \<le> length t. glob p (drop k t))"
proof (induction t)
  case Nil
  then show ?case by simp
next
  case (Cons d t)
  have "(\<exists>k \<le> length (d # t). glob p (drop k (d # t))) \<longleftrightarrow>
        glob p (d # t) \<or> (\<exists>k \<le> length t. glob p (drop k t))" (is "?L \<longleftrightarrow> ?R")
  proof
    assume ?L
    then obtain k where "k \<le> length (d # t)" "glob p (drop k (d # t))"
      by blast
    then show ?R
      by (cases k) auto
  next
    assume ?R
    then show ?L
    proof
      assume "glob p (d # t)"
      then show ?L by (intro exI [of _ 0]) simp
    next
      assume "\<exists>k \<le> length t. glob p (drop k t)"
      then obtain k where "k \<le> length t" "glob p (drop k t)"
        by blast
      then show ?L by (intro exI [of _ "Suc k"]) simp
    qed
  qed
  with Cons.IH show ?case by simp
qed

lemma glob_star_drop: "glob (star # p) (drop k t) \<Longrightarrow> glob (star # p) t"
proof -
  assume "glob (star # p) (drop k t)"
  then obtain j where "j \<le> length t - k" "glob p (drop (j + k) t)"
    by (auto simp: glob_star_iff)
  then show ?thesis
    by (cases "j + k \<le> length t") (auto simp: glob_star_iff intro: exI [of _ "length t"])
qed

text \<open>A literal prefix of the pattern is a prefix of every str it matches.\<close>

lemma glob_literal_append:
  "star \<notin> set lit \<Longrightarrow> glob (lit @ p) t \<longleftrightarrow> (\<exists>u. t = lit @ u \<and> glob p u)"
proof (induction lit arbitrary: t)
  case Nil
  then show ?case by simp
next
  case (Cons c lit)
  then show ?case by (cases t) auto
qed

lemma skip_stars_all: "p \<le> length pat \<Longrightarrow>
    skip_stars pat p = length pat \<longleftrightarrow> (\<forall>c \<in> set (drop p pat). c = star)"
proof (induction pat p rule: skip_stars.induct)
  case (1 pat p)
  show ?case
  proof (cases "p < length pat")
    case True
    then have d: "drop p pat = pat ! p # drop (Suc p) pat"
      by (simp add: Cons_nth_drop_Suc)
    show ?thesis
      using 1 True by (simp add: skip_stars.simps [of pat p] d)
  next
    case False
    with "1.prems" have "p = length pat" by simp
    then show ?thesis
      by (simp add: skip_stars.simps [of pat "length pat"])
  qed
qed

text \<open>
  The loop invariant: the literal run matched since the last star, the same in the pattern
  and in the str; and what the remaining run of the loop decides.
\<close>

definition wl_inv :: "string \<Rightarrow> string \<Rightarrow> nat \<Rightarrow> nat \<Rightarrow> nat option \<Rightarrow> nat \<Rightarrow> bool" where
  "wl_inv pat str p t st star_t \<longleftrightarrow>
     p \<le> length pat \<and> t \<le> length str \<and> star_t \<le> t \<and>
     (\<forall>s. st = Some s \<longrightarrow>
        s < p \<and> pat ! s = star \<and>
        (\<exists>lit. drop (s + 1) pat = lit @ drop p pat \<and> star \<notin> set lit \<and>
               drop star_t str = lit @ drop t str))"

definition wl_goal :: "string \<Rightarrow> string \<Rightarrow> nat \<Rightarrow> nat \<Rightarrow> nat option \<Rightarrow> nat \<Rightarrow> bool" where
  "wl_goal pat str p t st star_t \<longleftrightarrow>
     glob (drop p pat) (drop t str) \<or>
     (\<exists>s k. st = Some s \<and> star_t < k \<and> k \<le> length str \<and>
            glob (drop (s + 1) pat) (drop k str))"

lemma drop_at: "i < length xs \<Longrightarrow> drop i xs = xs ! i # drop (Suc i) xs"
  by (simp add: Cons_nth_drop_Suc)

lemma glob_star_from:
  assumes "t \<le> length str"
  shows "glob (star # p) (drop t str) \<longleftrightarrow>
         (\<exists>k. t \<le> k \<and> k \<le> length str \<and> glob p (drop k str))" (is "?L \<longleftrightarrow> ?R")
proof
  assume ?L
  then obtain j where "j \<le> length str - t" "glob p (drop (j + t) str)"
    by (auto simp: glob_star_iff)
  with assms show ?R
    by (intro exI [of _ "j + t"]) simp
next
  assume ?R
  then obtain k where "t \<le> k" "k \<le> length str" "glob p (drop k str)"
    by blast
  then show ?L
    by (auto simp: glob_star_iff intro!: exI [of _ "k - t"])
qed

text \<open>A match that stretches the old star further is one of the pattern from here on.\<close>

lemma stretched:
  assumes inv: "wl_inv pat str p t (Some s) star_t"
    and k: "star_t < k" "k \<le> length str" "glob (drop (s + 1) pat) (drop k str)"
  shows "\<exists>j. t < j \<and> j \<le> length str \<and> glob (drop p pat) (drop j str)"
proof -
  from inv obtain lit where lit: "drop (s + 1) pat = lit @ drop p pat" "star \<notin> set lit"
      "drop star_t str = lit @ drop t str" and t: "star_t \<le> t" "t \<le> length str"
    by (auto simp: wl_inv_def)
  from k(3) lit obtain u where u: "drop k str = lit @ u" "glob (drop p pat) u"
    by (auto simp: glob_literal_append)
  have len: "length lit = t - star_t"
    using arg_cong [OF lit(3), of length] t by simp
  have "length u = length str - k - length lit"
    using arg_cong [OF u(1), of length] by simp
  have "u = drop (k + length lit) str"
    using arg_cong [OF u(1), of "drop (length lit)"] by (simp add: add.commute)
  moreover have "k + length lit \<le> length str"
    using arg_cong [OF u(1), of length] k(2) by simp
  ultimately show ?thesis
    using u(2) len k(1) t by (intro exI [of _ "k + length lit"]) simp
qed

lemma ex_above:
  "(\<exists>k > a. k \<le> n \<and> G k) \<longleftrightarrow> (a < n \<and> G (Suc a)) \<or> (\<exists>k > Suc a. k \<le> n \<and> G k)"
  for a n :: nat
  by (metis Suc_leI Suc_lessI lessI less_Suc_eq less_imp_le_nat not_less order.strict_trans1 Suc_lessD)

lemma wildcard_loop_goal:
  "wl_inv pat str p t st star_t \<Longrightarrow>
   wildcard_loop pat str p t st star_t \<longleftrightarrow> wl_goal pat str p t st star_t"
proof (induction pat str p t st star_t rule: wildcard_loop.induct)
  case (1 pat str p t st star_t)
  note inv = "1.prems"
  consider (fin) "t \<ge> length str"
    | (star) "t < length str" "p < length pat" "pat ! p = star"
    | (lit) "t < length str" "p < length pat" "pat ! p \<noteq> star" "pat ! p = str ! t"
    | (retry) s where "t < length str" "\<not> (p < length pat \<and> pat ! p = star)"
        "\<not> (p < length pat \<and> pat ! p = str ! t)" "st = Some s"
    | (stuck) "t < length str" "\<not> (p < length pat \<and> pat ! p = star)"
        "\<not> (p < length pat \<and> pat ! p = str ! t)" "st = None"
    by (cases st) (metis linorder_not_less)+
  then show ?case
  proof cases
    case fin
    have t: "t = length str" and p: "p \<le> length pat"
      using inv fin by (auto simp: wl_inv_def)
    have "\<not> (\<exists>s k. st = Some s \<and> star_t < k \<and> k \<le> length str \<and> glob (drop (s + 1) pat) (drop k str))"
      using stretched [of pat str p t _ star_t] inv t by fastforce
    moreover have "wildcard_loop pat str p t st star_t \<longleftrightarrow> skip_stars pat p = length pat"
      by (subst wildcard_loop.simps) (simp add: t)
    ultimately show ?thesis
      unfolding wl_goal_def using t p by (auto simp: skip_stars_all glob_Nil_iff)
  next
    case star
    have inv': "wl_inv pat str (Suc p) t (Some p) t"
      using inv star by (auto simp: wl_inv_def)
    have "wl_goal pat str p t st star_t \<longleftrightarrow> wl_goal pat str (Suc p) t (Some p) t"
    proof -
      have here: "glob (drop p pat) (drop t str) \<longleftrightarrow>
          (\<exists>k. t \<le> k \<and> k \<le> length str \<and> glob (drop (Suc p) pat) (drop k str))"
        using star by (simp add: drop_at [of p pat] glob_star_from)
      have old: "glob (drop p pat) (drop t str)"
        if k: "st = Some s" "star_t < k" "k \<le> length str" "glob (drop (s + 1) pat) (drop k str)"
        for s k
      proof -
        obtain j where "t < j" "glob (drop p pat) (drop j str)"
          using stretched [OF inv [unfolded k(1)] k(2-4)] by blast
        moreover have "drop p pat = star # drop (Suc p) pat"
          using star by (simp add: drop_at)
        ultimately show ?thesis
          using glob_star_drop [of "drop (Suc p) pat" "j - t" "drop t str"] by simp
      qed
      have "wl_goal pat str p t st star_t \<longleftrightarrow> glob (drop p pat) (drop t str)"
        using old by (auto simp: wl_goal_def)
      also have "\<dots> \<longleftrightarrow> wl_goal pat str (Suc p) t (Some p) t"
        unfolding here wl_goal_def using star(1)
        by (auto simp: le_less intro: less_imp_le)
      finally show ?thesis .
    qed
    with "1.IH"(1) [OF star(1) conjI [OF star(2,3)] inv'] star show ?thesis
      by (simp add: wildcard_loop.simps [of pat str p t])
  next
    case lit
    have inv': "wl_inv pat str (Suc p) (Suc t) st star_t"
    proof -
      have "\<exists>l. drop (s + 1) pat = l @ drop (Suc p) pat \<and> star \<notin> set l \<and>
            drop star_t str = l @ drop (Suc t) str" if "st = Some s" for s
      proof -
        from inv that obtain l where "drop (s + 1) pat = l @ drop p pat" "star \<notin> set l"
            "drop star_t str = l @ drop t str"
          by (auto simp: wl_inv_def)
        then show ?thesis
          using lit by (intro exI [of _ "l @ [pat ! p]"]) (simp add: drop_at)
      qed
      then show ?thesis
        using inv lit by (auto simp: wl_inv_def)
    qed
    have "wl_goal pat str p t st star_t \<longleftrightarrow> wl_goal pat str (Suc p) (Suc t) st star_t"
      using lit by (simp add: wl_goal_def drop_at)
    with "1.IH"(2) [OF lit(1) _ conjI [OF lit(2,4)] inv'] lit show ?thesis
      by (simp add: wildcard_loop.simps [of pat str p t])
  next
    case retry
    have inv': "wl_inv pat str (s + 1) (star_t + 1) (Some s) (star_t + 1)"
      using inv retry by (auto simp: wl_inv_def)
    have "\<not> glob (drop p pat) (drop t str)"
      using retry inv by (cases "p < length pat") (auto simp: drop_at wl_inv_def)
    then have "wl_goal pat str p t st star_t \<longleftrightarrow>
        wl_goal pat str (s + 1) (star_t + 1) (Some s) (star_t + 1)"
      using retry(1,4) inv
        ex_above [of star_t "length str" "\<lambda>k. glob (drop (s + 1) pat) (drop k str)"]
      by (simp add: wl_goal_def wl_inv_def)
    moreover have "wildcard_loop pat str p t st star_t =
        wildcard_loop pat str (s + 1) (star_t + 1) st (star_t + 1)"
      by (subst wildcard_loop.simps) (simp only: retry if_True if_False option.case)
    ultimately show ?thesis
      using "1.IH"(3) [OF retry(1-3) retry(4)] inv' retry(4) by simp
  next
    case stuck
    then have "\<not> glob (drop p pat) (drop t str)"
      using inv by (cases "p < length pat") (auto simp: drop_at wl_inv_def)
    moreover have "\<not> wildcard_loop pat str p t st star_t"
      by (subst wildcard_loop.simps) (simp only: stuck if_True if_False option.case not_False_eq_True)
    ultimately show ?thesis
      using stuck(4) by (simp add: wl_goal_def)
  qed
qed

lemma wildcard_match_glob: "wildcard_match pat str \<longleftrightarrow> glob pat str"
proof -
  have "wl_inv pat str 0 0 None 0"
    by (simp add: wl_inv_def)
  from wildcard_loop_goal [OF this] show ?thesis
    by (simp add: wildcard_match_def wl_goal_def)
qed

lemma pattern_matches_glob: "pattern_matches p url \<longleftrightarrow> glob (pattern_str p) url"
  by (simp add: pattern_matches_def wildcard_match_glob)

lemma pattern_matches_star [simp]: "pattern_matches (Pattern ''*'') url"
  using glob_star_iff [of "[]" url] by (simp add: pattern_matches_glob star_def) blast

section \<open>Properties\<close>

text \<open>
  C1. The iterative matcher decides the meaning of the pattern: a star stands for any run
  of bytes, every other byte for itself, and the whole text is consumed. The greedy
  single-star backtracking of the loop loses no match and finds no wrong one, for every
  pattern and every text.
\<close>

theorem wildcard_matcher_correct: "pattern_matches (Pattern pat) url \<longleftrightarrow> glob pat url"
  by (simp add: pattern_matches_glob)

lemma glob_literal_byte: "glob p t \<Longrightarrow> c \<in> set p \<Longrightarrow> c \<noteq> star \<Longrightarrow> c \<in> set t"
  by (induction p t rule: glob.induct) (auto split: if_splits)

lemma find_char_append: "\<forall>c \<in> set a. \<not> P c \<Longrightarrow> P x \<Longrightarrow> find_char P (a @ x # r) = Some (length a)"
  by (induction a) auto

lemma accepted_is_anchored:
  assumes "pattern_parse (pre @ ''://'' @ a @ star # r) = Inr p"
    and "find_sub ''://'' (pre @ ''://'' @ a @ star # r) = Some (length pre)"
    and "CHR ''/'' \<notin> set a" and "star \<notin> set a"
  shows "CHR ''/'' \<in> set r"
proof (rule ccontr)
  assume no: "CHR ''/'' \<notin> set r"
  have "find_char (\<lambda>c. c = CHR ''/'') (a @ star # r) = None"
    using assms(3) no by (auto simp: find_char_None_iff star_def)
  moreover have "find_char (\<lambda>c. c = star) (a @ star # r) = Some (length a)"
    using assms(4) by (intro find_char_append) auto
  ultimately have "unanchored_authority_wildcard (pre @ ''://'' @ a @ star # r)"
    using assms(2) no by (auto simp: unanchored_authority_wildcard_def Let_def star_def numeral_3_eq_3)
  with assms(1) show False
    by (simp add: pattern_parse_def split: if_splits)
qed

text \<open>
  An accepted pattern never ends its authority in an open wildcard: when its first star
  stands in the authority, every URL it matches starts with the literal text before the
  star and still has a slash behind it, so \<open>https://bank.example*\<close> is refused and
  \<open>https://bank.example*/\<close> does not match the bare sibling
  \<open>https://bank.example.evil.com\<close>.
\<close>

theorem accepted_wildcard_is_anchored:
  assumes "pattern_parse (pre @ ''://'' @ a @ star # r) = Inr p"
    and "find_sub ''://'' (pre @ ''://'' @ a @ star # r) = Some (length pre)"
    and "star \<notin> set pre" and "star \<notin> set a" and "CHR ''/'' \<notin> set a"
    and "pattern_matches p url"
  shows "prefix (pre @ ''://'' @ a) url \<and>
    CHR ''/'' \<in> set (drop (length (pre @ ''://'' @ a)) url) \<and>
    glob (star # r) (drop (length (pre @ ''://'' @ a)) url)"
proof -
  have slash: "CHR ''/'' \<in> set r"
    by (rule accepted_is_anchored [OF assms(1,2,5,4)])
  have "pattern_str p = (pre @ ''://'' @ a) @ (star # r)"
    using assms(1) by (auto simp: pattern_parse_def split: if_splits)
  then have "glob ((pre @ ''://'' @ a) @ (star # r)) url"
    using assms(6) by (simp add: pattern_matches_glob)
  moreover have "star \<notin> set (pre @ ''://'' @ a)"
    using assms(3,4) by (auto simp: star_def)
  ultimately obtain u where url: "url = (pre @ ''://'' @ a) @ u" and u: "glob (star # r) u"
    by (metis glob_literal_append)
  have "CHR ''/'' \<in> set u"
    using glob_literal_byte [OF u] slash by (simp add: star_def)
  with url u show ?thesis
    by (simp add: numeral_3_eq_3)
qed

theorem accepted_wildcard_is_anchored_witness:
  "prefix ''https://a.b'' ''https://a.b.c/x'' \<and> pattern_parse ''https://a.b*'' = Inl UnanchoredAuthorityWildcard"
proof -
  have "pattern_parse (''https'' @ ''://'' @ ''a.b'' @ star # ''/x'') = Inr (Pattern ''https://a.b*/x'')"
    by code_simp
  moreover have "find_sub ''://'' (''https'' @ ''://'' @ ''a.b'' @ star # ''/x'') = Some (length ''https'')"
    by code_simp
  moreover have "pattern_matches (Pattern ''https://a.b*/x'') ''https://a.b.c/x''"
    by code_simp
  ultimately have "prefix ''https://a.b'' ''https://a.b.c/x''"
    using accepted_wildcard_is_anchored [of "''https''" "''a.b''" "''/x''" "Pattern ''https://a.b*/x''" "''https://a.b.c/x''"]
    by (simp add: star_def)
  moreover have "pattern_parse ''https://a.b*'' = Inl UnanchoredAuthorityWildcard"
    by code_simp
  ultimately show ?thesis
    by (rule conjI)
qed

end
