(* ===== verification/Policy_Rules.thy ===== *)
theory Policy_Rules
  imports Policy_Class Policy_Pattern
begin

text \<open>
  The rule set, \<open>crates/policy/src/brief.rs\<close>, \<open>canonical.rs\<close> and \<open>rules.rs\<close>: what an
  approval authorizes, the canonical URL a verdict is reached at, and the verdict itself.

  The \<open>url\<close> crate (the WHATWG parser) is not part of the repository: it is the record
  \<open>url_api\<close>, an argument of every definition that judges a URL.
\<close>

section \<open>Canonical URLs\<close>

record 'u url_api =
  url_parse :: "string \<Rightarrow> 'u option"
  url_username :: "'u \<Rightarrow> string"
  url_password :: "'u \<Rightarrow> string option"
  url_is_special :: "'u \<Rightarrow> bool"
  url_host_str :: "'u \<Rightarrow> string option"
  url_set_host :: "'u \<Rightarrow> string option \<Rightarrow> 'u option"
  url_text :: "'u \<Rightarrow> string"

definition ends_with_dot :: "string \<Rightarrow> bool" where
  "ends_with_dot h \<longleftrightarrow> h \<noteq> [] \<and> last h = CHR ''.''"

definition canonical_url :: "'u url_api \<Rightarrow> string \<Rightarrow> string option" where
  "canonical_url api raw =
     (case url_parse api raw of
        None \<Rightarrow> None
      | Some url \<Rightarrow>
          (if \<not> (url_username api url = [] \<and> url_password api url = None) then None
           else if url_is_special api url \<and>
                   (case url_host_str api url of None \<Rightarrow> False | Some h \<Rightarrow> ends_with_dot h)
           then
             (let host = unwrap_or (url_host_str api url) [];
                  trimmed = trim_end_char (CHR ''.'') host
              in (case url_set_host api url (if trimmed \<noteq> [] then Some trimmed else None) of
                    None \<Rightarrow> None
                  | Some url' \<Rightarrow> Some (url_text api url')))
           else Some (url_text api url)))"

section \<open>Briefs\<close>

datatype approval_effect =
    EffectAction action
  | EffectCookies nat

fun effect_class :: "approval_effect \<Rightarrow> action_class" where
  "effect_class (EffectAction action) = class_of action"
| "effect_class (EffectCookies _) = Cookies"

fun target_url :: "approval_effect \<Rightarrow> string option" where
  "target_url (EffectAction (Navigate url)) = Some url"
| "target_url _ = None"

datatype verdict_basis =
    BasisRule nat "string option"
  | SetDefault
  | MissingUrl

record approval_brief =
  ab_class :: action_class
  ab_judged_url :: "string option"
  ab_basis :: verdict_basis
  ab_effect :: approval_effect

definition judged_at :: "'u url_api \<Rightarrow> approval_brief \<Rightarrow> string option \<Rightarrow> bool" where
  "judged_at api brief raw_url \<longleftrightarrow>
     ab_judged_url brief = Option.bind raw_url (canonical_url api)"

section \<open>Verdicts and rules\<close>

datatype verdict = Allow | Deny | RequireApproval

fun verdict_parse :: "string \<Rightarrow> verdict option" where
  "verdict_parse name =
     (if name = ''allow'' then Some Allow
      else if name = ''deny'' then Some Deny
      else if name = ''require_approval'' then Some RequireApproval
      else None)"

datatype review_result =
    Allowed
  | Denied
  | NeedsApproval approval_brief

record policy_rule =
  rule_action_class :: "action_class option"
  rule_url_pattern :: "pattern option"
  rule_verdict :: verdict

record rule_set =
  rs_rules :: "policy_rule list"
  rs_default_verdict :: verdict
  rs_approval_timeout :: duration

definition rule_set_new :: "policy_rule list \<Rightarrow> verdict \<Rightarrow> rule_set" where
  "rule_set_new rules default_verdict =
     \<lparr>rs_rules = rules, rs_default_verdict = default_verdict,
      rs_approval_timeout = from_secs 120\<rparr>"

definition with_approval_timeout :: "rule_set \<Rightarrow> duration \<Rightarrow> rule_set" where
  "with_approval_timeout rs timeout = rs\<lparr>rs_approval_timeout := timeout\<rparr>"

definition default_set :: rule_set where
  "default_set = rule_set_new
     [\<lparr>rule_action_class = Some Navigation, rule_url_pattern = Some (Pattern ''file:///*''),
        rule_verdict = RequireApproval\<rparr>,
      \<lparr>rule_action_class = Some FileUpload, rule_url_pattern = None,
        rule_verdict = RequireApproval\<rparr>,
      \<lparr>rule_action_class = Some Cookies, rule_url_pattern = None,
        rule_verdict = RequireApproval\<rparr>]
     Allow"

definition rule_applies :: "policy_rule \<Rightarrow> action_class \<Rightarrow> string \<Rightarrow> bool" where
  "rule_applies rule c url \<longleftrightarrow>
     (case rule_action_class rule of None \<Rightarrow> True | Some rule_class \<Rightarrow> rule_class = c) \<and>
     (case rule_url_pattern rule of None \<Rightarrow> True | Some p \<Rightarrow> pattern_matches p url)"

text \<open>The loop of \<open>judge\<close> over the rules, counting their positions.\<close>

fun judge_from :: "nat \<Rightarrow> policy_rule list \<Rightarrow> verdict \<Rightarrow> action_class \<Rightarrow> string \<Rightarrow>
    verdict \<times> verdict_basis" where
  "judge_from position [] dflt c url = (dflt, SetDefault)"
| "judge_from position (rule # rules) dflt c url =
     (if rule_applies rule c url
      then (rule_verdict rule,
            BasisRule (position + 1) (map_option pattern_str (rule_url_pattern rule)))
      else judge_from (position + 1) rules dflt c url)"

definition judge :: "rule_set \<Rightarrow> action_class \<Rightarrow> string \<Rightarrow> verdict \<times> verdict_basis" where
  "judge rs c url = judge_from 0 (rs_rules rs) (rs_default_verdict rs) c url"

definition evaluate :: "rule_set \<Rightarrow> action_class \<Rightarrow> string \<Rightarrow> verdict" where
  "evaluate rs c url = fst (judge rs c url)"

definition review :: "'u url_api \<Rightarrow> rule_set \<Rightarrow> approval_effect \<Rightarrow> string option \<Rightarrow> review_result" where
  "review api rs effect raw_url =
     (let judged_url = Option.bind (opt_or (target_url effect) raw_url) (canonical_url api);
          c = effect_class effect;
          (verdict, basis) =
            (case judged_url of
               Some url \<Rightarrow> judge rs c url
             | None \<Rightarrow>
                 (case judge rs c [] of
                    (Allow, _) \<Rightarrow> (RequireApproval, MissingUrl)
                  | (v, b) \<Rightarrow> (v, b)))
      in (case verdict of
            Allow \<Rightarrow> Allowed
          | Deny \<Rightarrow> Denied
          | RequireApproval \<Rightarrow>
              NeedsApproval \<lparr>ab_class = c, ab_judged_url = judged_url, ab_basis = basis,
                             ab_effect = effect\<rparr>))"

section \<open>The judged URL\<close>

definition judgment_url :: "'u url_api \<Rightarrow> approval_effect \<Rightarrow> string option \<Rightarrow> string option" where
  "judgment_url api effect raw_url =
     Option.bind (opt_or (target_url effect) raw_url) (canonical_url api)"

lemma review_eq:
  "review api rs effect raw_url =
     (let u = judgment_url api effect raw_url; c = effect_class effect;
          (v, b) = judge rs c (unwrap_or u [])
      in (if v = Deny then Denied
          else if v = Allow \<and> u \<noteq> None then Allowed
          else NeedsApproval \<lparr>ab_class = c, ab_judged_url = u,
                 ab_basis = (if v = Allow then MissingUrl else b), ab_effect = effect\<rparr>))"
  by (auto simp: review_def judgment_url_def Let_def split: option.splits prod.splits verdict.splits)

lemma review_Allowed_iff:
  "review api rs effect raw_url = Allowed \<longleftrightarrow>
     (\<exists>u. judgment_url api effect raw_url = Some u \<and> evaluate rs (effect_class effect) u = Allow)"
  by (auto simp: review_eq evaluate_def Let_def split: prod.splits if_splits option.splits)

lemma review_Denied_iff:
  "review api rs effect raw_url = Denied \<longleftrightarrow>
     evaluate rs (effect_class effect) (unwrap_or (judgment_url api effect raw_url) []) = Deny"
  by (auto simp: review_eq evaluate_def Let_def split: prod.splits if_splits)

lemma review_brief:
  "review api rs effect raw_url = NeedsApproval brief \<Longrightarrow>
     ab_effect brief = effect \<and> ab_class brief = effect_class effect \<and>
     ab_judged_url brief = judgment_url api effect raw_url"
  by (auto simp: review_eq Let_def split: prod.splits if_splits)

lemma judgment_url_navigate [simp]:
  "judgment_url api (EffectAction (Navigate url)) raw = canonical_url api url"
  by (simp add: judgment_url_def)

lemma canonical_url_credentials:
  assumes "url_parse api raw = Some u" and "url_username api u \<noteq> [] \<or> url_password api u \<noteq> None"
  shows "canonical_url api raw = None"
  using assms by (auto simp: canonical_url_def)

section \<open>First match\<close>

text \<open>Skipping rules that do not apply, as the loop does, and stopping at the first that does.\<close>

lemma judge_from_skip:
  "(\<And>r. r \<in> set pre \<Longrightarrow> \<not> rule_applies r c url) \<Longrightarrow>
   judge_from n (pre @ rules) d c url = judge_from (n + length pre) rules d c url"
  by (induction pre arbitrary: n) auto

lemma judge_from_cases:
  obtains (none) "\<And>r. r \<in> set rules \<Longrightarrow> \<not> rule_applies r c url"
      "judge_from n rules d c url = (d, SetDefault)"
  | (rule) pre r post where "rules = pre @ r # post" "rule_applies r c url"
      "\<And>r'. r' \<in> set pre \<Longrightarrow> \<not> rule_applies r' c url"
      "judge_from n rules d c url =
         (rule_verdict r, BasisRule (n + length pre + 1) (map_option pattern_str (rule_url_pattern r)))"
proof (cases "\<exists>r \<in> set rules. rule_applies r c url")
  case True
  then obtain pre r post where *: "rules = pre @ r # post" "rule_applies r c url"
      "\<forall>r' \<in> set pre. \<not> rule_applies r' c url"
    using split_list_first_prop [of rules "\<lambda>r. rule_applies r c url"] by blast
  then show ?thesis
    using judge_from_skip [of pre c url n "r # post" d] by (intro rule) auto
next
  case False
  then show ?thesis
    using judge_from_skip [of rules c url n "[]" d] by (intro none) auto
qed

lemma judge_append:
  "judge_from n (xs @ ys) d c url =
     (case judge_from n xs d c url of
        (v, BasisRule i p) \<Rightarrow> (v, BasisRule i p)
      | _ \<Rightarrow> judge_from (n + length xs) ys d c url)"
  by (induction xs arbitrary: n) auto

section \<open>The interface the session relies on\<close>

text \<open>
  What a caller of \<open>review\<close> may assume: an operation that goes on without a human, or
  after one, is the operation that was reviewed, and nothing is allowed without a URL it
  was judged at.
\<close>

locale reviewer =
  fixes rev :: "'e \<Rightarrow> 'r option \<Rightarrow> review_result"
    and url_of :: "'e \<Rightarrow> 'r option \<Rightarrow> string option"
    and effect_of :: "'e \<Rightarrow> approval_effect"
  assumes brief_describes: "rev e r = NeedsApproval b \<Longrightarrow> ab_effect b = effect_of e"
    and brief_url: "rev e r = NeedsApproval b \<Longrightarrow> ab_judged_url b = url_of e r"
    and allowed_url: "rev e r = Allowed \<Longrightarrow> url_of e r \<noteq> None"
begin

lemma no_url_never_allowed: "url_of e r = None \<Longrightarrow> rev e r \<noteq> Allowed"
  using allowed_url by blast

lemma no_url_asks_or_denies:
  "url_of e r = None \<Longrightarrow> rev e r = Denied \<or> (\<exists>b. rev e r = NeedsApproval b \<and> ab_judged_url b = None)"
  by (cases "rev e r") (use allowed_url brief_url in force)+

lemma asked_for_itself: "rev e r = NeedsApproval b \<Longrightarrow> rev e' r' = NeedsApproval b \<Longrightarrow> effect_of e = effect_of e'"
  using brief_describes by metis

end

interpretation policy_review: reviewer "review api rs" "judgment_url api" "\<lambda>e. e"
  by unfold_locales (auto dest: review_brief simp: review_Allowed_iff)

section \<open>Properties\<close>

lemma judge_from_index:
  "judge_from n rules d c url = (v, BasisRule i p) \<longleftrightarrow>
     (\<exists>k < length rules. i = n + k + 1 \<and> rule_applies (rules ! k) c url \<and>
        (\<forall>j < k. \<not> rule_applies (rules ! j) c url) \<and>
        v = rule_verdict (rules ! k) \<and> p = map_option pattern_str (rule_url_pattern (rules ! k)))"
    (is "?L n rules \<longleftrightarrow> ?R n rules")
proof (induction rules arbitrary: n)
  case Nil
  then show ?case by simp
next
  case (Cons r rules)
  show ?case
  proof (cases "rule_applies r c url")
    case True
    have "?R n (r # rules) \<longleftrightarrow> i = n + 1 \<and> v = rule_verdict r \<and>
        p = map_option pattern_str (rule_url_pattern r)"
      using True by (auto simp: Ex_less_Suc2 All_less_Suc2)
    with True show ?thesis by auto
  next
    case False
    have "?R n (r # rules) \<longleftrightarrow> ?R (n + 1) rules"
      using False by (simp add: Ex_less_Suc2 All_less_Suc2)
    with False Cons.IH [of "n + 1"] show ?thesis by simp
  qed
qed

definition plain_url_api :: "string url_api" where
  "plain_url_api = \<lparr>url_parse = (\<lambda>s. if prefix ''https://'' s then Some s else None),
     url_username = (\<lambda>s. if CHR ''@'' \<in> set s then ''user'' else []),
     url_password = (\<lambda>_. None), url_is_special = (\<lambda>_. True), url_host_str = (\<lambda>_. None),
     url_set_host = (\<lambda>s _. Some s), url_text = (\<lambda>s. s)\<rparr>"

text \<open>
  The documented reading of a rule set, with no loop and no counter: rule \<open>k\<close> decides when
  it applies and none before it does; when none applies the default verdict decides.
\<close>

definition first_rule :: "rule_set \<Rightarrow> action_class \<Rightarrow> string \<Rightarrow> nat \<Rightarrow> bool" where
  "first_rule rs c url k \<longleftrightarrow>
     k < length (rs_rules rs) \<and> rule_applies (rs_rules rs ! k) c url \<and>
     (\<forall>j < k. \<not> rule_applies (rs_rules rs ! j) c url)"

definition decides :: "rule_set \<Rightarrow> action_class \<Rightarrow> string \<Rightarrow> verdict \<Rightarrow> verdict_basis \<Rightarrow> bool" where
  "decides rs c url v basis \<longleftrightarrow>
     (\<exists>k. first_rule rs c url k \<and> v = rule_verdict (rs_rules rs ! k) \<and>
          basis = BasisRule (k + 1) (map_option pattern_str (rule_url_pattern (rs_rules rs ! k)))) \<or>
     ((\<nexists>k. first_rule rs c url k) \<and> v = rs_default_verdict rs \<and> basis = SetDefault)"

lemma first_rule_unique: "first_rule rs c url k \<Longrightarrow> first_rule rs c url k' \<Longrightarrow> k = k'"
  by (metis first_rule_def linorder_neqE_nat)

lemma judge_from_default:
  "snd (judge_from n rules d c url) = SetDefault \<Longrightarrow>
     fst (judge_from n rules d c url) = d \<and> (\<forall>k < length rules. \<not> rule_applies (rules ! k) c url)"
  by (induction rules arbitrary: n) (auto simp: All_less_Suc2 split: if_splits)

lemma judge_from_never_missing: "snd (judge_from n rules d c url) \<noteq> MissingUrl"
  by (induction rules arbitrary: n) auto

lemma judge_decides: "judge rs c url = (v, b) \<longleftrightarrow> decides rs c url v b"
proof
  assume *: "judge rs c url = (v, b)"
  show "decides rs c url v b"
  proof (cases b)
    case (BasisRule i p)
    with * show ?thesis
      by (auto simp: judge_def judge_from_index decides_def first_rule_def)
  next
    case SetDefault
    with * judge_from_default [of 0 "rs_rules rs" "rs_default_verdict rs" c url] show ?thesis
      by (auto simp: judge_def decides_def first_rule_def)
  next
    case MissingUrl
    with * judge_from_never_missing [of 0 "rs_rules rs" "rs_default_verdict rs" c url] show ?thesis
      by (simp add: judge_def)
  qed
next
  assume "decides rs c url v b"
  then consider (rule) k where "first_rule rs c url k" "v = rule_verdict (rs_rules rs ! k)"
      "b = BasisRule (k + 1) (map_option pattern_str (rule_url_pattern (rs_rules rs ! k)))"
    | (default) "\<nexists>k. first_rule rs c url k" "v = rs_default_verdict rs" "b = SetDefault"
    by (auto simp: decides_def)
  then show "judge rs c url = (v, b)"
  proof cases
    case rule
    then show ?thesis
      by (auto simp: judge_def judge_from_index first_rule_def)
  next
    case default
    show ?thesis
    proof (rule judge_from_cases [of "rs_rules rs" c url 0 "rs_default_verdict rs"])
      assume "judge_from 0 (rs_rules rs) (rs_default_verdict rs) c url = (rs_default_verdict rs, SetDefault)"
      with default show ?thesis by (simp add: judge_def)
    next
      fix pre r post
      assume "rs_rules rs = pre @ r # post" "rule_applies r c url"
        "\<And>r'. r' \<in> set pre \<Longrightarrow> \<not> rule_applies r' c url"
      then have "first_rule rs c url (length pre)"
        by (auto simp: first_rule_def nth_append)
      with default show ?thesis by blast
    qed
  qed
qed

lemma ex_decides: "(\<exists>b. decides rs c url v b) \<longleftrightarrow> fst (judge rs c url) = v"
  using judge_decides [of rs c url v] by (metis fst_conv surj_pair)

text \<open>
  C2. The first matching rule decides a review, in document order, and the brief a human
  gets says so. The rules are read for the effect's class at the URL the effect itself
  names, else the page's, in canonical form (an unusable URL reads as the empty text).
  The review refuses exactly when the deciding verdict is deny; it lets the operation run
  exactly when it is allow and there is a URL; and it asks exactly when the verdict is
  require-approval, or allow without a URL. The brief then carries the effect, its class,
  the judged URL and the basis: the deciding rule's position from one with its pattern, the
  set's default, or the missing URL.
\<close>

theorem first_match_decides:
  "let u = Option.bind (opt_or (target_url effect) raw) (canonical_url api);
       c = effect_class effect
   in (review api rs effect raw = Denied \<longleftrightarrow> (\<exists>b. decides rs c (unwrap_or u []) Deny b)) \<and>
      (review api rs effect raw = Allowed \<longleftrightarrow>
         (\<exists>b. decides rs c (unwrap_or u []) Allow b) \<and> u \<noteq> None) \<and>
      (review api rs effect raw = NeedsApproval brief \<longleftrightarrow>
         ab_effect brief = effect \<and> ab_class brief = c \<and> ab_judged_url brief = u \<and>
         (decides rs c (unwrap_or u []) RequireApproval (ab_basis brief) \<or>
          (\<exists>b. decides rs c (unwrap_or u []) Allow b) \<and> u = None \<and> ab_basis brief = MissingUrl))"
proof -
  obtain v b where j: "judge rs (effect_class effect)
      (unwrap_or (judgment_url api effect raw) []) = (v, b)"
    by fastforce
  show ?thesis
    unfolding ex_decides judge_decides [symmetric] review_eq judgment_url_def [symmetric] Let_def j
    by (cases v; cases brief) auto
qed

theorem first_match_decides_witness:
  "review plain_url_api default_set (EffectCookies 1) (Some ''https://a.b/'') =
     NeedsApproval \<lparr>ab_class = Cookies, ab_judged_url = Some ''https://a.b/'',
       ab_basis = BasisRule 3 None, ab_effect = EffectCookies 1\<rparr>"
proof -
  have "first_rule default_set Cookies ''https://a.b/'' 2"
    by (auto simp: first_rule_def default_set_def rule_set_new_def rule_applies_def less_2_cases_iff)
  then have "decides default_set Cookies ''https://a.b/'' RequireApproval (BasisRule 3 None)"
    unfolding decides_def
    by (intro disjI1 exI [of _ 2]) (simp add: default_set_def rule_set_new_def)
  then show ?thesis
    using first_match_decides [of "EffectCookies 1" "Some ''https://a.b/''" plain_url_api default_set]
    by (simp add: Let_def canonical_url_def plain_url_api_def)
qed

text \<open>
  Fail closed: when no usable URL exists (the text is no URL, or it hides credentials
  in a user-at-host decoy, or there is none at all), a review never lets the operation
  run unsupervised: it is refused by a rule or parked for a human with no judged URL.
\<close>

theorem missing_url_fails_closed:
  assumes "judgment_url api effect raw_url = None"
  shows "review api rs effect raw_url = Denied \<or>
         (\<exists>b. review api rs effect raw_url = NeedsApproval b \<and> ab_judged_url b = None \<and>
              ab_effect b = effect)"
  using policy_review.no_url_asks_or_denies [OF assms, of rs] review_brief [of api rs effect raw_url]
  by auto

theorem missing_url_fails_closed_witness:
  "\<exists>b. review plain_url_api (rule_set_new [] Allow) (EffectAction (Navigate ''https://a@b/'')) None
        = NeedsApproval b \<and> ab_judged_url b = None"
proof -
  have h: "judgment_url plain_url_api (EffectAction (Navigate ''https://a@b/'')) None = None"
    by (simp add: canonical_url_def plain_url_api_def)
  have "review plain_url_api (rule_set_new [] Allow) (EffectAction (Navigate ''https://a@b/'')) None \<noteq> Denied"
    by (simp add: review_Denied_iff h evaluate_def judge_def rule_set_new_def)
  with missing_url_fails_closed [OF h, of "rule_set_new [] Allow"] show ?thesis
    by auto
qed

text \<open>
  A navigation is judged by the target it executes: whatever URL the caller pairs with
  the effect, the review is the one of the canonical form of the target inside it, and a
  target that carries credentials is never allowed without a human.
\<close>

theorem navigation_judged_at_its_target:
  "review api rs (EffectAction (Navigate url)) raw = review api rs (EffectAction (Navigate url)) raw' \<and>
   (review api rs (EffectAction (Navigate url)) raw = Allowed \<longleftrightarrow>
      (\<exists>u. canonical_url api url = Some u \<and> evaluate rs Navigation u = Allow))"
proof
  show "review api rs (EffectAction (Navigate url)) raw = review api rs (EffectAction (Navigate url)) raw'"
    by (simp add: review_eq)
  show "review api rs (EffectAction (Navigate url)) raw = Allowed \<longleftrightarrow>
      (\<exists>u. canonical_url api url = Some u \<and> evaluate rs Navigation u = Allow)"
    by (simp add: review_Allowed_iff)
qed

text \<open>
  The built-in rule set: file uploads and cookie writes are parked at every URL,
  navigations exactly when the canonical URL lies under \<open>file:///\<close>, and everything else
  is allowed.
\<close>

lemma glob_file: "glob ''file:///*'' url \<longleftrightarrow> prefix ''file:///'' url"
proof -
  have "star \<notin> set ''file:///''"
    by (simp add: star_def)
  from glob_literal_append [OF this, of "''*''" url] have
    "glob ''file:///*'' url \<longleftrightarrow> (\<exists>u. url = ''file:///'' @ u \<and> glob ''*'' u)"
    by simp
  moreover have "glob ''*'' u" for u
    using pattern_matches_star [of u] by (simp add: pattern_matches_glob)
  ultimately show ?thesis
    by (simp add: prefix_def)
qed

theorem default_set_verdicts:
  "evaluate default_set c url =
     (if c = FileUpload \<or> c = Cookies \<or> (c = Navigation \<and> prefix ''file:///'' url)
      then RequireApproval else Allow)"
  by (cases c) (auto simp: evaluate_def judge_def default_set_def rule_set_new_def rule_applies_def
      pattern_matches_glob glob_file)

end
