(* ===== verification/Policy_Config.thy ===== *)
theory Policy_Config
  imports Policy_Rules
begin

text \<open>
  The policy configuration, \<open>crates/policy/src/config.rs\<close>: turning the parsed document
  into a rule set, with every refusal of the source in its order. The \<open>toml\<close> crate is
  the argument \<open>from_toml\<close>.
\<close>

record config_rule =
  cr_action_class :: "string option"
  cr_url_pattern :: "string option"
  cr_verdict :: string

record policy_config =
  pc_default :: "string option"
  pc_approval_timeout_ms :: "nat option"
  pc_rules :: "config_rule list"

datatype config_error = ConfigError (config_detail: string)

definition max_approval_timeout_ms :: nat where
  "max_approval_timeout_ms = 24 * 60 * 60 * 1000"

definition unknown_verdict :: "string \<Rightarrow> string \<Rightarrow> config_error" where
  "unknown_verdict place name = ConfigError
     (''unknown verdict '' @ quoted name @ '' in '' @ place @
      ''; use allow, deny, or require_approval'')"

fun show_pattern_error :: "pattern_error \<Rightarrow> string" where
  "show_pattern_error Blank = ''patterns must not be blank''"
| "show_pattern_error UnanchoredAuthorityWildcard =
     ''a wildcard in the authority is not anchored by a later '' @ quoted ''/'' @ ''; write '' @
     quoted ''https://host/*'' @ '' so it cannot cross into sibling domains''"

definition parse_config_rule :: "config_rule \<Rightarrow> config_error + policy_rule" where
  "parse_config_rule rule =
     rbind (ok_or (verdict_parse (cr_verdict rule)) (unknown_verdict ''a rule'' (cr_verdict rule)))
       (\<lambda>v. rbind
          (case cr_action_class rule of
             Some name \<Rightarrow>
               (case class_parse name of
                  Some c \<Rightarrow> Inr (Some c)
                | None \<Rightarrow> Inl (ConfigError
                    (''unknown action_class '' @ quoted name @
                     ''; use navigation, pointer, keyboard, selection, file_upload, scroll, or cookies'')))
           | None \<Rightarrow> Inr None)
          (\<lambda>c.
             if cr_action_class rule = None \<and> cr_url_pattern rule = None
             then Inl (ConfigError ''a rule must set action_class, url_pattern, or both'')
             else rbind
               (case cr_url_pattern rule of
                  Some txt \<Rightarrow>
                    (case pattern_parse txt of
                       Inr p \<Rightarrow> Inr (Some p)
                     | Inl e \<Rightarrow> Inl (ConfigError
                         (''invalid url_pattern '' @ debug_str txt @ '' in a rule: '' @
                          show_pattern_error e)))
                | None \<Rightarrow> Inr None)
               (\<lambda>p. Inr \<lparr>rule_action_class = c, rule_url_pattern = p, rule_verdict = v\<rparr>)))"

fun parse_config_rules :: "config_rule list \<Rightarrow> config_error + policy_rule list" where
  "parse_config_rules [] = Inr []"
| "parse_config_rules (r # rs) =
     rbind (parse_config_rule r) (\<lambda>x. rbind (parse_config_rules rs) (\<lambda>xs. Inr (x # xs)))"

definition check_timeout :: "nat option \<Rightarrow> config_error + unit" where
  "check_timeout ms_opt =
     (case ms_opt of
        None \<Rightarrow> Inr ()
      | Some ms \<Rightarrow>
          (if ms = 0
           then Inl (ConfigError
             ''approval_timeout_ms 0 leaves no window to answer an approval; set a positive window or use the deny verdict'')
           else if ms > max_approval_timeout_ms
           then Inl (ConfigError
             (''approval_timeout_ms '' @ show_nat ms @ '' exceeds the maximum of '' @
              show_nat max_approval_timeout_ms))
           else Inr ()))"

definition parse_policy :: "(string \<Rightarrow> string + policy_config) \<Rightarrow> string \<Rightarrow> config_error + rule_set" where
  "parse_policy from_toml toml_text =
     rbind (map_err ConfigError (from_toml toml_text))
       (\<lambda>config. rbind
          (case pc_default config of
             None \<Rightarrow> Inr Allow
           | Some name \<Rightarrow> ok_or (verdict_parse name) (unknown_verdict ''default'' name))
          (\<lambda>default_verdict. rbind (parse_config_rules (pc_rules config))
             (\<lambda>rules. rbind (check_timeout (pc_approval_timeout_ms config))
                (\<lambda>_.
                   let ruleset = rule_set_new rules default_verdict
                   in Inr (case pc_approval_timeout_ms config of
                             Some ms \<Rightarrow> with_approval_timeout ruleset (from_millis ms)
                           | None \<Rightarrow> ruleset)))))"

section \<open>What an accepted configuration says\<close>

definition rule_of_config :: "config_rule \<Rightarrow> policy_rule \<Rightarrow> bool" where
  "rule_of_config cr r \<longleftrightarrow>
     verdict_parse (cr_verdict cr) = Some (rule_verdict r) \<and>
     cr_action_class cr = map_option class_name (rule_action_class r) \<and>
     cr_url_pattern cr = map_option pattern_str (rule_url_pattern r) \<and>
     (rule_action_class r \<noteq> None \<or> rule_url_pattern r \<noteq> None) \<and>
     (case rule_url_pattern r of
        None \<Rightarrow> True
      | Some p \<Rightarrow> trim (pattern_str p) \<noteq> [] \<and> \<not> unanchored_authority_wildcard (pattern_str p))"

lemma pattern_parse_Inr:
  "pattern_parse txt = Inr p \<longleftrightarrow>
     p = Pattern txt \<and> trim txt \<noteq> [] \<and> \<not> unanchored_authority_wildcard txt"
  by (auto simp: pattern_parse_def)

lemma parse_config_rule_Inr:
  "parse_config_rule cr = Inr r \<Longrightarrow> rule_of_config cr r"
  by (auto simp: parse_config_rule_def rule_of_config_def rbind_Inr_iff pattern_parse_Inr
        split: option.splits if_splits sum.splits dest: class_parse_Some simp del: class_parse.simps verdict_parse.simps)

lemma parse_config_rules_Inr:
  "parse_config_rules crs = Inr rs \<Longrightarrow> list_all2 rule_of_config crs rs"
proof (induction crs arbitrary: rs)
  case Nil
  then show ?case by simp
next
  case (Cons cr crs)
  then show ?case
    by (auto simp: rbind_Inr_iff dest: parse_config_rule_Inr)
qed

lemma check_timeout_Inr:
  "check_timeout t = Inr u \<Longrightarrow> t = Some ms \<Longrightarrow> 0 < ms \<and> ms \<le> max_approval_timeout_ms"
  by (auto simp: check_timeout_def split: if_splits)

text \<open>
  C3. An accepted configuration is read as written: one rule per entry in document order,
  each with the entry's verdict, class and pattern; no entry widened (a pattern that is
  present is kept and valid, and no rule matches everything by omission); the approval
  window is the configured one, positive and at most 24 hours, or 120 seconds.
\<close>

theorem accepted_policy_is_the_document:
  assumes "parse_policy from_toml txt = Inr rs"
  shows "\<exists>config. from_toml txt = Inr config \<and>
     list_all2 rule_of_config (pc_rules config) (rs_rules rs) \<and>
     (case pc_default config of None \<Rightarrow> rs_default_verdict rs = Allow
      | Some name \<Rightarrow> verdict_parse name = Some (rs_default_verdict rs)) \<and>
     rs_approval_timeout rs = from_millis (unwrap_or (pc_approval_timeout_ms config) 120000) \<and>
     0 < rs_approval_timeout rs \<and> rs_approval_timeout rs \<le> from_secs (24 * 60 * 60)"
proof -
  from assms obtain config rules d where c: "from_toml txt = Inr config"
      "(case pc_default config of None \<Rightarrow> Inr Allow
        | Some name \<Rightarrow> ok_or (verdict_parse name) (unknown_verdict ''default'' name)) = Inr d"
      "parse_config_rules (pc_rules config) = Inr rules"
      "check_timeout (pc_approval_timeout_ms config) = Inr ()"
      "rs = (case pc_approval_timeout_ms config of
               Some ms \<Rightarrow> with_approval_timeout (rule_set_new rules d) (from_millis ms)
             | None \<Rightarrow> rule_set_new rules d)"
    by (cases "from_toml txt") (auto simp: parse_policy_def rbind_Inr_iff Let_def)
  then show ?thesis
    using parse_config_rules_Inr [OF c(3)] check_timeout_Inr [OF c(4)]
    by (auto simp: rule_set_new_def with_approval_timeout_def from_millis_def from_secs_def
        max_approval_timeout_ms_def split: option.splits simp del: verdict_parse.simps)
qed

definition sample_config :: policy_config where
  "sample_config = \<lparr>pc_default = Some ''deny'', pc_approval_timeout_ms = Some 500,
     pc_rules = [\<lparr>cr_action_class = Some ''pointer'', cr_url_pattern = None, cr_verdict = ''allow''\<rparr>]\<rparr>"

theorem accepted_policy_is_the_document_witness:
  "\<exists>rs. parse_policy (\<lambda>_. Inr sample_config) [] = Inr rs \<and> length (rs_rules rs) = 1 \<and>
        rs_default_verdict rs = Deny \<and> rs_approval_timeout rs = 500000000"
proof -
  obtain rs where rs: "parse_policy (\<lambda>_. Inr sample_config) [] = Inr rs"
    by (simp add: parse_policy_def sample_config_def parse_config_rule_def check_timeout_def
        max_approval_timeout_ms_def)
  from accepted_policy_is_the_document [OF rs] rs show ?thesis
    by (auto simp: sample_config_def from_millis_def list_all2_Cons1)
qed

end
