(* ===== verification/Policy_Broker.thy ===== *)
theory Policy_Broker
  imports Core
begin

text \<open>
  The approval broker, \<open>crates/policy/src/broker.rs\<close>, as the state behind its mutex and
  the atomic steps concurrent callers take on it. A waiter's life is
  \<open>op_open\<close>, then any number of polls (\<open>op_observe\<close>, with the flag whether the deadline
  has passed when the receiver had nothing), then \<open>op_reclaim\<close>, the drop of the receiver
  and of the guard \<open>Reclaim\<close>, which also stands for a wait cancelled half-way. The 64-bit
  counter is a natural number: it wraps after \<open>2^64\<close> approvals of one process.
\<close>

datatype approval_outcome = Granted | OutcomeDenied | OutcomeTimedOut

datatype decision = Grant | Refuse

datatype approval_id = ApprovalId (approval_str: string)

text \<open>
  \<open>tokio::sync::oneshot\<close> is a parameter: a channel of type \<^typ>\<open>'ch\<close>, the sender's
  \<open>send\<close> and \<open>is_closed\<close>, what a poll of the receiver finds, and the drop of the
  receiver. \<open>oneshot_laws\<close> is its documentation: a fresh channel is open and empty, a
  value sent to an open channel arrives, a dropped receiver closes the channel.
\<close>

record 'ch oneshot_api =
  oc_new :: 'ch
  oc_send :: "decision \<Rightarrow> 'ch \<Rightarrow> bool \<times> 'ch"
  oc_poll :: "'ch \<Rightarrow> decision option"
  oc_is_closed :: "'ch \<Rightarrow> bool"
  oc_drop_receiver :: "'ch \<Rightarrow> 'ch"

definition oneshot_laws :: "'ch oneshot_api \<Rightarrow> bool" where
  "oneshot_laws oc \<longleftrightarrow>
     oc_poll oc (oc_new oc) = None \<and> \<not> oc_is_closed oc (oc_new oc) \<and>
     (\<forall>ch d. \<not> oc_is_closed oc ch \<and> oc_poll oc ch = None \<longrightarrow>
        (case oc_send oc d ch of (sent, ch') \<Rightarrow>
           sent \<and> oc_poll oc ch' = Some d \<and> \<not> oc_is_closed oc ch')) \<and>
     (\<forall>ch. oc_is_closed oc (oc_drop_receiver oc ch))"

lemma oneshot_lawsD:
  assumes "oneshot_laws oc"
  shows "oc_poll oc (oc_new oc) = None" and "\<not> oc_is_closed oc (oc_new oc)"
    and "oc_is_closed oc (oc_drop_receiver oc ch)"
    and "\<not> oc_is_closed oc ch \<Longrightarrow> oc_poll oc ch = None \<Longrightarrow> fst (oc_send oc d ch)"
    and "\<not> oc_is_closed oc ch \<Longrightarrow> oc_poll oc ch = None \<Longrightarrow> oc_poll oc (snd (oc_send oc d ch)) = Some d"
    and "\<not> oc_is_closed oc ch \<Longrightarrow> oc_poll oc ch = None \<Longrightarrow> \<not> oc_is_closed oc (snd (oc_send oc d ch))"
  using assms unfolding oneshot_laws_def case_prod_beta by blast+

text \<open>A waiter: its id, its channel, and the outcome its \<open>wait\<close> has computed, if any.\<close>

record 'ch waiter =
  wt_id :: approval_id
  wt_channel :: 'ch
  wt_outcome :: "approval_outcome option"

record 'ch broker =
  bk_counter :: nat
  bk_pending :: "approval_id \<rightharpoonup> nat"
  bk_channels :: "nat \<rightharpoonup> 'ch waiter"

definition broker_new :: "'ch broker" where
  "broker_new = \<lparr>bk_counter = 1, bk_pending = Map.empty, bk_channels = Map.empty\<rparr>"

definition mint_id :: "nat \<Rightarrow> approval_id" where
  "mint_id serial = ApprovalId (''apr-'' @ show_nat serial)"

text \<open>\<open>open\<close>: the id and the receiver, named by its serial.\<close>

definition broker_open :: "'ch oneshot_api \<Rightarrow> 'ch broker \<Rightarrow> (approval_id \<times> nat) \<times> 'ch broker" where
  "broker_open oc b =
     (let serial = bk_counter b; i = mint_id serial
      in ((i, serial),
          b\<lparr>bk_counter := serial + 1,
            bk_pending := (bk_pending b)(i \<mapsto> serial),
            bk_channels := (bk_channels b)(serial \<mapsto>
              \<lparr>wt_id = i, wt_channel = oc_new oc, wt_outcome = None\<rparr>)\<rparr>))"

definition broker_decide ::
  "'ch oneshot_api \<Rightarrow> approval_id \<Rightarrow> decision \<Rightarrow> 'ch broker \<Rightarrow> bool \<times> 'ch broker" where
  "broker_decide oc i d b =
     (case bk_pending b i of
        Some h \<Rightarrow>
          (case bk_channels b h of
             Some w \<Rightarrow>
               (let (sent, ch) = oc_send oc d (wt_channel w)
                in (sent, b\<lparr>bk_pending := (bk_pending b)(i := None),
                            bk_channels := (bk_channels b)(h \<mapsto> w\<lparr>wt_channel := ch\<rparr>)\<rparr>))
           | None \<Rightarrow> (False, b\<lparr>bk_pending := (bk_pending b)(i := None)\<rparr>))
      | None \<Rightarrow> (False, b))"

text \<open>
  What one poll of \<open>timeout(receiver)\<close> answers: a value that was sent, a sender that is
  gone, or the deadline, in this order; \<open>None\<close> keeps waiting.
\<close>

definition wait_outcome :: "decision option \<Rightarrow> bool \<Rightarrow> bool \<Rightarrow> approval_outcome option" where
  "wait_outcome received sender_alive timed_out =
     (case received of
        Some Grant \<Rightarrow> Some Granted
      | Some Refuse \<Rightarrow> Some OutcomeDenied
      | None \<Rightarrow> if \<not> sender_alive \<or> timed_out then Some OutcomeTimedOut else None)"

definition sender_alive :: "'ch broker \<Rightarrow> nat \<Rightarrow> bool" where
  "sender_alive b h \<longleftrightarrow>
     (case bk_channels b h of None \<Rightarrow> False | Some w \<Rightarrow> bk_pending b (wt_id w) = Some h)"

definition wait_observe :: "'ch oneshot_api \<Rightarrow> nat \<Rightarrow> bool \<Rightarrow> 'ch broker \<Rightarrow> 'ch broker" where
  "wait_observe oc h timed_out b =
     (case bk_channels b h of
        None \<Rightarrow> b
      | Some w \<Rightarrow>
          (if \<not> oc_is_closed oc (wt_channel w) \<and> wt_outcome w = None
           then b\<lparr>bk_channels := (bk_channels b)(h \<mapsto>
                    w\<lparr>wt_outcome := wait_outcome (oc_poll oc (wt_channel w)) (sender_alive b h) timed_out\<rparr>)\<rparr>
           else b))"

definition wait_reclaim :: "'ch oneshot_api \<Rightarrow> nat \<Rightarrow> 'ch broker \<Rightarrow> 'ch broker" where
  "wait_reclaim oc h b =
     (case bk_channels b h of
        None \<Rightarrow> b
      | Some w \<Rightarrow>
          b\<lparr>bk_pending := (bk_pending b)(wt_id w := None),
            bk_channels := (bk_channels b)(h \<mapsto> w\<lparr>wt_channel := oc_drop_receiver oc (wt_channel w)\<rparr>)\<rparr>)"

text \<open>\<open>pending_count\<close> over the ids handed out so far.\<close>

definition pending_count :: "'ch broker \<Rightarrow> nat" where
  "pending_count b = length (filter (\<lambda>h. bk_pending b (mint_id h) \<noteq> None) [0..<bk_counter b])"

datatype broker_op =
    OpOpen
  | OpDecide approval_id decision
  | OpObserve nat bool
  | OpReclaim nat

fun broker_step :: "'ch oneshot_api \<Rightarrow> broker_op \<Rightarrow> 'ch broker \<Rightarrow> 'ch broker" where
  "broker_step oc OpOpen b = snd (broker_open oc b)"
| "broker_step oc (OpDecide i d) b = snd (broker_decide oc i d b)"
| "broker_step oc (OpObserve h timed_out) b = wait_observe oc h timed_out b"
| "broker_step oc (OpReclaim h) b = wait_reclaim oc h b"

lemmas broker_ops [op_defs] =
  broker_open_def broker_decide_def wait_observe_def wait_reclaim_def Let_def

section \<open>The invariant\<close>

lemma mint_id_inject [simp]: "mint_id m = mint_id n \<longleftrightarrow> m = n"
  by (simp add: mint_id_def)

text \<open>
  Channels are named by the serials handed out; a parked slot is the sender of a channel
  whose waiter is still there and has no answer, and every such channel is parked.
\<close>

abbreviation unanswered :: "'ch oneshot_api \<Rightarrow> 'ch waiter \<Rightarrow> bool" where
  "unanswered oc w \<equiv> \<not> oc_is_closed oc (wt_channel w) \<and> oc_poll oc (wt_channel w) = None"

definition broker_inv :: "'ch oneshot_api \<Rightarrow> 'ch broker \<Rightarrow> bool" where
  "broker_inv oc b \<longleftrightarrow>
     (\<forall>h w. bk_channels b h = Some w \<longrightarrow> h < bk_counter b \<and> wt_id w = mint_id h) \<and>
     (\<forall>i h. bk_pending b i = Some h \<longleftrightarrow>
        (\<exists>w. bk_channels b h = Some w \<and> i = wt_id w \<and> unanswered oc w))"

lemma broker_inv_channel:
  assumes "broker_inv oc b" and "bk_channels b h = Some w"
  shows "h < bk_counter b" and "wt_id w = mint_id h"
  using assms by (auto simp: broker_inv_def)

lemma broker_inv_pending:
  "broker_inv oc b \<Longrightarrow> bk_pending b i = Some h \<longleftrightarrow>
     (\<exists>w. bk_channels b h = Some w \<and> i = wt_id w \<and> unanswered oc w)"
  by (simp add: broker_inv_def)

lemma broker_inv_new: "broker_inv oc broker_new"
  by (simp add: broker_inv_def broker_new_def)

lemma broker_inv_open:
  assumes laws: "oneshot_laws oc" and inv: "broker_inv oc b"
  shows "broker_inv oc (snd (broker_open oc b))"
proof -
  have fresh: "bk_channels b (bk_counter b) = None"
    using broker_inv_channel(1) [OF inv, of "bk_counter b"] by (cases "bk_channels b (bk_counter b)") auto
  have no_id: "bk_pending b (mint_id (bk_counter b)) = None"
    using broker_inv_pending [OF inv] broker_inv_channel(1,2) [OF inv]
    by (metis mint_id_inject nat_less_le not_None_eq)
  show ?thesis
    unfolding broker_inv_def
  proof (intro conjI allI)
    fix h w
    show "bk_channels (snd (broker_open oc b)) h = Some w \<longrightarrow>
        h < bk_counter (snd (broker_open oc b)) \<and> wt_id w = mint_id h"
      using broker_inv_channel [OF inv, of h w] by (auto simp: broker_open_def Let_def less_Suc_eq)
  next
    fix i h
    show "bk_pending (snd (broker_open oc b)) i = Some h \<longleftrightarrow>
        (\<exists>w. bk_channels (snd (broker_open oc b)) h = Some w \<and> i = wt_id w \<and> unanswered oc w)"
      using broker_inv_pending [OF inv, of i h] fresh no_id
        broker_inv_channel(2) [OF inv, of h] oneshot_lawsD(1,2) [OF laws]
      by (auto simp: broker_open_def Let_def)
  qed
qed

text \<open>
  The other operations change one existing waiter: removing its slot keeps the invariant
  when the channel is answered or its waiter is gone.
\<close>

lemma broker_inv_update:
  assumes inv: "broker_inv oc b" and w: "bk_channels b h = Some w" and i: "wt_id w' = wt_id w"
    and slot: "\<And>j. p j = (if j = wt_id w then (if unanswered oc w' then Some h else None)
        else bk_pending b j)"
  shows "broker_inv oc (b\<lparr>bk_pending := p, bk_channels := (bk_channels b)(h \<mapsto> w')\<rparr>)"
proof -
  have other: "wt_id w'' \<noteq> wt_id w" if "bk_channels b h' = Some w''" "h' \<noteq> h" for h' w''
    using broker_inv_channel(2) [OF inv that(1)] broker_inv_channel(2) [OF inv w] that(2) by simp
  have mine: "h' = h" if "bk_pending b (wt_id w) = Some h'" for h'
    using that broker_inv_pending [OF inv] other by metis
  show ?thesis
    unfolding broker_inv_def
  proof (intro conjI allI)
    fix h' w''
    show "bk_channels (b\<lparr>bk_pending := p, bk_channels := (bk_channels b)(h \<mapsto> w')\<rparr>) h' = Some w'' \<longrightarrow>
        h' < bk_counter (b\<lparr>bk_pending := p, bk_channels := (bk_channels b)(h \<mapsto> w')\<rparr>) \<and>
        wt_id w'' = mint_id h'"
      using broker_inv_channel [OF inv, of h'] broker_inv_channel [OF inv w] i by auto
  next
    fix j h'
    show "bk_pending (b\<lparr>bk_pending := p, bk_channels := (bk_channels b)(h \<mapsto> w')\<rparr>) j = Some h' \<longleftrightarrow>
        (\<exists>w''. bk_channels (b\<lparr>bk_pending := p, bk_channels := (bk_channels b)(h \<mapsto> w')\<rparr>) h' = Some w'' \<and>
           j = wt_id w'' \<and> unanswered oc w'')"
      using broker_inv_pending [OF inv, of j h'] other mine slot i
      by (cases "h' = h"; cases "j = wt_id w") (auto simp: w)
  qed
qed

text \<open>What \<open>decide\<close> does in a state the broker can be in.\<close>

lemma broker_decide_cases:
  assumes laws: "oneshot_laws oc" and inv: "broker_inv oc b"
  obtains (unknown) "bk_pending b i = None" "broker_decide oc i d b = (False, b)"
  | (sent) h w ch where "bk_channels b h = Some w" "wt_id w = i" "unanswered oc w"
      "oc_poll oc ch = Some d" "\<not> oc_is_closed oc ch"
      "broker_decide oc i d b =
         (True, b\<lparr>bk_pending := (bk_pending b)(i := None),
                  bk_channels := (bk_channels b)(h \<mapsto> w\<lparr>wt_channel := ch\<rparr>)\<rparr>)"
proof (cases "bk_pending b i")
  case None
  then show ?thesis
    by (intro unknown) (simp_all add: broker_decide_def)
next
  case (Some h)
  with broker_inv_pending [OF inv] obtain w where
    w: "bk_channels b h = Some w" "wt_id w = i" "unanswered oc w"
    by auto
  note send = oneshot_lawsD(4-6) [OF laws, of "wt_channel w" d]
  from Some w send show ?thesis
    by (intro sent [of h w "snd (oc_send oc d (wt_channel w))"])
      (simp_all add: broker_decide_def case_prod_beta)
qed

lemma broker_inv_decide:
  assumes "oneshot_laws oc" and inv: "broker_inv oc b"
  shows "broker_inv oc (snd (broker_decide oc i d b))"
  using assms
proof (cases rule: broker_decide_cases [where i = i and d = d])
  case unknown
  with inv show ?thesis by simp
next
  case (sent h w ch)
  have "broker_inv oc (b\<lparr>bk_pending := (bk_pending b)(i := None),
      bk_channels := (bk_channels b)(h \<mapsto> w\<lparr>wt_channel := ch\<rparr>)\<rparr>)"
    using sent by (intro broker_inv_update [OF inv sent(1)]) auto
  with sent(6) show ?thesis by simp
qed

lemma broker_inv_reclaim:
  assumes laws: "oneshot_laws oc" and inv: "broker_inv oc b"
  shows "broker_inv oc (wait_reclaim oc h b)"
proof (cases "bk_channels b h")
  case None
  with inv show ?thesis by (simp add: wait_reclaim_def)
next
  case (Some w)
  have "broker_inv oc (b\<lparr>bk_pending := (bk_pending b)(wt_id w := None),
      bk_channels := (bk_channels b)(h \<mapsto> w\<lparr>wt_channel := oc_drop_receiver oc (wt_channel w)\<rparr>)\<rparr>)"
    using oneshot_lawsD(3) [OF laws] by (intro broker_inv_update [OF inv Some]) auto
  with Some show ?thesis by (simp add: wait_reclaim_def)
qed

lemma wait_observe_cases:
  obtains (kept) "wait_observe oc h t b = b"
  | (polled) w where "bk_channels b h = Some w" "\<not> oc_is_closed oc (wt_channel w)" "wt_outcome w = None"
      "wait_observe oc h t b = b\<lparr>bk_channels := (bk_channels b)(h \<mapsto>
         w\<lparr>wt_outcome := wait_outcome (oc_poll oc (wt_channel w)) (sender_alive b h) t\<rparr>)\<rparr>"
proof (cases "\<exists>w. bk_channels b h = Some w \<and> \<not> oc_is_closed oc (wt_channel w) \<and> wt_outcome w = None")
  case True
  then show ?thesis
    using polled by (auto simp: wait_observe_def)
next
  case False
  then show ?thesis
    by (intro kept) (auto simp: wait_observe_def split: option.splits)
qed

lemma broker_inv_observe: "broker_inv oc b \<Longrightarrow> broker_inv oc (wait_observe oc h t b)"
proof (cases rule: wait_observe_cases [where oc = oc and h = h and t = t and b = b])
  case (polled w)
  assume inv: "broker_inv oc b"
  let ?w = "w\<lparr>wt_outcome := wait_outcome (oc_poll oc (wt_channel w)) (sender_alive b h) t\<rparr>"
  have "broker_inv oc (b\<lparr>bk_pending := bk_pending b, bk_channels := (bk_channels b)(h \<mapsto> ?w)\<rparr>)"
  proof (intro broker_inv_update [OF inv polled(1)])
    fix j
    show "bk_pending b j = (if j = wt_id w then (if unanswered oc ?w then Some h else None)
        else bk_pending b j)"
      using broker_inv_pending [OF inv] broker_inv_channel(2) [OF inv] polled(1)
      by auto (metis mint_id_inject not_None_eq option.inject)+
  qed simp
  with polled(4) show ?thesis by simp
qed simp

lemma broker_inv_step: "oneshot_laws oc \<Longrightarrow> broker_inv oc b \<Longrightarrow> broker_inv oc (broker_step oc x b)"
  by (cases x) (simp_all add: broker_inv_open broker_inv_decide broker_inv_observe broker_inv_reclaim)

text \<open>
  The interface of the broker for a channel that keeps its documented behaviour, as an
  instance of the guarded state of the prelude; without such a channel nothing is claimed.
\<close>

definition broker_good :: "'ch oneshot_api \<Rightarrow> 'ch broker \<Rightarrow> bool" where
  "broker_good oc b \<longleftrightarrow> (oneshot_laws oc \<longrightarrow> broker_inv oc b)"

interpretation broker: guarded_state broker_new "broker_step oc" "broker_good oc" for oc
  by unfold_locales (simp_all add: broker_good_def broker_inv_new broker_inv_step)

definition broker_run :: "'ch oneshot_api \<Rightarrow> broker_op list \<Rightarrow> 'ch broker" where
  "broker_run oc ops = run_ops (broker_step oc) ops broker_new"

lemma broker_run_inv: "oneshot_laws oc \<Longrightarrow> broker_inv oc (broker_run oc ops)"
  unfolding broker_run_def using broker.run_inv [of oc ops] by (simp add: broker_good_def)

lemma broker_run_snoc: "broker_run oc (ops @ [x]) = broker_step oc x (broker_run oc ops)"
  by (simp add: broker_run_def run_ops_append)

section \<open>Properties\<close>

text \<open>A concrete channel with the documented behaviour, for the witnesses.\<close>

definition cell_oneshot :: "(decision option \<times> bool) oneshot_api" where
  "cell_oneshot = \<lparr>oc_new = (None, False),
     oc_send = (\<lambda>d (v, closed). if closed then (False, (v, closed)) else (True, (Some d, closed))),
     oc_poll = fst, oc_is_closed = snd, oc_drop_receiver = (\<lambda>(v, closed). (v, True))\<rparr>"

lemma cell_oneshot_laws: "oneshot_laws cell_oneshot"
  by (auto simp: oneshot_laws_def cell_oneshot_def)

text \<open>
  C7. Nothing is parked for ever and nothing is lost: after any interleaving of opens,
  decisions, polls and drops, an id is parked exactly when it was handed out to a waiter
  that is still there and has no answer yet. A granted, denied, timed-out or cancelled wait
  leaves no slot behind.
\<close>

theorem parked_exactly_unanswered:
  assumes "oneshot_laws oc"
  shows "bk_pending (broker_run oc ops) i \<noteq> None \<longleftrightarrow>
    (\<exists>h w. bk_channels (broker_run oc ops) h = Some w \<and> i = mint_id h \<and>
           \<not> oc_is_closed oc (wt_channel w) \<and> oc_poll oc (wt_channel w) = None)"
  using broker_inv_pending [OF broker_run_inv [OF assms]] broker_inv_channel(2) [OF broker_run_inv [OF assms]]
  by (metis not_None_eq)

theorem parked_exactly_unanswered_witness:
  "bk_pending (broker_run cell_oneshot [OpOpen, OpOpen, OpReclaim 1]) (mint_id 2) \<noteq> None \<and>
   bk_pending (broker_run cell_oneshot [OpOpen, OpOpen, OpReclaim 1]) (mint_id 1) = None"
proof -
  let ?b = "broker_run cell_oneshot [OpOpen, OpOpen, OpReclaim 1]"
  have b: "bk_channels ?b 1 = Some \<lparr>wt_id = mint_id 1, wt_channel = (None, True), wt_outcome = None\<rparr>"
    "bk_channels ?b 2 = Some \<lparr>wt_id = mint_id 2, wt_channel = (None, False), wt_outcome = None\<rparr>"
    by (simp_all add: broker_run_def broker_new_def broker_ops cell_oneshot_def numeral_2_eq_2)
  note parked = parked_exactly_unanswered [OF cell_oneshot_laws, of "[OpOpen, OpOpen, OpReclaim 1]"]
  show ?thesis
    using parked [of "mint_id 2"] parked [of "mint_id 1"] b by (auto simp: cell_oneshot_def)
qed

text \<open>
  A decision is delivered once, to the request it names: when \<open>decide\<close> answers true,
  the channel of that id holds exactly this decision, no other waiter changed, every later
  decision for the id is refused, and a waiter that has not yet given up observes this
  decision whether or not its deadline has passed.
\<close>

definition outcome_of :: "decision \<Rightarrow> approval_outcome" where
  "outcome_of d = (case d of Grant \<Rightarrow> Granted | Refuse \<Rightarrow> OutcomeDenied)"

theorem decision_delivered_once:
  assumes laws: "oneshot_laws oc" and "broker_decide oc i d (broker_run oc ops) = (True, b')"
  shows "\<exists>h w. i = mint_id h \<and> bk_channels b' h = Some w \<and> oc_poll oc (wt_channel w) = Some d \<and>
     (\<forall>h'. h' \<noteq> h \<longrightarrow> bk_channels b' h' = bk_channels (broker_run oc ops) h') \<and>
     (\<forall>d'. fst (broker_decide oc i d' b') = False) \<and>
     (wt_outcome w = None \<longrightarrow>
        (\<forall>t. map_option wt_outcome (bk_channels (wait_observe oc h t b') h) = Some (Some (outcome_of d))))"
  using laws broker_run_inv [OF laws, of ops]
proof (cases rule: broker_decide_cases [where i = i and d = d])
  case unknown
  with assms show ?thesis by simp
next
  case (sent h w ch)
  have b': "b' = (broker_run oc ops)\<lparr>bk_pending := (bk_pending (broker_run oc ops))(i := None),
      bk_channels := (bk_channels (broker_run oc ops))(h \<mapsto> w\<lparr>wt_channel := ch\<rparr>)\<rparr>"
    using assms(2) sent(6) by simp
  have "i = mint_id h"
    using broker_inv_channel(2) [OF broker_run_inv [OF laws] sent(1)] sent(2) by simp
  then show ?thesis
    using sent unfolding b'
    by (intro exI [of _ h] exI [of _ "w\<lparr>wt_channel := ch\<rparr>"])
      (auto simp: broker_decide_def wait_observe_def wait_outcome_def outcome_of_def split: decision.splits)
qed

theorem decision_delivered_once_witness:
  "\<exists>b'. broker_decide cell_oneshot (mint_id 1) Grant (broker_run cell_oneshot [OpOpen]) = (True, b') \<and>
        fst (broker_decide cell_oneshot (mint_id 1) Refuse b') = False"
proof -
  have "fst (broker_decide cell_oneshot (mint_id 1) Grant (broker_run cell_oneshot [OpOpen]))"
    by (simp add: broker_run_def broker_new_def broker_ops cell_oneshot_def)
  then obtain b' where
    b': "broker_decide cell_oneshot (mint_id 1) Grant (broker_run cell_oneshot [OpOpen]) = (True, b')"
    by (metis (full_types) prod.collapse)
  from decision_delivered_once [OF cell_oneshot_laws this] show ?thesis
    using b' by blast
qed

text \<open>What a run has put into the channels was decided in that run.\<close>

lemma run_decisions:
  assumes laws: "oneshot_laws oc"
  shows "\<forall>h w. bk_channels (broker_run oc ops) h = Some w \<longrightarrow>
     (\<forall>d. \<not> oc_is_closed oc (wt_channel w) \<and> oc_poll oc (wt_channel w) = Some d \<longrightarrow>
        OpDecide (wt_id w) d \<in> set ops) \<and>
     (wt_outcome w = Some Granted \<longrightarrow> OpDecide (wt_id w) Grant \<in> set ops)"
proof (induction ops rule: rev_induct)
  case Nil
  then show ?case by (simp add: broker_run_def broker_new_def)
next
  case (snoc x ops)
  let ?b = "broker_run oc ops"
  note inv = broker_run_inv [OF laws, of ops]
  show ?case
  proof (cases x)
    case OpOpen
    then show ?thesis
      using snoc.IH oneshot_lawsD(1) [OF laws] by (auto simp: broker_run_snoc broker_open_def Let_def)
  next
    case (OpDecide i d)
    from laws inv show ?thesis
    proof (cases rule: broker_decide_cases [where i = i and d = d])
      case unknown
      with snoc.IH OpDecide show ?thesis by (auto simp: broker_run_snoc)
    next
      case (sent h w ch)
      with snoc.IH OpDecide show ?thesis by (auto simp: broker_run_snoc)
    qed
  next
    case (OpObserve h t)
    show ?thesis
    proof (cases rule: wait_observe_cases [where oc = oc and h = h and t = t and b = ?b])
      case kept
      with snoc.IH OpObserve show ?thesis by (auto simp: broker_run_snoc)
    next
      case (polled w)
      with snoc.IH OpObserve show ?thesis
        by (auto simp: broker_run_snoc wait_outcome_def split: option.splits decision.splits if_splits)
    qed
  next
    case (OpReclaim h)
    then show ?thesis
      using snoc.IH oneshot_lawsD(3) [OF laws]
      by (auto simp: broker_run_snoc wait_reclaim_def split: option.splits if_splits)
  qed
qed

text \<open>
  C8. Nobody is let through without a grant: in every run, a wait that answered
  \<open>Granted\<close> was granted by a decision for exactly its id.
\<close>

theorem granted_only_by_decision:
  assumes "oneshot_laws oc" and "bk_channels (broker_run oc ops) h = Some w"
    and "wt_outcome w = Some Granted"
  shows "OpDecide (mint_id h) Grant \<in> set ops"
  using run_decisions [OF assms(1), of ops] assms(2,3) broker_inv_channel(2) [OF broker_run_inv assms(2)]
    assms(1)
  by metis

theorem granted_only_by_decision_witness:
  "\<exists>w. bk_channels (broker_run cell_oneshot [OpOpen, OpDecide (mint_id 1) Grant, OpObserve 1 True]) 1 = Some w \<and>
     wt_outcome w = Some Granted \<and>
     OpDecide (mint_id 1) Grant \<in> set [OpOpen, OpDecide (mint_id 1) Grant, OpObserve 1 True]"
proof -
  let ?ops = "[OpOpen, OpDecide (mint_id 1) Grant, OpObserve 1 True]"
  have "bk_channels (broker_run cell_oneshot ?ops) 1 =
      Some \<lparr>wt_id = mint_id 1, wt_channel = (Some Grant, False), wt_outcome = Some Granted\<rparr>"
    by (simp add: broker_run_def broker_new_def broker_ops cell_oneshot_def wait_outcome_def)
  from granted_only_by_decision [OF cell_oneshot_laws this] this show ?thesis
    by simp
qed

text \<open>
  The window the last clause of C9 leaves open is real: a waiter that saw its deadline pass
  but has not yet dropped its receiver still accepts a decision.
\<close>

lemma accepted_after_timeout:
  "let b = broker_run cell_oneshot [OpOpen, OpObserve 1 True]
   in map_option wt_outcome (bk_channels b 1) = Some (Some OutcomeTimedOut) \<and>
      fst (broker_decide cell_oneshot (mint_id 1) Grant b)"
  by (simp add: broker_run_def broker_new_def broker_ops wait_outcome_def sender_alive_def cell_oneshot_def)

end
