(* ===== verification/Events.thy ===== *)
theory Events
  imports Policy_Rules
begin

text \<open>
  The event backbone, \<open>crates/events/src\<close>: the event vocabulary, the per-session ring, and
  the history that numbers, records and fans out under one lock. The broadcast channel of
  \<open>tokio\<close> is not modelled; what the code hands to its \<open>send\<close>, in the order of the calls,
  is the field \<open>bb_sent\<close>. The recording time is an argument of each publish. The 64-bit
  sequence number is a natural number.
\<close>

datatype event =
    SessionStarted
  | SessionClosed
  | EngineStarted string string
  | EngineRestarted
  | PageOpened page_id
  | PageClosed page_id
  | PageNavigated page_id string
  | PageActivated page_id
  | ActionRequested page_id origin action
  | ActionCompleted page_id origin action
  | ActionFailed page_id origin action action_error
  | ApprovalRequested string page_id approval_brief
  | ApprovalResolved string bool
  | DialogAutoDismissed page_id string string

record envelope =
  env_seq :: nat
  env_recorded_at :: string
  env_session :: session_id
  env_event :: event

section \<open>The ring\<close>

record ring_buffer =
  rb_capacity :: nat
  rb_entries :: "envelope list"

definition ring_new :: "nat \<Rightarrow> ring_buffer" where
  "ring_new capacity = \<lparr>rb_capacity = max capacity 1, rb_entries = []\<rparr>"

definition ring_push :: "envelope \<Rightarrow> ring_buffer \<Rightarrow> ring_buffer" where
  "ring_push v r =
     (let kept = (if length (rb_entries r) = rb_capacity r then tl (rb_entries r) else rb_entries r)
      in r\<lparr>rb_entries := kept @ [v]\<rparr>)"

definition ring_history :: "ring_buffer \<Rightarrow> envelope list" where
  "ring_history r = rb_entries r"

definition ring_history_after :: "nat option \<Rightarrow> ring_buffer \<Rightarrow> envelope list" where
  "ring_history_after after r =
     (case after of
        None \<Rightarrow> ring_history r
      | Some w \<Rightarrow> filter (\<lambda>v. w < env_seq v) (rb_entries r))"

definition ring_ok :: "nat \<Rightarrow> ring_buffer \<Rightarrow> bool" where
  "ring_ok capacity r \<longleftrightarrow>
     rb_capacity r = max capacity 1 \<and> length (rb_entries r) \<le> rb_capacity r"

lemma ring_push_keeps: "ring_ok capacity r \<Longrightarrow>
    rb_entries (ring_push v r) = keep_last (max capacity 1) (rb_entries r @ [v])"
  by (cases "rb_entries r") (auto simp: ring_push_def ring_ok_def keep_last_def Let_def)

lemma ring_ok_push: "ring_ok capacity r \<Longrightarrow> ring_ok capacity (ring_push v r)"
  using ring_push_keeps [of capacity r v]
  by (simp add: ring_ok_def ring_push_def Let_def keep_last_length)

interpretation ring: bounded_log "ring_new capacity" ring_push ring_history
    "max capacity 1" "ring_ok capacity" for capacity
  by unfold_locales
    (simp_all add: ring_ok_push ring_history_def ring_push_keeps, simp_all add: ring_ok_def ring_new_def)

section \<open>The backbone\<close>

record backbone =
  bb_sent :: "envelope list"
  bb_next_seq :: nat
  bb_ring_capacity :: nat
  bb_rings :: "session_id \<rightharpoonup> ring_buffer"

definition default_ring_capacity :: nat where
  "default_ring_capacity = 1000"

definition backbone_with_ring_capacity :: "nat \<Rightarrow> backbone" where
  "backbone_with_ring_capacity capacity =
     \<lparr>bb_sent = [], bb_next_seq = 0, bb_ring_capacity = max capacity 1, bb_rings = Map.empty\<rparr>"

definition backbone_new :: backbone where
  "backbone_new = backbone_with_ring_capacity default_ring_capacity"

definition history_record :: "session_id \<Rightarrow> event \<Rightarrow> string \<Rightarrow> backbone \<Rightarrow> envelope \<times> backbone" where
  "history_record s e now b =
     (let v = \<lparr>env_seq = bb_next_seq b, env_recorded_at = now, env_session = s, env_event = e\<rparr>;
          r = unwrap_or (bb_rings b s) (ring_new (bb_ring_capacity b))
      in (v, b\<lparr>bb_next_seq := bb_next_seq b + 1, bb_rings := (bb_rings b)(s \<mapsto> ring_push v r)\<rparr>))"

text \<open>\<open>EventBus::publish\<close> hands the envelope to the channel and ignores a send error.\<close>

definition bus_publish :: "envelope \<Rightarrow> backbone \<Rightarrow> backbone" where
  "bus_publish v b = b\<lparr>bb_sent := bb_sent b @ [v]\<rparr>"

definition publish :: "session_id \<Rightarrow> event \<Rightarrow> string \<Rightarrow> backbone \<Rightarrow> backbone" where
  "publish s e now b = (case history_record s e now b of (v, b') \<Rightarrow> bus_publish v b')"

definition replay :: "session_id \<Rightarrow> backbone \<Rightarrow> envelope list" where
  "replay s b = (case bb_rings b s of None \<Rightarrow> [] | Some r \<Rightarrow> ring_history r)"

definition replay_after :: "session_id \<Rightarrow> nat option \<Rightarrow> backbone \<Rightarrow> envelope list" where
  "replay_after s after b = (case bb_rings b s of None \<Rightarrow> [] | Some r \<Rightarrow> ring_history_after after r)"

definition forget :: "session_id \<Rightarrow> backbone \<Rightarrow> backbone" where
  "forget s b = b\<lparr>bb_rings := (bb_rings b)(s := None)\<rparr>"

datatype backbone_op =
    Publish session_id event string
  | Forget session_id

fun backbone_step :: "backbone_op \<Rightarrow> backbone \<Rightarrow> backbone" where
  "backbone_step (Publish s e now) b = publish s e now b"
| "backbone_step (Forget s) b = forget s b"

definition backbone_run :: "nat \<Rightarrow> backbone_op list \<Rightarrow> backbone" where
  "backbone_run capacity ops = run_ops backbone_step ops (backbone_with_ring_capacity capacity)"

lemma backbone_run_snoc: "backbone_run capacity (ops @ [x]) = backbone_step x (backbone_run capacity ops)"
  by (simp add: backbone_run_def run_ops_append)

lemmas publish_defs = publish_def history_record_def bus_publish_def Let_def

section \<open>The invariant\<close>

text \<open>
  Numbers are dense and in the order of the sends; each ring holds envelopes of its session
  only, all of them sent, in strictly increasing order, within its capacity.
\<close>

definition ring_entries_ok :: "nat \<Rightarrow> envelope list \<Rightarrow> session_id \<Rightarrow> ring_buffer \<Rightarrow> bool" where
  "ring_entries_ok capacity sent s r \<longleftrightarrow>
     ring_ok capacity r \<and> (\<forall>v \<in> set (rb_entries r). env_session v = s \<and> v \<in> set sent) \<and>
     sorted_wrt (<) (map env_seq (rb_entries r))"

definition backbone_inv :: "nat \<Rightarrow> backbone \<Rightarrow> bool" where
  "backbone_inv capacity b \<longleftrightarrow>
     bb_ring_capacity b = max capacity 1 \<and>
     map env_seq (bb_sent b) = [0..<bb_next_seq b] \<and>
     (\<forall>s r. bb_rings b s = Some r \<longrightarrow> ring_entries_ok capacity (bb_sent b) s r)"

lemma ring_new_max: "ring_new (max capacity 1) = ring_new capacity"
  by (simp add: ring_new_def max.assoc)

lemma ring_entries_ok_new: "ring_entries_ok capacity sent s (ring_new capacity)"
  by (simp add: ring_entries_ok_def ring_ok_def ring_new_def)

lemma ring_entries_ok_mono:
  "ring_entries_ok capacity sent s r \<Longrightarrow> ring_entries_ok capacity (sent @ later) s r"
  by (auto simp: ring_entries_ok_def)

lemma sent_seq_less:
  assumes "backbone_inv capacity b" and "v \<in> set (bb_sent b)"
  shows "env_seq v < bb_next_seq b"
proof -
  have "set (map env_seq (bb_sent b)) = {0..<bb_next_seq b}"
    using assms(1) by (simp add: backbone_inv_def)
  with assms(2) show ?thesis
    by auto
qed

lemma sorted_wrt_keep_last: "sorted_wrt P xs \<Longrightarrow> sorted_wrt P (keep_last n xs)"
  by (simp add: keep_last_def sorted_wrt_drop)

lemma map_keep_last: "map f (keep_last n xs) = keep_last n (map f xs)"
  by (simp add: keep_last_def drop_map)

lemma ring_entries_ok_push:
  assumes ok: "ring_entries_ok capacity sent s r" and "env_session v = s"
    and new: "\<forall>w \<in> set sent. env_seq w < env_seq v"
  shows "ring_entries_ok capacity (sent @ [v]) s (ring_push v r)"
proof -
  have r: "ring_ok capacity r" and sorted: "sorted_wrt (<) (map env_seq (rb_entries r))"
    and mine: "\<And>w. w \<in> set (rb_entries r) \<Longrightarrow> env_session w = s \<and> w \<in> set sent"
    using ok by (auto simp: ring_entries_ok_def)
  have "sorted_wrt (<) (map env_seq (rb_entries r @ [v]))"
    using sorted new mine by (auto simp: sorted_wrt_append)
  then have "sorted_wrt (<) (map env_seq (keep_last (max capacity 1) (rb_entries r @ [v])))"
    unfolding map_keep_last by (rule sorted_wrt_keep_last)
  moreover have "env_session w = s \<and> w \<in> set (sent @ [v])"
    if "w \<in> set (keep_last (max capacity 1) (rb_entries r @ [v]))" for w
    using that keep_last_set [of "max capacity 1" "rb_entries r @ [v]"] mine assms(2) by auto
  ultimately show ?thesis
    unfolding ring_entries_ok_def ring_push_keeps [OF r] using ring_ok_push [OF r] by blast
qed

lemma backbone_inv_start: "backbone_inv capacity (backbone_with_ring_capacity capacity)"
  by (simp add: backbone_inv_def backbone_with_ring_capacity_def)

lemma backbone_inv_publish:
  assumes inv: "backbone_inv capacity b"
  shows "backbone_inv capacity (publish s e now b)"
proof -
  define v where "v = \<lparr>env_seq = bb_next_seq b, env_recorded_at = now, env_session = s, env_event = e\<rparr>"
  define r where "r = unwrap_or (bb_rings b s) (ring_new (bb_ring_capacity b))"
  have p: "publish s e now b = b\<lparr>bb_sent := bb_sent b @ [v], bb_next_seq := bb_next_seq b + 1,
      bb_rings := (bb_rings b)(s \<mapsto> ring_push v r)\<rparr>"
    by (simp add: publish_defs v_def r_def)
  have ok: "ring_entries_ok capacity (bb_sent b) s r"
    using inv ring_entries_ok_new ring_new_max
    by (cases "bb_rings b s") (auto simp: r_def backbone_inv_def)
  have "ring_entries_ok capacity (bb_sent b @ [v]) s (ring_push v r)"
    using sent_seq_less [OF inv] by (intro ring_entries_ok_push [OF ok]) (auto simp: v_def)
  moreover have "map env_seq (bb_sent b @ [v]) = [0..<bb_next_seq b + 1]"
    using inv by (simp add: backbone_inv_def v_def)
  moreover have "ring_entries_ok capacity (bb_sent b @ [v]) s' r'" if "bb_rings b s' = Some r'" for s' r'
    using inv that by (auto simp: backbone_inv_def intro: ring_entries_ok_mono)
  ultimately show ?thesis
    using inv unfolding p backbone_inv_def by simp
qed

lemma backbone_inv_forget: "backbone_inv capacity b \<Longrightarrow> backbone_inv capacity (forget s b)"
  by (simp add: backbone_inv_def forget_def)

lemma backbone_inv_step: "backbone_inv capacity b \<Longrightarrow> backbone_inv capacity (backbone_step x b)"
  by (cases x) (simp_all add: backbone_inv_publish backbone_inv_forget)

interpretation backbone: guarded_state "backbone_with_ring_capacity capacity" backbone_step
    "backbone_inv capacity" for capacity
  by unfold_locales (simp_all add: backbone_inv_start backbone_inv_step)

lemma backbone_run_inv: "backbone_inv capacity (backbone_run capacity ops)"
  unfolding backbone_run_def by (rule backbone.run_inv)

section \<open>Properties\<close>

text \<open>
  The abstract backbone: one unbounded log per session, emptied when the session is
  forgotten, and the next number.
\<close>

type_synonym abstract_history = "(session_id \<Rightarrow> envelope list) \<times> nat"

fun abstract_step :: "backbone_op \<Rightarrow> abstract_history \<Rightarrow> abstract_history" where
  "abstract_step (Publish s e now) (logs, n) =
     (logs(s := logs s @ [\<lparr>env_seq = n, env_recorded_at = now, env_session = s, env_event = e\<rparr>]), n + 1)"
| "abstract_step (Forget s) (logs, n) = (logs(s := []), n)"

definition abstract_run :: "backbone_op list \<Rightarrow> abstract_history" where
  "abstract_run ops = run_ops abstract_step ops (\<lambda>_. [], 0)"

lemma replay_publish:
  assumes inv: "backbone_inv capacity b"
  shows "replay s' (publish s e now b) =
    (if s' = s
     then keep_last (max capacity 1) (replay s b @
        [\<lparr>env_seq = bb_next_seq b, env_recorded_at = now, env_session = s, env_event = e\<rparr>])
     else replay s' b)"
proof -
  let ?v = "\<lparr>env_seq = bb_next_seq b, env_recorded_at = now, env_session = s, env_event = e\<rparr>"
  have known: "ring_ok capacity r" if "bb_rings b s = Some r" for r
    using inv that by (auto simp: backbone_inv_def ring_entries_ok_def)
  show ?thesis
  proof (cases "bb_rings b s")
    case None
    then show ?thesis
      using inv ring.contents_push [OF ring.good_fresh, of ?v capacity] ring_new_max [of capacity]
      by (simp add: replay_def publish_defs backbone_inv_def ring.contents_fresh)
  next
    case (Some r)
    then show ?thesis
      using ring.contents_push [OF known, of r ?v]
      by (simp add: replay_def publish_defs)
  qed
qed

lemma next_seq_publish: "bb_next_seq (publish s e now b) = Suc (bb_next_seq b)"
  by (simp add: publish_defs)

text \<open>
  C9. The rings implement the abstract history: whatever the interleaving of publishes and
  forgets, replaying a session answers the newest envelopes, up to the ring capacity, of
  everything published for it since it was last forgotten, oldest first.
\<close>

theorem replay_refines_history:
  "replay s (backbone_run capacity ops) = keep_last (max capacity 1) (fst (abstract_run ops) s) \<and>
   bb_next_seq (backbone_run capacity ops) = snd (abstract_run ops)"
proof (induction ops arbitrary: s rule: rev_induct)
  case Nil
  show ?case
    by (simp add: backbone_run_def abstract_run_def backbone_with_ring_capacity_def replay_def keep_last_def)
next
  case (snoc x ops)
  obtain logs n where before: "abstract_run ops = (logs, n)"
    by (cases "abstract_run ops")
  then have a: "abstract_run (ops @ [x]) = abstract_step x (logs, n)"
    by (simp add: abstract_run_def run_ops_append)
  show ?case
  proof (cases x)
    case (Publish s' e now)
    then show ?thesis
      using snoc.IH [of s] a before next_seq_publish [of s' e now "backbone_run capacity ops"]
        replay_publish [OF backbone_run_inv [of capacity ops], of s s' e now]
      by (cases "s = s'") (simp_all add: backbone_run_snoc keep_last_push)
  next
    case (Forget s')
    then show ?thesis
      using snoc.IH [of s] a before by (auto simp: backbone_run_snoc forget_def replay_def keep_last_def)
  qed
qed

lemma replay_facts:
  assumes inv: "backbone_inv capacity b"
  shows "sorted_wrt (<) (map env_seq (replay s b))" and "length (replay s b) \<le> max capacity 1"
    and "v \<in> set (replay s b) \<Longrightarrow> v \<in> set (bb_sent b) \<and> env_session v = s"
proof -
  have "ring_entries_ok capacity (bb_sent b) s r" if "bb_rings b s = Some r" for r
    using inv that by (simp add: backbone_inv_def)
  then show "sorted_wrt (<) (map env_seq (replay s b))" "length (replay s b) \<le> max capacity 1"
    "v \<in> set (replay s b) \<Longrightarrow> v \<in> set (bb_sent b) \<and> env_session v = s"
    by (cases "bb_rings b s"; auto simp: replay_def ring_history_def ring_entries_ok_def ring_ok_def)+
qed

text \<open>
  Order on the bus and in the rings: the envelopes handed to live subscribers are
  numbered 0, 1, 2, \<dots> in the order they are sent, and every replay is a strictly
  increasing selection of them that belongs to the session asked for.
\<close>

theorem bus_and_rings_ordered:
  "map env_seq (bb_sent (backbone_run capacity ops)) = [0..<length (bb_sent (backbone_run capacity ops))] \<and>
   sorted_wrt (<) (map env_seq (replay s (backbone_run capacity ops))) \<and>
   length (replay s (backbone_run capacity ops)) \<le> max capacity 1 \<and>
   set (replay s (backbone_run capacity ops)) \<subseteq>
     {v \<in> set (bb_sent (backbone_run capacity ops)). env_session v = s}"
proof -
  let ?b = "backbone_run capacity ops"
  have inv: "backbone_inv capacity ?b"
    by (rule backbone_run_inv)
  then have "map env_seq (bb_sent ?b) = [0..<bb_next_seq ?b]"
    by (simp add: backbone_inv_def)
  moreover from this have "length (bb_sent ?b) = bb_next_seq ?b"
    by (metis diff_zero length_map length_upt)
  ultimately show ?thesis
    using replay_facts [OF inv, where s = s] by (simp add: subset_iff)
qed

text \<open>
  A resync loses and repeats nothing: what \<open>replay_after\<close> answers for a watermark is
  the tail of the full replay behind it, so the entries at or below the watermark followed
  by the tail are exactly the replay.
\<close>

theorem replay_after_is_tail:
  "replay s (backbone_run capacity ops) =
     takeWhile (\<lambda>v. env_seq v \<le> w) (replay s (backbone_run capacity ops)) @
     replay_after s (Some w) (backbone_run capacity ops) \<and>
   list_all (\<lambda>v. w < env_seq v) (replay_after s (Some w) (backbone_run capacity ops)) \<and>
   replay_after s None (backbone_run capacity ops) = replay s (backbone_run capacity ops)"
proof -
  have high: "filter (\<lambda>v. w < env_seq v) vs = vs" if "\<forall>x \<in> set vs. n < env_seq x" "w < n" for vs n
    using that by (fastforce simp: filter_id_conv)
  have tail: "sorted_wrt (<) (map env_seq vs) \<Longrightarrow>
      vs = takeWhile (\<lambda>v. env_seq v \<le> w) vs @ filter (\<lambda>v. w < env_seq v) vs" for vs
    by (induction vs) (auto simp: high)
  have "sorted_wrt (<) (map env_seq (replay s (backbone_run capacity ops)))"
    by (rule replay_facts [OF backbone_run_inv])
  then show ?thesis
    using tail [of "replay s (backbone_run capacity ops)"]
    by (cases "bb_rings (backbone_run capacity ops) s")
      (auto simp: replay_after_def ring_history_after_def replay_def ring_history_def list_all_iff)
qed

end
