(* ===== verification/Engine.thy ===== *)
theory Engine
  imports Core
begin

text \<open>
  The vocabulary of the engine boundary, \<open>crates/engine/src\<close>: errors with their messages
  and hints, backends, launch and context configuration, input events and what a page
  reports on its own. The operations behind the traits \<open>Engine\<close>, \<open>ContextHandle\<close> and
  \<open>PageHandle\<close> are parameters of the theories that call them.
\<close>

section \<open>Errors\<close>

datatype engine_error =
    EngNavigationFailed string transport_cause string
  | EngLaunchFailed string
  | EngTerminated
  | EngTimeout string duration
  | EngUnsupported string string
  | EngInternal string
  | EngCapacity string
  | EngDownloadFailed string
  | EngReferenceExpired string

fun show_engine_error :: "engine_error \<Rightarrow> string" where
  "show_engine_error (EngNavigationFailed url cause detail) =
     ''navigation to '' @ quoted url @ '' failed: '' @ detail"
| "show_engine_error (EngLaunchFailed detail) = ''engine launch failed: '' @ detail"
| "show_engine_error EngTerminated = ''engine terminated''"
| "show_engine_error (EngTimeout operation elapsed) =
     ''operation '' @ quoted operation @ '' timed out after '' @ show_duration elapsed"
| "show_engine_error (EngUnsupported operation reason) =
     ''operation '' @ quoted operation @ '' is unsupported: '' @ reason"
| "show_engine_error (EngInternal detail) = ''internal engine error: '' @ detail"
| "show_engine_error (EngCapacity detail) = ''capacity exceeded: '' @ detail"
| "show_engine_error (EngDownloadFailed detail) = ''engine download failed: '' @ detail"
| "show_engine_error (EngReferenceExpired r) =
     ''reference '' @ quoted r @ '' no longer resolves to a live element''"

fun engine_error_hint :: "engine_error \<Rightarrow> string" where
  "engine_error_hint (EngNavigationFailed url cause detail) =
     ''re-check that the URL is spelled correctly and reachable from this machine, then retry''"
| "engine_error_hint (EngDownloadFailed detail) =
     ''set --engine-executable to an existing browser binary, or --cache-dir to a writable directory and retry''"
| "engine_error_hint (EngLaunchFailed detail) =
     ''verify the browser binary runs on its own; pass a different one via --engine-executable if needed''"
| "engine_error_hint (EngTimeout operation elapsed) =
     ''the target page was slow; retry, or check the URL in a normal browser''"
| "engine_error_hint (EngCapacity detail) =
     ''close a page or context before opening more; the caps protect the shared engine process''"
| "engine_error_hint _ =
     ''inspect the error above; most engine failures are transient and a retry is safe''"

section \<open>Backends and configuration\<close>

datatype engine_backend = ChromiumHeadlessShell | Chromium

fun show_backend :: "engine_backend \<Rightarrow> string" where
  "show_backend ChromiumHeadlessShell = ''chrome-headless-shell''"
| "show_backend Chromium = ''chrome''"

record engine_capabilities =
  cap_headless :: bool
  cap_headed :: bool
  cap_screencast :: bool
  cap_per_context_isolation :: bool

record engine_descriptor =
  ed_backend :: engine_backend
  ed_version :: string
  ed_capabilities :: engine_capabilities

record health_report =
  hr_healthy :: bool
  hr_backend_version :: "string option"
  hr_detail :: "string option"

datatype launch_mode = Headless | Headed

record context_config =
  cc_max_pages :: nat
  cc_navigation_timeout :: duration
  cc_screenshot_min_interval :: duration

definition default_context_config :: context_config where
  "default_context_config =
     \<lparr>cc_max_pages = 8, cc_navigation_timeout = from_secs 30, cc_screenshot_min_interval = from_millis 500\<rparr>"

record foreign_page =
  fp_id :: page_id
  fp_url :: string

section \<open>Input and observations\<close>

datatype mouse_button = LeftButton | MiddleButton | RightButton

datatype input_event =
    MouseMove f64 f64
  | MousePressed f64 f64 mouse_button
  | MouseReleased f64 f64 mouse_button
  | MouseWheel f64 f64 f64 f64
  | KeyPressed string
  | KeyReleased string
  | InsertText string

datatype image_format = Png | Jpeg

record screenshot =
  ss_format :: image_format
  ss_data :: string

datatype dialog_kind = AlertDialog | ConfirmDialog | PromptDialog | BeforeunloadDialog

fun dialog_name :: "dialog_kind \<Rightarrow> string" where
  "dialog_name AlertDialog = ''alert''"
| "dialog_name ConfirmDialog = ''confirm''"
| "dialog_name PromptDialog = ''prompt''"
| "dialog_name BeforeunloadDialog = ''beforeunload''"

datatype console_level = LogLevel | DebugLevel | InfoLevel | WarningLevel | ErrorLevel

fun level_name :: "console_level \<Rightarrow> string" where
  "level_name LogLevel = ''log''"
| "level_name DebugLevel = ''debug''"
| "level_name InfoLevel = ''info''"
| "level_name WarningLevel = ''warning''"
| "level_name ErrorLevel = ''error''"

record console_entry =
  ce_level :: console_level
  ce_text :: string

record request_entry =
  rq_method :: string
  rq_url :: string
  rq_status :: "nat option"
  rq_resource_type :: "string option"
  rq_error :: "string option"

definition show_request_entry :: "request_entry \<Rightarrow> string" where
  "show_request_entry r =
     rq_method r @ '' '' @ rq_url r @ '' '' @
     (case (rq_status r, rq_error r) of
        (Some status, _) \<Rightarrow> ''-> '' @ show_nat status
      | (None, Some err) \<Rightarrow> ''-> failed ('' @ err @ '')''
      | (None, None) \<Rightarrow> ''-> ?'') @
     (case rq_resource_type r of None \<Rightarrow> [] | Some ty \<Rightarrow> '' ['' @ ty @ '']'')"

datatype page_observation =
    DialogOpened dialog_kind string
  | ConsoleEmitted console_level string
  | UncaughtException string
  | RequestObserved request_entry

end
