(* ===== verification/Download_Manifest.thy ===== *)
theory Download_Manifest
  imports Engine
begin

text \<open>
  Where the engine binary comes from: \<open>crates/engine/src/download/manifest.rs\<close> and the
  products and cache roots of \<open>download/mod.rs\<close>. The environment, the host platform and
  the manifest document are arguments.
\<close>

definition default_manifest_url :: string where
  "default_manifest_url =
     ''https://googlechromelabs.github.io/chrome-for-testing/last-known-good-versions-with-downloads.json''"

definition artifact_host :: string where
  "artifact_host = ''storage.googleapis.com''"

definition non_blank :: "string option \<Rightarrow> string option" where
  "non_blank v = (case v of None \<Rightarrow> None | Some s \<Rightarrow> if trim s = [] then None else Some (trim s))"

definition resolve_manifest_url :: "string option \<Rightarrow> string" where
  "resolve_manifest_url override = unwrap_or (non_blank override) default_manifest_url"

definition resolve_cache_root :: "string option \<Rightarrow> string option" where
  "resolve_cache_root override = non_blank override"

datatype product = ChromeHeadlessShell | Chrome

fun product_name :: "product \<Rightarrow> string" where
  "product_name ChromeHeadlessShell = ''chrome-headless-shell''"
| "product_name Chrome = ''chrome''"

record engine_artifact =
  ea_version :: string
  ea_url :: string

definition unsupported_platform :: "string \<Rightarrow> engine_error" where
  "unsupported_platform platform =
     EngDownloadFailed (''no Chrome for Testing build for platform '' @ quoted platform)"

definition platform_for_host :: "string \<Rightarrow> string \<Rightarrow> engine_error + string" where
  "platform_for_host os arch =
     (if os = ''linux'' \<and> arch = ''x86_64'' then Inr ''linux64''
      else if os = ''linux'' \<and> arch = ''aarch64'' then Inl (unsupported_platform ''linux/aarch64'')
      else if os = ''macos'' \<and> arch = ''x86_64'' then Inr ''mac-x64''
      else if os = ''macos'' \<and> arch = ''aarch64'' then Inr ''mac-arm64''
      else if os = ''windows'' \<and> arch = ''x86_64'' then Inr ''win64''
      else if os = ''windows'' \<and> arch = ''aarch64'' then Inr ''win64''
      else Inl (unsupported_platform (os @ ''/'' @ arch)))"

definition malformed :: "string \<Rightarrow> engine_error" where
  "malformed detail = EngDownloadFailed (''malformed engine manifest: '' @ detail)"

definition ends_authority :: "char \<Rightarrow> bool" where
  "ends_authority c \<longleftrightarrow> c = CHR ''/'' \<or> c = CHR ''?'' \<or> c = CHR ''#''"

definition https_host :: "string \<Rightarrow> string option" where
  "https_host url =
     Option.bind (strip_prefix ''https://'' url) (\<lambda>rest.
       (let authority = hd (split_on ends_authority rest);
            host = (case rsplit_once (CHR '':'') authority of
                      Some (host, port) \<Rightarrow> host
                    | None \<Rightarrow> authority)
        in if host = [] then None else Some host))"

definition download_url :: "string \<Rightarrow> json \<Rightarrow> string option" where
  "download_url platform entry =
     Option.bind (Option.bind (json_get entry ''platform'') as_str) (\<lambda>entry_platform.
     Option.bind (Option.bind (json_get entry ''url'') as_str) (\<lambda>entry_url.
       if entry_platform = platform then Some entry_url else None))"

fun first_some :: "('a \<Rightarrow> 'b option) \<Rightarrow> 'a list \<Rightarrow> 'b option" where
  "first_some f [] = None"
| "first_some f (x # xs) = (case f x of Some y \<Rightarrow> Some y | None \<Rightarrow> first_some f xs)"

definition parse_stable_artifact :: "json \<Rightarrow> string \<Rightarrow> string \<Rightarrow> engine_error + engine_artifact" where
  "parse_stable_artifact manifest product platform =
     rbind (ok_or (Option.bind (json_get manifest ''channels'') (\<lambda>c. json_get c ''Stable''))
              (malformed ''manifest has no Stable channel'')) (\<lambda>stable.
     rbind (ok_or (Option.bind (json_get stable ''version'') as_str)
              (malformed ''manifest has no Stable version'')) (\<lambda>version.
     rbind (ok_or (Option.bind (Option.bind (json_get stable ''downloads'') (\<lambda>d. json_get d product)) as_array)
              (malformed (''manifest has no downloads for '' @ quoted product))) (\<lambda>downloads.
     rbind (ok_or (first_some (download_url platform) downloads)
              (malformed (''manifest has no '' @ quoted product @ '' download for '' @ quoted platform))) (\<lambda>url.
     rbind (ok_or (https_host url)
              (malformed (''manifest artifact URL is not https: '' @ quoted url))) (\<lambda>host.
       if host \<noteq> artifact_host
       then Inl (malformed (''manifest artifact URL must live on '' @ quoted artifact_host @ '', not '' @ quoted host))
       else Inr \<lparr>ea_version = version, ea_url = url\<rparr>)))))"

section \<open>The host pin\<close>

lemma first_some_Some: "first_some f xs = Some y \<Longrightarrow> \<exists>x \<in> set xs. f x = Some y"
  by (induction xs) (auto split: option.splits)

lemma hd_split_on: "hd (split_on p s) = takeWhile (\<lambda>c. \<not> p c) s"
  by (induction s) (auto split: list.splits simp: split_on_not_Nil)

lemma accepted_artifact:
  assumes "parse_stable_artifact manifest product platform = Inr a"
  shows "https_host (ea_url a) = Some artifact_host"
  using assms unfolding parse_stable_artifact_def by (auto simp: rbind_Inr_iff split: if_splits)

text \<open>The authority of a URL text, and the host a URL parser reads in it: what follows the userinfo.\<close>

definition authority_of :: "string \<Rightarrow> string" where
  "authority_of url = takeWhile (\<lambda>c. \<not> ends_authority c) (drop (length ''https://'') url)"

lemma https_host_Some:
  assumes "https_host url = Some h"
  shows "prefix ''https://'' url" and "h \<noteq> []"
    and "authority_of url = h \<or> (\<exists>port. authority_of url = h @ CHR '':'' # port)"
proof -
  obtain rest where url: "url = ''https://'' @ rest"
    using assms by (auto simp: https_host_def strip_prefix_Some_iff bind_eq_Some_conv)
  then show "prefix ''https://'' url"
    by simp
  have auth: "authority_of url = hd (split_on ends_authority rest)"
    by (simp add: authority_of_def url hd_split_on)
  have "strip_prefix ''https://'' url = Some rest"
    by (simp add: strip_prefix_Some_iff url)
  then have h: "h = (case rsplit_once (CHR '':'') (authority_of url) of Some (host, port) \<Rightarrow> host | None \<Rightarrow> authority_of url)
      \<and> h \<noteq> []"
    using assms unfolding https_host_def auth by (auto simp: Let_def split: if_splits)
  then show "h \<noteq> []"
    by (rule conjunct2)
  show "authority_of url = h \<or> (\<exists>port. authority_of url = h @ CHR '':'' # port)"
    using h rsplit_once_Some [of "CHR '':''" "authority_of url"]
    by (auto split: option.splits prod.splits)
qed

text \<open>
  An accepted artifact is fetched over TLS from the pinned host: its URL starts with
  \<open>https://\<close>, and whenever its authority carries no userinfo it is the storage host,
  with at most a port behind it.
\<close>

theorem artifact_host_pinned:
  assumes "parse_stable_artifact manifest product platform = Inr a"
    and "CHR ''@'' \<notin> set (authority_of (ea_url a))"
  shows "prefix ''https://'' (ea_url a) \<and>
     (\<exists>port. CHR ''@'' \<notin> set port \<and>
        (authority_of (ea_url a) = artifact_host \<or> authority_of (ea_url a) = artifact_host @ CHR '':'' # port))"
proof -
  note host = https_host_Some [OF accepted_artifact [OF assms(1)]]
  show ?thesis
    using host(1,3) assms(2) by (metis UnCI list.set_intros(2) set_append)
qed

definition sample_manifest :: "string \<Rightarrow> json" where
  "sample_manifest url =
     JObj [(''channels'', JObj [(''Stable'', JObj
       [(''version'', JStr ''141.0.7390.78''),
        (''downloads'', JObj [(''chrome'', JArr
           [JObj [(''platform'', JStr ''linux64''), (''url'', JStr url)]])])])])]"

theorem artifact_host_pinned_witness:
  "prefix ''https://'' ''https://storage.googleapis.com/chrome.zip''"
proof -
  have "parse_stable_artifact (sample_manifest ''https://storage.googleapis.com/chrome.zip'') ''chrome'' ''linux64'' =
      Inr \<lparr>ea_version = ''141.0.7390.78'', ea_url = ''https://storage.googleapis.com/chrome.zip''\<rparr>"
    by code_simp
  from artifact_host_pinned [OF this] show ?thesis
    by (simp add: authority_of_def ends_authority_def)
qed

text \<open>
  The hypothesis about userinfo is needed, because the pin reads the host before the
  last colon: an authority whose userinfo is the storage host with a password is accepted,
  and the host such a URL names is the one behind the \<open>@\<close>.
\<close>

theorem userinfo_passes_the_pin:
  "parse_stable_artifact (sample_manifest ''https://storage.googleapis.com:x@evil.example/chrome.zip'')
     ''chrome'' ''linux64'' =
   Inr \<lparr>ea_version = ''141.0.7390.78'', ea_url = ''https://storage.googleapis.com:x@evil.example/chrome.zip''\<rparr> \<and>
   rsplit_once (CHR ''@'') (authority_of ''https://storage.googleapis.com:x@evil.example/chrome.zip'') =
     Some (''storage.googleapis.com:x'', ''evil.example'')"
  by code_simp

end
