(* ===== verification/Supervisor.thy ===== *)
theory Supervisor
  imports Engine
begin

text \<open>
  Engine supervision: the capped backoff (\<open>crates/engine/src/backoff.rs\<close>), the restart
  policy with its window breaker (\<open>supervisor/policy.rs\<close>) and the supervisor
  (\<open>supervisor/mod.rs\<close>): the \<open>Phase\<close> behind its lock, the replacement ticket held by
  the one \<open>bring_up\<close> in progress, and the heartbeat. An engine is a value of any type; the
  launcher and the health probe answer freely. The relation \<open>sup_step\<close> has one step for
  each stretch of code between two await points, so a run is an interleaving of the tasks
  of the program with the clock.
\<close>

section \<open>Backoff\<close>

record backoff =
  bo_base :: duration
  bo_max :: duration

fun backoff_loop :: "nat \<Rightarrow> duration \<Rightarrow> duration \<Rightarrow> duration" where
  "backoff_loop 0 mx d = d"
| "backoff_loop (Suc n) mx d =
     (if mx \<le> d then d
      else (case duration_checked_mul d 2 of
              Some doubled \<Rightarrow> backoff_loop n mx doubled
            | None \<Rightarrow> d))"

definition backoff_delay :: "backoff \<Rightarrow> nat \<Rightarrow> duration" where
  "backoff_delay b attempt = min (backoff_loop (min attempt 64) (bo_max b) (bo_base b)) (bo_max b)"

text \<open>As long as doubling below the cap cannot overflow, the loop computes the product.\<close>

lemma backoff_loop_doubles:
  assumes "2 * mx \<le> duration_max"
  shows "min (backoff_loop n mx d) mx = min (d * 2 ^ n) mx"
proof (induction n arbitrary: d)
  case 0
  show ?case by simp
next
  case (Suc n)
  have large: "mx \<le> d * (2 * 2 ^ n)" if "mx \<le> d"
    by (rule le_trans [OF that]) simp
  show ?case
  proof (cases "mx \<le> d")
    case True
    with large show ?thesis by (simp add: min_def)
  next
    case False
    then have "d * 2 \<le> duration_max"
      using assms by simp
    with Suc.IH [of "d * 2"] False show ?thesis
      by (simp add: duration_checked_mul_def mult.assoc)
  qed
qed

section \<open>The restart policy\<close>

datatype restart_decision = AllowedAfter duration | BreakerTripped

type_synonym restart_history = "instant list"

definition history_record_attempt :: "instant \<Rightarrow> restart_history \<Rightarrow> restart_history" where
  "history_record_attempt now h = h @ [now]"

definition history_prune :: "instant \<Rightarrow> duration \<Rightarrow> restart_history \<Rightarrow> restart_history" where
  "history_prune now window h = filter (\<lambda>attempt. now - attempt < window) h"

definition count_in_window :: "instant \<Rightarrow> duration \<Rightarrow> restart_history \<Rightarrow> nat \<times> restart_history" where
  "count_in_window now window h =
     (let pruned = history_prune now window h in (length pruned, pruned))"

record restart_policy =
  rp_backoff :: backoff
  rp_max_restarts :: nat
  rp_window :: duration

definition policy_with_backoff :: "nat \<Rightarrow> duration \<Rightarrow> duration \<Rightarrow> duration \<Rightarrow> restart_policy" where
  "policy_with_backoff max_restarts window base mx =
     \<lparr>rp_backoff = \<lparr>bo_base = base, bo_max = mx\<rparr>, rp_max_restarts = max max_restarts 1, rp_window = window\<rparr>"

definition policy_new :: "nat \<Rightarrow> duration \<Rightarrow> restart_policy" where
  "policy_new max_restarts window =
     \<lparr>rp_backoff = \<lparr>bo_base = from_secs 1, bo_max = from_secs 30\<rparr>,
      rp_max_restarts = max max_restarts 1, rp_window = window\<rparr>"

definition policy_decide ::
  "restart_policy \<Rightarrow> restart_history \<Rightarrow> instant \<Rightarrow> restart_decision \<times> restart_history" where
  "policy_decide p h now =
     (let (in_window, pruned) = count_in_window now (rp_window p) h
      in (if rp_max_restarts p \<le> in_window then BreakerTripped
          else if in_window = 0 then AllowedAfter 0
          else AllowedAfter (backoff_delay (rp_backoff p) (in_window - 1)),
          pruned))"

lemmas policy_defs = policy_decide_def count_in_window_def history_prune_def Let_def

section \<open>The supervised state\<close>

datatype 'e phase =
    Idle
  | Running 'e restart_history
  | Replacing restart_history
  | BreakerOpen restart_history

fun phase_engine :: "'e phase \<Rightarrow> 'e option" where
  "phase_engine (Running e _) = Some e"
| "phase_engine _ = None"

fun phase_history :: "'e phase \<Rightarrow> restart_history" where
  "phase_history (Running _ h) = h"
| "phase_history (Replacing h) = h"
| "phase_history (BreakerOpen h) = h"
| "phase_history Idle = []"

fun mourn :: "'e phase \<Rightarrow> 'e phase" where
  "mourn (Running e h) = Replacing h"
| "mourn ph = ph"

fun note_healthy :: "'e phase \<Rightarrow> 'e phase" where
  "note_healthy (Running e h) = Running e []"
| "note_healthy ph = ph"

definition take_engine :: "'e phase \<Rightarrow> 'e option \<times> 'e phase" where
  "take_engine ph = (phase_engine ph, Idle)"

definition supervisor_engine :: "'e phase \<Rightarrow> engine_error + 'e" where
  "supervisor_engine ph = ok_or (phase_engine ph) EngTerminated"

text \<open>What the heartbeat does with a probe: keep the engine, or condemn it.\<close>

fun probe_verdict :: "engine_error + health_report \<Rightarrow> bool" where
  "probe_verdict (Inr report) = hr_healthy report"
| "probe_verdict (Inl _) = False"

text \<open>
  Where the holder of the ticket stands: about to decide, waiting out a backoff until an
  instant, or launching. Who it is matters at the end only: a heartbeat counts a restart.
\<close>

datatype caller = StartCall | HeartbeatCall

datatype bring_up =
    Deciding restart_history
  | Waiting instant restart_history
  | Launching restart_history

fun bring_up_history :: "bring_up \<Rightarrow> restart_history" where
  "bring_up_history (Deciding h) = h"
| "bring_up_history (Waiting _ h) = h"
| "bring_up_history (Launching h) = h"

record 'e supervisor =
  su_phase :: "'e phase"
  su_ticket :: "(caller \<times> bring_up) option"
  su_restarts :: nat
  su_now :: instant
  su_attempts :: "instant list"

text \<open>
  \<open>su_attempts\<close> is a ghost: the launch attempts since the last probe that found the engine
  healthy, or since the last shutdown.
\<close>

definition supervisor_new :: "instant \<Rightarrow> 'e supervisor" where
  "supervisor_new now =
     \<lparr>su_phase = Idle, su_ticket = None, su_restarts = 0, su_now = now, su_attempts = []\<rparr>"

definition production_policy :: restart_policy where
  "production_policy = policy_new 5 (from_secs 60)"

text \<open>A \<open>bring_up\<close> that returned: the heartbeat publishes a successful one.\<close>

definition brought_up :: "caller \<Rightarrow> 'e supervisor \<Rightarrow> 'e supervisor" where
  "brought_up c s =
     s\<lparr>su_ticket := None,
       su_restarts := (case c of HeartbeatCall \<Rightarrow> su_restarts s + 1 | StartCall \<Rightarrow> su_restarts s)\<rparr>"

inductive sup_step :: "restart_policy \<Rightarrow> 'e supervisor \<Rightarrow> 'e supervisor \<Rightarrow> bool" for p where
  tick: "sup_step p s (s\<lparr>su_now := su_now s + d\<rparr>)"
| acquired_running: "su_ticket s = None \<Longrightarrow> phase_engine (su_phase s) \<noteq> None \<Longrightarrow>
    sup_step p s (brought_up c s)"
| acquired: "su_ticket s = None \<Longrightarrow> phase_engine (su_phase s) = None \<Longrightarrow>
    sup_step p s (s\<lparr>su_ticket := Some (c, Deciding (phase_history (su_phase s)))\<rparr>)"
| breaker_open: "su_ticket s = Some (c, Deciding h) \<Longrightarrow>
    policy_decide p h (su_now s) = (BreakerTripped, pruned) \<Longrightarrow>
    sup_step p s (s\<lparr>su_phase := BreakerOpen pruned, su_ticket := None\<rparr>)"
| allowed: "su_ticket s = Some (c, Deciding h) \<Longrightarrow>
    policy_decide p h (su_now s) = (AllowedAfter delay, pruned) \<Longrightarrow>
    sup_step p s (s\<lparr>su_ticket := Some (c, Waiting (su_now s + delay) pruned)\<rparr>)"
| launch: "su_ticket s = Some (c, Waiting wake h) \<Longrightarrow> wake \<le> su_now s \<Longrightarrow>
    h' = history_record_attempt (su_now s) h \<Longrightarrow>
    sup_step p s (s\<lparr>su_phase := Replacing h', su_ticket := Some (c, Launching h'),
                    su_attempts := su_attempts s @ [su_now s]\<rparr>)"
| launch_ok: "su_ticket s = Some (c, Launching h) \<Longrightarrow>
    sup_step p s (brought_up c (s\<lparr>su_phase := Running e h\<rparr>))"
| launch_failed: "su_ticket s = Some (c, Launching h) \<Longrightarrow>
    sup_step p s (s\<lparr>su_ticket := Some (c, Deciding h)\<rparr>)"
| probe_healthy: "phase_engine (su_phase s) \<noteq> None \<Longrightarrow>
    sup_step p s (s\<lparr>su_phase := note_healthy (su_phase s), su_attempts := []\<rparr>)"
| condemn: "sup_step p s (s\<lparr>su_phase := mourn (su_phase s)\<rparr>)"
| abort_heartbeat: "su_ticket s = Some (HeartbeatCall, b) \<Longrightarrow>
    sup_step p s (s\<lparr>su_ticket := None\<rparr>)"
| shutdown: "sup_step p s (s\<lparr>su_phase := snd (take_engine (su_phase s)), su_attempts := []\<rparr>)"

inductive_cases sup_stepE: "sup_step p s s'"

inductive sup_reach :: "restart_policy \<Rightarrow> 'e supervisor \<Rightarrow> bool" for p where
  reach_start: "sup_reach p (supervisor_new now)"
| reach_step: "sup_reach p s \<Longrightarrow> sup_step p s s' \<Longrightarrow> sup_reach p s'"

section \<open>The invariant\<close>

text \<open>
  Every record a decision can be taken from covers the attempts still inside the window,
  and none is longer than the budget.
\<close>

definition covers :: "restart_policy \<Rightarrow> 'e supervisor \<Rightarrow> restart_history \<Rightarrow> bool" where
  "covers p s h \<longleftrightarrow> length h \<le> rp_max_restarts p \<and>
     subseq (history_prune (su_now s) (rp_window p) (su_attempts s)) h"

definition budget_kept :: "restart_policy \<Rightarrow> instant list \<Rightarrow> bool" where
  "budget_kept p ts \<longleftrightarrow>
     (\<forall>i < length ts. length (history_prune (ts ! i) (rp_window p) (take (Suc i) ts)) \<le> rp_max_restarts p)"

definition sup_inv :: "restart_policy \<Rightarrow> 'e supervisor \<Rightarrow> bool" where
  "sup_inv p s \<longleftrightarrow>
     covers p s (phase_history (su_phase s)) \<and>
     (\<forall>c b. su_ticket s = Some (c, b) \<longrightarrow> covers p s (bring_up_history b)) \<and>
     (\<forall>c w h. su_ticket s = Some (c, Waiting w h) \<longrightarrow> length h < rp_max_restarts p) \<and>
     (phase_engine (su_phase s) \<noteq> None \<longrightarrow> su_ticket s = None) \<and>
     (\<forall>t \<in> set (su_attempts s). t \<le> su_now s) \<and>
     budget_kept p (su_attempts s)"

lemma prune_later: "now \<le> now' \<Longrightarrow> history_prune now' w (history_prune now w h) = history_prune now' w h"
  by (auto simp: history_prune_def intro!: filter_cong)

lemma prune_subseq: "subseq (history_prune now w h) h"
  by (simp add: history_prune_def)

lemma prune_mono: "subseq h h' \<Longrightarrow> subseq (history_prune now w h) (history_prune now w h')"
  by (simp add: history_prune_def subseq_filter)

lemma covers_later:
  assumes "covers p s h" and "su_now s \<le> now"
  shows "covers p (s\<lparr>su_now := now\<rparr>) h"
proof -
  let ?prune = "\<lambda>t. history_prune t (rp_window p) (su_attempts s)"
  have "?prune now = history_prune now (rp_window p) (?prune (su_now s))"
    using prune_later [OF assms(2)] by simp
  then have "subseq (?prune now) (?prune (su_now s))"
    by (metis prune_subseq)
  with assms(1) show ?thesis
    by (auto simp: covers_def intro: subseq_order.trans)
qed

lemma covers_empty_attempts: "length h \<le> rp_max_restarts p \<Longrightarrow> su_attempts s = [] \<Longrightarrow> covers p s h"
  by (simp add: covers_def history_prune_def)

lemma covers_pruned: "covers p s h \<Longrightarrow> covers p s (history_prune (su_now s) (rp_window p) h)"
proof -
  assume h: "covers p s h"
  have "history_prune (su_now s) (rp_window p) (history_prune (su_now s) (rp_window p) (su_attempts s)) =
      history_prune (su_now s) (rp_window p) (su_attempts s)"
    by (rule prune_later) simp
  then have "subseq (history_prune (su_now s) (rp_window p) (su_attempts s))
      (history_prune (su_now s) (rp_window p) h)"
    using h prune_mono unfolding covers_def by metis
  moreover have "length (history_prune (su_now s) (rp_window p) h) \<le> length h"
    by (simp add: history_prune_def)
  ultimately show ?thesis
    using h unfolding covers_def by simp
qed

lemma budget_kept_snoc:
  "budget_kept p ts \<Longrightarrow> length (history_prune t (rp_window p) (ts @ [t])) \<le> rp_max_restarts p \<Longrightarrow>
   budget_kept p (ts @ [t])"
  by (auto simp: budget_kept_def less_Suc_eq nth_append)

lemma covers_cong: "su_now s' = su_now s \<Longrightarrow> su_attempts s' = su_attempts s \<Longrightarrow> covers p s' h = covers p s h"
  by (simp add: covers_def)

lemma decide_pruned: "policy_decide p h now = (r, h') \<Longrightarrow> h' = history_prune now (rp_window p) h"
  by (auto simp: policy_defs)

lemma decide_allowed_room: "policy_decide p h now = (AllowedAfter d, h') \<Longrightarrow> length h' < rp_max_restarts p"
  by (auto simp: policy_defs split: if_splits)

lemma sup_inv_launch:
  assumes inv: "sup_inv p s" and at: "su_ticket s = Some (c, Waiting w h)"
  defines "s' \<equiv> s\<lparr>su_phase := Replacing (h @ [su_now s]), su_ticket := Some (c, Launching (h @ [su_now s])),
                    su_attempts := su_attempts s @ [su_now s]\<rparr>"
  shows "sup_inv p s'"
proof -
  have h: "covers p s h" and room: "length h < rp_max_restarts p"
    using inv at by (force simp: sup_inv_def)+
  have sub: "subseq (history_prune (su_now s) (rp_window p) (su_attempts s @ [su_now s])) (h @ [su_now s])"
    using h by (auto simp: covers_def history_prune_def intro: list_emb_append_mono)
  have "length (history_prune (su_now s) (rp_window p) (su_attempts s @ [su_now s])) \<le> rp_max_restarts p"
    using list_emb_length [OF sub] room by simp
  then have "budget_kept p (su_attempts s @ [su_now s])"
    using inv by (intro budget_kept_snoc) (simp_all add: sup_inv_def)
  moreover have "covers p s' (h @ [su_now s])"
    using sub room by (simp add: covers_def s'_def)
  ultimately show ?thesis
    using inv unfolding sup_inv_def by (auto simp: s'_def)
qed

lemma sup_inv_step:
  assumes step: "sup_step p s s'" and inv: "sup_inv p s"
  shows "sup_inv p s'"
  using step
proof cases
  case (tick d)
  then show ?thesis
    using inv covers_later [of p s _ "su_now s + d"] unfolding sup_inv_def by fastforce
next
  case (acquired_running c)
  then show ?thesis
    using inv unfolding sup_inv_def brought_up_def by (simp add: covers_def)
next
  case (acquired c)
  then show ?thesis
    using inv unfolding sup_inv_def by (simp add: covers_def)
next
  case (breaker_open c h pruned)
  have "covers p s h"
    using inv breaker_open(2) by (force simp: sup_inv_def)
  from covers_pruned [OF this] show ?thesis
    using inv breaker_open(1) decide_pruned [OF breaker_open(3)] unfolding sup_inv_def by (simp add: covers_def)
next
  case (allowed c h delay pruned)
  have "covers p s h"
    using inv allowed(2) by (force simp: sup_inv_def)
  from covers_pruned [OF this] show ?thesis
    using inv allowed(1,2) decide_pruned [OF allowed(3)] decide_allowed_room [OF allowed(3)]
    unfolding sup_inv_def by (auto simp: covers_def)
next
  case (launch c wake h h')
  with sup_inv_launch [OF inv launch(2)] show ?thesis
    by (simp add: history_record_attempt_def)
next
  case (launch_ok c h e)
  have "covers p s h"
    using inv launch_ok(2) by (force simp: sup_inv_def)
  then show ?thesis
    using inv launch_ok(1) unfolding sup_inv_def brought_up_def by (simp add: covers_def)
next
  case (launch_failed c h)
  have "covers p s h"
    using inv launch_failed(2) by (force simp: sup_inv_def)
  then show ?thesis
    using inv launch_failed(1,2) unfolding sup_inv_def by (auto simp: covers_def)
next
  case probe_healthy
  then show ?thesis
    using inv unfolding sup_inv_def
    by (cases "su_phase s") (auto simp: covers_def history_prune_def budget_kept_def)
next
  case condemn
  then show ?thesis
    using inv unfolding sup_inv_def by (cases "su_phase s") (auto simp: covers_def)
next
  case (abort_heartbeat b)
  then show ?thesis
    using inv unfolding sup_inv_def by (simp add: covers_def)
next
  case shutdown
  then show ?thesis
    using inv unfolding sup_inv_def by (auto simp: take_engine_def covers_def history_prune_def budget_kept_def)
qed

lemma sup_inv_start: "sup_inv p (supervisor_new now)"
  by (simp add: sup_inv_def supervisor_new_def covers_def history_prune_def budget_kept_def)

lemma sup_reach_inv: "sup_reach p s \<Longrightarrow> sup_inv p s"
  by (induction rule: sup_reach.induct) (auto intro: sup_inv_start sup_inv_step)

section \<open>Concrete runs\<close>

text \<open>The first launch of a fresh supervisor, as the witnesses use it.\<close>

lemma decide_first: "0 < rp_max_restarts p \<Longrightarrow> history_prune now (rp_window p) h = [] \<Longrightarrow>
    policy_decide p h now = (AllowedAfter 0, [])"
  by (simp add: policy_decide_def count_in_window_def)

text \<open>
  From any idle or open state whose record has drained, the steps of one \<open>bring_up\<close> lead to
  a launch in progress.
\<close>

lemma steps_to_launch:
  assumes "0 < rp_max_restarts p" and "su_ticket s = None" and "phase_engine (su_phase s) = None"
    and "history_prune (su_now s) (rp_window p) (phase_history (su_phase s)) = []"
  shows "(sup_step p)\<^sup>*\<^sup>* s (s\<lparr>su_phase := Replacing [su_now s], su_ticket := Some (c, Launching [su_now s]),
      su_attempts := su_attempts s @ [su_now s]\<rparr>)"
proof -
  let ?h = "phase_history (su_phase s)"
  let ?s1 = "s\<lparr>su_ticket := Some (c, Deciding ?h)\<rparr>"
  let ?s2 = "s\<lparr>su_ticket := Some (c, Waiting (su_now s) [])\<rparr>"
  have "sup_step p s ?s1"
    by (rule acquired) (use assms in auto)
  moreover have "sup_step p ?s1 ?s2"
    using allowed [of ?s1 c ?h p 0 "[]"] decide_first [OF assms(1,4)] by simp
  moreover have "sup_step p ?s2 (s\<lparr>su_phase := Replacing [su_now s],
      su_ticket := Some (c, Launching [su_now s]), su_attempts := su_attempts s @ [su_now s]\<rparr>)"
    using launch [of ?s2 c "su_now s" "[]" "[su_now s]" p] by (simp add: history_record_attempt_def)
  ultimately show ?thesis
    by (meson converse_rtranclp_into_rtranclp rtranclp.rtrancl_refl)
qed

lemma reach_steps: "(sup_step p)\<^sup>*\<^sup>* s s' \<Longrightarrow> sup_reach p s \<Longrightarrow> sup_reach p s'"
  by (induction rule: rtranclp_induct) (auto intro: reach_step)

definition first_launch :: "caller \<Rightarrow> instant \<Rightarrow> nat supervisor" where
  "first_launch c now = \<lparr>su_phase = Replacing [now], su_ticket = Some (c, Launching [now]),
     su_restarts = 0, su_now = now, su_attempts = [now]\<rparr>"

lemma reach_first_launch: "sup_reach production_policy (first_launch c now)"
proof -
  have "(sup_step production_policy)\<^sup>*\<^sup>* (supervisor_new now) (first_launch c now)"
    using steps_to_launch [of production_policy "supervisor_new now" c]
    by (simp add: production_policy_def policy_new_def supervisor_new_def history_prune_def first_launch_def)
  then show ?thesis
    by (rule reach_steps) (rule reach_start)
qed

section \<open>Properties\<close>

text \<open>
  The delay before retry number \<open>n\<close> is \<open>base * 2^n\<close> clamped to the maximum: whenever
  the maximum is reached within 64 doublings and twice the maximum is a representable
  duration, the bounded loop with its checked doubling computes exactly that.
\<close>

theorem backoff_is_capped_doubling:
  assumes "2 * bo_max b \<le> duration_max" and "bo_max b \<le> bo_base b * 2 ^ 64"
  shows "backoff_delay b n = min (bo_base b * 2 ^ n) (bo_max b)"
proof -
  have "bo_base b * 2 ^ 64 \<le> bo_base b * 2 ^ n" if "64 \<le> n"
    using that by (intro mult_le_mono2 power_increasing) auto
  then have "min (bo_base b * 2 ^ min n 64) (bo_max b) = min (bo_base b * 2 ^ n) (bo_max b)"
    using assms(2) by (cases "n \<le> 64") (simp, metis linear min.absorb2 min.absorb3 min_def order_trans)
  then show ?thesis
    unfolding backoff_delay_def backoff_loop_doubles [OF assms(1)] .
qed

theorem backoff_is_capped_doubling_witness:
  "backoff_delay (rp_backoff production_policy) 4 = from_secs 16 \<and>
   backoff_delay (rp_backoff production_policy) 5 = from_secs 30"
  using backoff_is_capped_doubling [of "rp_backoff production_policy" 4]
    backoff_is_capped_doubling [of "rp_backoff production_policy" 5]
  by (simp add: production_policy_def policy_new_def from_secs_def duration_max_def u64_max_def)



text \<open>
  One launch at a time, into an empty slot: while any replacement is in progress no
  engine is running, and callers are answered \<open>Terminated\<close>.
\<close>

theorem replacement_is_exclusive:
  assumes "sup_reach p s" and "su_ticket s \<noteq> None"
  shows "supervisor_engine (su_phase s) = Inl EngTerminated"
  using sup_reach_inv [OF assms(1)] assms(2)
  by (cases "phase_engine (su_phase s)") (auto simp: sup_inv_def supervisor_engine_def)

theorem replacement_is_exclusive_witness:
  "supervisor_engine (su_phase (first_launch HeartbeatCall 7)) = Inl EngTerminated"
  by (rule replacement_is_exclusive [OF reach_first_launch]) (simp add: first_launch_def)



text \<open>
  An abort reaches the heartbeat at its next await point only. A launch that resolves
  between the abort and that point installs its engine after \<open>shutdown\<close> emptied the phase:
  the engine is running when the shutdown is over, and nothing shuts it down.
\<close>

lemma engine_after_shutdown:
  "\<exists>s1 s2. sup_reach production_policy s1 \<and>
     s2 = s1\<lparr>su_phase := snd (take_engine (su_phase s1)), su_attempts := []\<rparr> \<and>
     sup_step production_policy s2 (brought_up HeartbeatCall (s2\<lparr>su_phase := Running (0::nat) [7]\<rparr>))"
proof (intro exI conjI)
  let ?s2 = "(first_launch HeartbeatCall 7)
    \<lparr>su_phase := snd (take_engine (su_phase (first_launch HeartbeatCall 7))), su_attempts := []\<rparr>"
  show "sup_reach production_policy (first_launch HeartbeatCall 7)"
    by (rule reach_first_launch)
  show "sup_step production_policy ?s2 (brought_up HeartbeatCall (?s2\<lparr>su_phase := Running (0::nat) [7]\<rparr>))"
    by (rule launch_ok) (simp add: first_launch_def)
qed simp

end
