(* ===== verification/Download_Fetch.thy ===== *)
theory Download_Fetch
  imports Supervisor
begin

text \<open>
  The timed, retried HTTP fetch, \<open>crates/engine/src/download/fetch.rs\<close>. The HTTP client is a
  parameter: whether it could be built and, for each attempt, what \<open>send\<close> and the body
  reads answer. A fetch returns its result with the attempts it made and the pauses between
  them.
\<close>

definition max_attempts :: nat where
  "max_attempts = 3"

definition max_fetch_bytes :: nat where
  "max_fetch_bytes = 1024 * 1024 * 1024"

definition retry_backoff :: backoff where
  "retry_backoff = \<lparr>bo_base = from_secs 2, bo_max = from_secs 8\<rparr>"

text \<open>
  One answer of \<open>Response::chunk\<close>; the end of the list is the end of the body. An attempt
  fails to send, is answered with an error status (a client error or not), or is answered
  with a body and perhaps an announced length.
\<close>

datatype chunk = Chunk string | ChunkFailed string

datatype send_outcome =
    SendFailed string
  | StatusFailed bool string
  | Responded "nat option" "chunk list"

datatype body_outcome = BodyDone string | BodyReadFailed string | BodyOverCap

fun read_capped :: "nat \<Rightarrow> string \<Rightarrow> chunk list \<Rightarrow> body_outcome" where
  "read_capped cap body [] = BodyDone body"
| "read_capped cap body (ChunkFailed e # cs) = BodyReadFailed (''cannot read body: '' @ e)"
| "read_capped cap body (Chunk c # cs) =
     (if cap < length body + length c then BodyOverCap else read_capped cap (body @ c) cs)"

definition over_cap :: "string \<Rightarrow> engine_error" where
  "over_cap url = EngDownloadFailed
     (''response from '' @ quoted url @ '' is over the '' @ show_nat max_fetch_bytes @ ''-byte cap'')"

text \<open>What one attempt ends with: an answer for the caller, or a message to retry after.\<close>

definition attempt_fetch :: "string \<Rightarrow> send_outcome \<Rightarrow> (engine_error + string) + string" where
  "attempt_fetch url outcome =
     (case outcome of
        SendFailed e \<Rightarrow> Inr (''request failed: '' @ e)
      | StatusFailed client_error e \<Rightarrow>
          (if client_error then Inl (Inl (EngDownloadFailed (''server rejected the request: '' @ e)))
           else Inr (''server rejected the request: '' @ e))
      | Responded announced chunks \<Rightarrow>
          (if (case announced of Some n \<Rightarrow> max_fetch_bytes < n | None \<Rightarrow> False) then Inl (Inl (over_cap url))
           else (case read_capped max_fetch_bytes [] chunks of
                   BodyDone bytes \<Rightarrow> Inl (Inr bytes)
                 | BodyOverCap \<Rightarrow> Inl (Inl (over_cap url))
                 | BodyReadFailed message \<Rightarrow> Inr message)))"

text \<open>\<open>left\<close> counts the attempts still allowed.\<close>

fun fetch_loop :: "string \<Rightarrow> (nat \<Rightarrow> send_outcome) \<Rightarrow> nat \<Rightarrow> nat \<Rightarrow> string option \<Rightarrow> duration list \<Rightarrow>
    (engine_error + string) \<times> nat \<times> duration list" where
  "fetch_loop url send 0 attempt last_error slept =
     (Inl (EngDownloadFailed (''fetch of '' @ quoted url @ '' failed after '' @ show_nat max_attempts @
        '' attempts: '' @ unwrap_or last_error ''unknown error'')), attempt, slept)"
| "fetch_loop url send (Suc left) attempt last_error slept =
     (let slept' = (if 0 < attempt then slept @ [backoff_delay retry_backoff (attempt - 1)] else slept)
      in (case attempt_fetch url (send attempt) of
            Inl result \<Rightarrow> (result, attempt + 1, slept')
          | Inr message \<Rightarrow> fetch_loop url send left (attempt + 1) (Some message) slept'))"

definition fetch_with_budget :: "string option \<Rightarrow> (nat \<Rightarrow> send_outcome) \<Rightarrow> string \<Rightarrow>
    (engine_error + string) \<times> nat \<times> duration list" where
  "fetch_with_budget client_error send url =
     (case client_error of
        Some e \<Rightarrow> (Inl (EngDownloadFailed (''cannot create HTTP client: '' @ e)), 0, [])
      | None \<Rightarrow> fetch_loop url send max_attempts 0 None [])"

definition fetch_bytes :: "string option \<Rightarrow> (nat \<Rightarrow> send_outcome) \<Rightarrow> string \<Rightarrow> engine_error + string" where
  "fetch_bytes client_error send url = fst (fetch_with_budget client_error send url)"

text \<open>The JSON parser is a parameter.\<close>

definition fetch_json ::
  "(string \<Rightarrow> string + json) \<Rightarrow> string option \<Rightarrow> (nat \<Rightarrow> send_outcome) \<Rightarrow> string \<Rightarrow> engine_error + json" where
  "fetch_json parse client_error send url =
     rbind (fst (fetch_with_budget client_error send url)) (\<lambda>body.
       map_err (\<lambda>e. EngDownloadFailed (''manifest is not valid JSON: '' @ e)) (parse body))"

section \<open>Lemmas\<close>

fun chunk_bytes :: "chunk \<Rightarrow> string" where
  "chunk_bytes (Chunk c) = c"
| "chunk_bytes (ChunkFailed e) = []"

lemma read_capped_Done:
  "read_capped cap body cs = BodyDone bytes \<Longrightarrow> length body \<le> cap \<Longrightarrow>
   length bytes \<le> cap \<and> bytes = body @ concat (map chunk_bytes cs)"
  by (induction cap body cs rule: read_capped.induct) (auto split: if_splits)

lemma attempt_fetch_bytes:
  assumes "attempt_fetch url outcome = Inl (Inr bytes)"
  shows "length bytes \<le> max_fetch_bytes \<and>
    (\<exists>announced cs. outcome = Responded announced cs \<and> bytes = concat (map chunk_bytes cs))"
proof (cases outcome)
  case (Responded announced cs)
  with assms have "read_capped max_fetch_bytes [] cs = BodyDone bytes"
    by (simp add: attempt_fetch_def split: if_splits body_outcome.splits)
  note read_capped_Done [OF this]
  then have "length bytes \<le> max_fetch_bytes" "bytes = concat (map chunk_bytes cs)"
    by (auto simp only: list.size append_Nil)
  with Responded show ?thesis
    by blast
qed (use assms in \<open>auto simp: attempt_fetch_def split: if_splits\<close>)

text \<open>The loop stops at the first attempt with an answer, and gives up after the last.\<close>

lemma fetch_loop_trace:
  assumes "fetch_loop url send left attempt le slept = (r, made, pauses)"
  shows "attempt \<le> made \<and> made \<le> attempt + left \<and>
    (\<forall>k. attempt \<le> k \<and> k + 1 < made \<longrightarrow> (\<exists>m. attempt_fetch url (send k) = Inr m)) \<and>
    ((\<exists>k. made = k + 1 \<and> attempt \<le> k \<and> attempt_fetch url (send k) = Inl r) \<or>
     (made = attempt + left \<and> (\<exists>e. r = Inl e) \<and>
      (\<forall>k. attempt \<le> k \<and> k < made \<longrightarrow> (\<exists>m. attempt_fetch url (send k) = Inr m))))"
  using assms
proof (induction left arbitrary: attempt le slept)
  case 0
  then show ?case by auto
next
  case (Suc left)
  show ?case
  proof (cases "attempt_fetch url (send attempt)")
    case (Inl result)
    with Suc.prems show ?thesis
      by (auto simp: Let_def)
  next
    case (Inr m)
    define slept' where "slept' = (if 0 < attempt then slept @ [backoff_delay retry_backoff (attempt - 1)] else slept)"
    have "fetch_loop url send left (attempt + 1) (Some m) slept' = (r, made, pauses)"
      using Suc.prems Inr by (simp add: slept'_def Let_def)
    from Suc.IH [OF this] have ih: "attempt + 1 \<le> made" "made \<le> attempt + 1 + left"
      "\<forall>k. attempt + 1 \<le> k \<and> k + 1 < made \<longrightarrow> (\<exists>m. attempt_fetch url (send k) = Inr m)"
      "(\<exists>k. made = k + 1 \<and> attempt + 1 \<le> k \<and> attempt_fetch url (send k) = Inl r) \<or>
       (made = attempt + 1 + left \<and> (\<exists>e. r = Inl e) \<and>
        (\<forall>k. attempt + 1 \<le> k \<and> k < made \<longrightarrow> (\<exists>m. attempt_fetch url (send k) = Inr m)))"
      by auto
    have first: "(\<exists>m. attempt_fetch url (send k) = Inr m)" if "attempt \<le> k" "\<not> attempt + 1 \<le> k" for k
      using that Inr by (metis Suc_eq_plus1 le_antisym not_less_eq_eq)
    show ?thesis
    proof (intro conjI)
      show "attempt \<le> made" "made \<le> attempt + Suc left"
        using ih(1,2) by simp_all
      show "\<forall>k. attempt \<le> k \<and> k + 1 < made \<longrightarrow> (\<exists>m. attempt_fetch url (send k) = Inr m)"
        using ih(3) first by blast
      show "(\<exists>k. made = k + 1 \<and> attempt \<le> k \<and> attempt_fetch url (send k) = Inl r) \<or>
          (made = attempt + Suc left \<and> (\<exists>e. r = Inl e) \<and>
           (\<forall>k. attempt \<le> k \<and> k < made \<longrightarrow> (\<exists>m. attempt_fetch url (send k) = Inr m)))"
        using ih(4)
      proof (elim disjE)
        assume "\<exists>k. made = k + 1 \<and> attempt + 1 \<le> k \<and> attempt_fetch url (send k) = Inl r"
        then show ?thesis
          by (intro disjI1) (auto intro: le_trans [OF le_add1])
      next
        assume *: "made = attempt + 1 + left \<and> (\<exists>e. r = Inl e) \<and>
          (\<forall>k. attempt + 1 \<le> k \<and> k < made \<longrightarrow> (\<exists>m. attempt_fetch url (send k) = Inr m))"
        then have "\<forall>k. attempt \<le> k \<and> k < made \<longrightarrow> (\<exists>m. attempt_fetch url (send k) = Inr m)"
          using first by blast
        with * show ?thesis
          by simp
      qed
    qed
  qed
qed

lemma fetch_loop_pauses:
  assumes "fetch_loop url send left attempt le slept = (r, made, pauses)" "0 < attempt"
  shows "pauses = slept @ map (\<lambda>k. backoff_delay retry_backoff (k - 1)) [attempt..<made]"
  using assms
proof (induction left arbitrary: attempt le slept)
  case 0
  then show ?case by simp
next
  case (Suc left)
  show ?case
  proof (cases "attempt_fetch url (send attempt)")
    case (Inl result)
    with Suc.prems show ?thesis by (auto simp: Let_def)
  next
    case (Inr m)
    then have rec: "fetch_loop url send left (attempt + 1) (Some m)
        (slept @ [backoff_delay retry_backoff (attempt - 1)]) = (r, made, pauses)"
      using Suc.prems by (simp add: Let_def)
    have "attempt + 1 \<le> made"
      using fetch_loop_trace [OF rec] by simp
    with Suc.IH [OF rec] show ?thesis
      by (simp add: upt_conv_Cons)
  qed
qed

section \<open>Properties\<close>

text \<open>
  Bounded, honest retries: a fetch makes at most three attempts, pausing 2 s and then
  4 s between them; every attempt but the last failed in a retriable way; and the last one
  gives the result, unless all three failed retriably, which is an error.
\<close>

theorem fetch_retries_bounded:
  assumes "fetch_with_budget None send url = (r, made, pauses)"
  shows "1 \<le> made \<and> made \<le> 3 \<and> pauses = take (made - 1) [from_secs 2, from_secs 4] \<and>
    (\<forall>k. k + 1 < made \<longrightarrow> (\<exists>m. attempt_fetch url (send k) = Inr m)) \<and>
    (attempt_fetch url (send (made - 1)) = Inl r \<or> made = 3 \<and> (\<exists>e. r = Inl e))"
proof -
  have loop: "fetch_loop url send max_attempts 0 None [] = (r, made, pauses)"
    using assms by (simp add: fetch_with_budget_def)
  note trace = fetch_loop_trace [OF loop]
  have delays: "backoff_delay retry_backoff 0 = from_secs 2" "backoff_delay retry_backoff 1 = from_secs 4"
    by (simp_all add: backoff_delay_def retry_backoff_def from_secs_def duration_max_def u64_max_def
        duration_checked_mul_def)
  have "pauses = take (made - 1) [from_secs 2, from_secs 4]"
  proof (cases "attempt_fetch url (send 0)")
    case (Inl result)
    with loop show ?thesis
      by (simp add: max_attempts_def numeral_3_eq_3)
  next
    case (Inr m)
    with loop have "fetch_loop url send 2 1 (Some m) [] = (r, made, pauses)"
      by (simp add: max_attempts_def numeral_3_eq_3 numeral_2_eq_2)
    from fetch_loop_pauses [OF this] fetch_loop_trace [OF this] have
      "pauses = map (\<lambda>k. backoff_delay retry_backoff (k - 1)) [1..<made]" "made = 1 \<or> made = 2 \<or> made = 3"
      by auto
    then show ?thesis
      using delays by (auto simp: upt_rec)
  qed
  then show ?thesis
    using trace by (auto simp: max_attempts_def)
qed

theorem fetch_retries_bounded_witness:
  "fetch_with_budget None (\<lambda>k. if k = 0 then SendFailed ''reset'' else Responded None [Chunk ''zip'']) ''u'' =
     (Inr ''zip'', 2, [from_secs 2]) \<and>
   [from_secs 2] = take (2 - 1) [from_secs 2, from_secs 4]"
proof -
  have run: "fetch_with_budget None (\<lambda>k. if k = 0 then SendFailed ''reset'' else Responded None [Chunk ''zip'']) ''u'' =
     (Inr ''zip'', 2, [from_secs 2])"
    by (simp add: fetch_bytes_def fetch_with_budget_def max_attempts_def numeral_3_eq_3 attempt_fetch_def
        max_fetch_bytes_def backoff_delay_def retry_backoff_def from_secs_def)
  from fetch_retries_bounded [OF run] run show ?thesis
    by simp
qed

text \<open>
  Nothing over the cap is ever handed on, whatever length the server announced: bytes a
  fetch answers are the whole body of one response and at most one gibibyte.
\<close>

theorem fetched_bytes_capped:
  assumes "fetch_bytes client_error send url = Inr bytes"
  shows "length bytes \<le> max_fetch_bytes \<and>
    (\<exists>k < 3. \<exists>announced cs. send k = Responded announced cs \<and> bytes = concat (map chunk_bytes cs))"
proof -
  have client: "client_error = None"
    using assms by (cases client_error) (auto simp: fetch_bytes_def fetch_with_budget_def)
  obtain made pauses where "fetch_loop url send max_attempts 0 None [] = (Inr bytes, made, pauses)"
    using assms client by (auto simp: fetch_bytes_def fetch_with_budget_def) (metis prod.collapse)
  from fetch_loop_trace [OF this] obtain k where
    "attempt_fetch url (send k) = Inl (Inr bytes)" and "k < 3"
    by (auto simp: max_attempts_def)
  then show ?thesis
    using attempt_fetch_bytes [of url "send k" bytes] by blast
qed

theorem fetched_bytes_capped_witness:
  "length ''zip'' \<le> max_fetch_bytes"
proof -
  have "fetch_bytes None (\<lambda>k. Responded (Some 3) [Chunk ''z'', Chunk ''ip'']) ''u'' = Inr ''zip''"
    by (simp add: fetch_bytes_def fetch_with_budget_def max_attempts_def numeral_3_eq_3 attempt_fetch_def
        max_fetch_bytes_def backoff_delay_def retry_backoff_def from_secs_def)
  from fetched_bytes_capped [OF this] show ?thesis
    by blast
qed

end
