(* ===== verification/Download_Store.thy ===== *)
theory Download_Store
  imports Download_Manifest Download_Fetch "HOL-Library.List_Lexorder"
begin

text \<open>
  The engine cache, \<open>crates/engine/src/download/store.rs\<close>, and the front door \<open>ensure\<close> of
  \<open>download/mod.rs\<close>. A path is the list of its components, joined as \<open>Path::join\<close> does on
  a Unix host; the file system is a map from paths to contents, whose failures, and what
  other processes do meanwhile, are arguments. The zip reader is a parameter: whether the
  archive opens, and per entry its kind, its name and the bytes it decompresses to, with the
  offset at which reading fails, if it does.
\<close>

section \<open>Paths\<close>

type_synonym fpath = "string list"

type_synonym files = "fpath \<rightharpoonup> string"

definition path_parts :: "string \<Rightarrow> fpath" where
  "path_parts s = filter (\<lambda>p. p \<noteq> [] \<and> p \<noteq> ''.'') (split_on (\<lambda>c. c = CHR ''/'') s)"

definition path_join :: "fpath \<Rightarrow> string \<Rightarrow> fpath" where
  "path_join base relative =
     (if relative \<noteq> [] \<and> hd relative = CHR ''/'' then path_parts relative else base @ path_parts relative)"

definition show_path :: "fpath \<Rightarrow> string" where
  "show_path p = concat (map (\<lambda>c. CHR ''/'' # c) p)"

definition is_file :: "files \<Rightarrow> fpath \<Rightarrow> bool" where
  "is_file fs p \<longleftrightarrow> fs p \<noteq> None"

definition remove_dir_all :: "fpath \<Rightarrow> files \<Rightarrow> files" where
  "remove_dir_all d fs = (\<lambda>p. if prefix d p then None else fs p)"

definition rename_dir :: "fpath \<Rightarrow> fpath \<Rightarrow> files \<Rightarrow> files" where
  "rename_dir old new fs =
     (\<lambda>p. if prefix new p then fs (old @ drop (length new) p)
          else if prefix old p then None else fs p)"

section \<open>Versions\<close>

text \<open>\<open>Vec<u32>\<close> is ordered lexicographically.\<close>

datatype engine_version = EngineVersion (components: "nat list")

instantiation engine_version :: linorder
begin

definition less_eq_engine_version :: "engine_version \<Rightarrow> engine_version \<Rightarrow> bool" where
  "less_eq_engine_version v w \<longleftrightarrow> components v \<le> components w"

definition less_engine_version :: "engine_version \<Rightarrow> engine_version \<Rightarrow> bool" where
  "less_engine_version v w \<longleftrightarrow> components v < components w"

instance
  by standard (auto simp: less_eq_engine_version_def less_engine_version_def engine_version.expand)

end

fun all_some :: "'a option list \<Rightarrow> 'a list option" where
  "all_some [] = Some []"
| "all_some (None # xs) = None"
| "all_some (Some x # xs) = map_option ((#) x) (all_some xs)"

definition parse_version :: "string \<Rightarrow> engine_version option" where
  "parse_version s =
     map_option EngineVersion (all_some (map (parse_uint u32_max) (split_on (\<lambda>c. c = CHR ''.'') s)))"

section \<open>Names\<close>

definition safe_component :: "string \<Rightarrow> engine_error + unit" where
  "safe_component name =
     (if name = [] \<or> name = ''.'' \<or> name = ''..'' \<or>
         (\<exists>c \<in> set name. c = CHR ''/'' \<or> c = backslash \<or> c = CHR '':'' \<or> c = CHR 0x00)
      then Inl (EngDownloadFailed (''cache component '' @ quoted name @ '' is not a plain directory name''))
      else Inr ())"

definition is_separator :: "char \<Rightarrow> bool" where
  "is_separator c \<longleftrightarrow> c = CHR ''/'' \<or> c = backslash"

definition hostile_path :: "string \<Rightarrow> bool" where
  "hostile_path relative \<longleftrightarrow>
     relative = [] \<or> is_separator (hd relative) \<or> CHR '':'' \<in> set relative \<or>
     \<not> list_all (\<lambda>part. part \<noteq> [] \<and> part \<noteq> ''.'' \<and> part \<noteq> ''..'') (split_on is_separator relative)"

definition safe_join :: "fpath \<Rightarrow> string \<Rightarrow> engine_error + fpath" where
  "safe_join base relative =
     (if hostile_path relative
      then Inl (EngDownloadFailed (''engine zip contains a hostile path entry: '' @ quoted relative))
      else (let target = path_join base relative
            in if \<not> prefix base target
               then Inl (EngDownloadFailed (''engine zip entry escapes the cache directory: '' @ quoted relative))
               else Inr target))"

definition binary_name :: "string \<Rightarrow> string \<Rightarrow> string" where
  "binary_name os product = (if os = ''windows'' then product @ ''.exe'' else product)"

record installed_engine =
  ie_product :: string
  ie_version :: string
  ie_executable :: fpath

section \<open>Lookup\<close>

text \<open>
  What reading the product's cache directory answers: its entries, each an error, a name
  that is not UTF-8 (\<open>None\<close>), or a name.
\<close>

datatype read_dir_result =
    DirMissing
  | DirUnreadable string
  | DirEntries "(string + string option) list"

definition tmp_prefix :: string where
  "tmp_prefix = ''.tmp-''"

definition product_dir :: "fpath \<Rightarrow> string \<Rightarrow> fpath" where
  "product_dir cache_root product = path_join (path_join cache_root ''engines'') product"

fun cached_versions :: "fpath \<Rightarrow> (string + string option) list \<Rightarrow> engine_error + string list" where
  "cached_versions dir [] = Inr []"
| "cached_versions dir (Inl e # entries) =
     Inl (EngDownloadFailed (''cannot read cache entry in '' @ show_path dir @ '': '' @ e))"
| "cached_versions dir (Inr None # entries) = cached_versions dir entries"
| "cached_versions dir (Inr (Some v) # entries) =
     (if prefix tmp_prefix v then cached_versions dir entries
      else if parse_version v = None then cached_versions dir entries
      else rbind (cached_versions dir entries) (\<lambda>vs. Inr (v # vs)))"

definition version_key :: "string \<Rightarrow> engine_version" where
  "version_key v = unwrap_or (parse_version v) (EngineVersion [])"

definition installed :: "string \<Rightarrow> fpath \<Rightarrow> files \<Rightarrow> read_dir_result \<Rightarrow> string \<Rightarrow>
    engine_error + installed_engine option" where
  "installed os cache_root fs listing product =
     rbind (safe_component product) (\<lambda>_.
     (let dir = product_dir cache_root product in
      (case listing of
         DirMissing \<Rightarrow> Inr None
       | DirUnreadable e \<Rightarrow>
           Inl (EngDownloadFailed (''cannot read cache directory '' @ show_path dir @ '': '' @ e))
       | DirEntries entries \<Rightarrow>
           rbind (cached_versions dir entries) (\<lambda>versions.
             (let newest_first = rev (sort_key version_key versions);
                  executable = (\<lambda>v. path_join (path_join dir v) (binary_name os product))
              in Inr (map_option
                   (\<lambda>v. \<lparr>ie_product = product, ie_version = v, ie_executable = executable v\<rparr>)
                   (find (\<lambda>v. is_file fs (executable v)) newest_first)))))))"

section \<open>Extraction\<close>

record zip_entry =
  ze_unreadable :: "string option"
  ze_is_dir :: bool
  ze_name :: "string + string"
  ze_data :: string
  ze_fails_at :: "(nat \<times> string) option"

text \<open>\<open>take(limit).read_to_end\<close>: the first \<open>limit\<close> bytes, unless reading fails before.\<close>

definition entry_read :: "zip_entry \<Rightarrow> nat \<Rightarrow> string + string" where
  "entry_read z limit =
     (case ze_fails_at z of
        Some (offset, e) \<Rightarrow> if offset < limit then Inl e else Inr (take limit (ze_data z))
      | None \<Rightarrow> Inr (take limit (ze_data z)))"

text \<open>One call of \<open>fs::write\<close>: the target, the contents, and the execute bit set after it.\<close>

record file_write =
  fw_path :: fpath
  fw_contents :: string
  fw_executable :: bool

record io_faults =
  io_mkdir :: "fpath \<Rightarrow> string option"
  io_write :: "fpath \<Rightarrow> string option"
  io_rename :: "string option"
  io_others :: "files \<Rightarrow> files"

definition max_entry_bytes :: nat where
  "max_entry_bytes = 512 * 1024 * 1024"

definition max_extracted_bytes :: nat where
  "max_extracted_bytes = 2 * 1024 * 1024 * 1024"

definition saturating_add_u64 :: "nat \<Rightarrow> nat \<Rightarrow> nat" where
  "saturating_add_u64 a b = min (a + b) u64_max"

definition flatten_name :: "string \<Rightarrow> string" where
  "flatten_name name =
     (case find_char is_separator name of Some split \<Rightarrow> drop (split + 1) name | None \<Rightarrow> name)"

text \<open>
  One entry: an error, or \<open>Inr ()\<close> to go on; and the call of \<open>fs::write\<close> it made, if any.
  An entry that made none was a directory or the top folder itself.
\<close>

definition extract_entry :: "io_faults \<Rightarrow> fpath \<Rightarrow> string \<Rightarrow> nat \<Rightarrow> nat \<Rightarrow> nat \<Rightarrow> nat \<Rightarrow> zip_entry \<Rightarrow>
    (engine_error + unit) \<times> file_write option" where
  "extract_entry io staging wanted cap total_cap index extracted z =
     (case ze_unreadable z of
        Some e \<Rightarrow> (Inl (EngDownloadFailed (''engine zip entry '' @ show_nat index @ '' is unreadable: '' @ e)), None)
      | None \<Rightarrow>
     if ze_is_dir z then (Inr (), None)
     else
     (case ze_name z of
        Inl e \<Rightarrow>
          (Inl (EngDownloadFailed (''engine zip entry '' @ show_nat index @ '' has an unreadable name: '' @ e)), None)
      | Inr name \<Rightarrow>
     (let relative = flatten_name name in
     if relative = [] then (Inr (), None)
     else
     (case safe_join staging relative of
        Inl e \<Rightarrow> (Inl e, None)
      | Inr target \<Rightarrow>
     (case io_mkdir io (butlast target) of
        Some e \<Rightarrow> (Inl (EngDownloadFailed (''cannot create '' @ show_path (butlast target) @ '': '' @ e)), None)
      | None \<Rightarrow>
     (case entry_read z (saturating_add_u64 cap 1) of
        Inl e \<Rightarrow> (Inl (EngDownloadFailed (''cannot read '' @ quoted name @ '' from engine zip: '' @ e)), None)
      | Inr contents \<Rightarrow>
     if cap < length contents
     then (Inl (EngDownloadFailed (''engine zip entry '' @ quoted name @ '' is over the '' @ show_nat cap @
             ''-byte extraction cap'')), None)
     else if total_cap < extracted + length contents
     then (Inl (EngDownloadFailed (''engine zip is over the '' @ show_nat total_cap @
             ''-byte total extraction cap'')), None)
     else
       (case io_write io target of
          Some e \<Rightarrow> Inl (EngDownloadFailed (''cannot write '' @ show_path target @ '': '' @ e))
        | None \<Rightarrow> Inr (),
        Some \<lparr>fw_path = target, fw_contents = contents, fw_executable = (relative = wanted)\<rparr>)))))))"

fun extract_loop :: "io_faults \<Rightarrow> fpath \<Rightarrow> string \<Rightarrow> nat \<Rightarrow> nat \<Rightarrow> zip_entry list \<Rightarrow>
    nat \<Rightarrow> nat \<Rightarrow> fpath option \<Rightarrow> file_write list \<Rightarrow> (engine_error + fpath option) \<times> file_write list" where
  "extract_loop io staging wanted cap total_cap [] index extracted executable writes =
     (Inr executable, writes)"
| "extract_loop io staging wanted cap total_cap (z # zs) index extracted executable writes =
     (case extract_entry io staging wanted cap total_cap index extracted z of
        (Inl e, None) \<Rightarrow> (Inl e, writes)
      | (Inl e, Some w) \<Rightarrow> (Inl e, writes @ [w])
      | (Inr _, None) \<Rightarrow> extract_loop io staging wanted cap total_cap zs (index + 1) extracted executable writes
      | (Inr _, Some w) \<Rightarrow>
          extract_loop io staging wanted cap total_cap zs (index + 1) (extracted + length (fw_contents w))
            (if fw_executable w then Some (fw_path w) else executable) (writes @ [w]))"

definition extract_archive_with_caps :: "io_faults \<Rightarrow> string \<Rightarrow> string \<Rightarrow> string \<Rightarrow>
    string + zip_entry list \<Rightarrow> fpath \<Rightarrow> nat \<Rightarrow> nat \<Rightarrow> (engine_error + installed_engine) \<times> file_write list" where
  "extract_archive_with_caps io os product version archive staging cap total_cap =
     (case archive of
        Inl e \<Rightarrow> (Inl (EngDownloadFailed (''engine zip is not readable: '' @ e)), [])
      | Inr entries \<Rightarrow>
          (let wanted = binary_name os product
           in case extract_loop io staging wanted cap total_cap entries 0 0 None [] of
                (Inl e, writes) \<Rightarrow> (Inl e, writes)
              | (Inr None, writes) \<Rightarrow>
                  (Inl (EngDownloadFailed (''engine zip does not contain '' @ quoted wanted @ '' (product '' @
                     quoted product @ '', version '' @ quoted version @ '')'')), writes)
              | (Inr (Some executable), writes) \<Rightarrow>
                  (Inr \<lparr>ie_product = product, ie_version = version, ie_executable = executable\<rparr>, writes)))"

definition apply_writes :: "file_write list \<Rightarrow> files \<Rightarrow> files" where
  "apply_writes ws fs = foldl (\<lambda>fs w. fs(fw_path w \<mapsto> fw_contents w)) fs ws"

section \<open>Installation\<close>

definition staging_name :: "string \<Rightarrow> nat \<Rightarrow> nat \<Rightarrow> string" where
  "staging_name version pid attempt =
     tmp_prefix @ version @ ''-'' @ show_nat pid @ ''-'' @ show_nat attempt"

definition install :: "io_faults \<Rightarrow> string \<Rightarrow> fpath \<Rightarrow> nat \<Rightarrow> nat \<Rightarrow> string \<Rightarrow> string \<Rightarrow>
    string + zip_entry list \<Rightarrow> files \<Rightarrow> (engine_error + installed_engine) \<times> files" where
  "install io os cache_root pid attempt product version archive fs =
     (case safe_component product of Inl e \<Rightarrow> (Inl e, fs) | Inr _ \<Rightarrow>
     if parse_version version = None
     then (Inl (EngDownloadFailed (''engine version is not dotted-numeric: '' @ quoted version)), fs)
     else
     (let final_dir = path_join (product_dir cache_root product) version;
          executable = path_join final_dir (binary_name os product);
          engine = \<lparr>ie_product = product, ie_version = version, ie_executable = executable\<rparr>;
          parent = butlast final_dir;
          staging = path_join parent (staging_name version pid attempt)
      in
     if is_file fs executable then (Inr engine, fs)
     else
     (case io_mkdir io staging of
        Some e \<Rightarrow>
          (Inl (EngDownloadFailed (''cannot create staging directory '' @ show_path staging @ '': '' @ e)), fs)
      | None \<Rightarrow>
     (case extract_archive_with_caps io os product version archive staging max_entry_bytes max_extracted_bytes of
        (Inl e, writes) \<Rightarrow> (Inl e, remove_dir_all staging (apply_writes writes fs))
      | (Inr _, writes) \<Rightarrow>
     (let fs' = io_others io (apply_writes writes fs) in
     (case io_mkdir io parent of
        Some e \<Rightarrow>
          (Inl (EngDownloadFailed (''cannot create cache directory '' @ show_path parent @ '': '' @ e)),
           remove_dir_all staging fs')
      | None \<Rightarrow>
     (case io_rename io of
        Some e \<Rightarrow>
          (let cleaned = remove_dir_all staging fs' in
           if is_file cleaned executable then (Inr engine, cleaned)
           else (Inl (EngDownloadFailed (''cannot move engine into place '' @ show_path staging @ '' -> '' @
                   show_path final_dir @ '': '' @ e)), cleaned))
      | None \<Rightarrow> (Inr engine, rename_dir staging final_dir fs'))))))))"

section \<open>Plain names\<close>

text \<open>A component that joins below a directory and stays there.\<close>

definition plain_component :: "string \<Rightarrow> bool" where
  "plain_component n \<longleftrightarrow> n \<noteq> [] \<and> n \<noteq> ''.'' \<and> n \<noteq> ''..'' \<and> CHR ''/'' \<notin> set n"

lemma path_parts_plain: "plain_component n \<Longrightarrow> path_parts n = [n]"
proof -
  assume n: "plain_component n"
  then have "\<And>c. c \<in> set n \<Longrightarrow> \<not> c = CHR ''/''"
    by (auto simp: plain_component_def)
  from split_on_none [of n "\<lambda>c. c = CHR ''/''", OF this] n show ?thesis
    by (simp add: path_parts_def plain_component_def)
qed

lemma path_join_plain [simp]: "plain_component n \<Longrightarrow> path_join d n = d @ [n]"
  by (cases n) (auto simp: path_join_def path_parts_plain, auto simp: plain_component_def)

lemma safe_component_plain: "safe_component n = Inr u \<Longrightarrow> plain_component n"
  by (auto simp: safe_component_def plain_component_def split: if_splits)

lemma all_some_Some: "all_some xs = Some ys \<Longrightarrow> x \<in> set xs \<Longrightarrow> \<exists>y. x = Some y"
  by (induction xs arbitrary: ys rule: all_some.induct) auto

lemma parse_version_pieces:
  assumes "parse_version v \<noteq> None" and "w \<in> set (split_on (\<lambda>c. c = CHR ''.'') v)"
  shows "\<exists>n. parse_uint u32_max w = Some n"
proof -
  obtain ns where "all_some (map (parse_uint u32_max) (split_on (\<lambda>c. c = CHR ''.'') v)) = Some ns"
    using assms(1) by (auto simp: parse_version_def)
  then show ?thesis
    by (rule all_some_Some) (use assms(2) in simp)
qed

lemma parse_version_bytes:
  assumes "parse_version v \<noteq> None" and "c \<in> set v"
  shows "is_digit c \<or> c = CHR ''+'' \<or> c = CHR ''.''"
proof (cases "c = CHR ''.''")
  case False
  then obtain w where w: "w \<in> set (split_on (\<lambda>c. c = CHR ''.'') v)" "c \<in> set w"
    using split_on_bytes [OF assms(2), of "\<lambda>c. c = CHR ''.''"] by blast
  obtain n where "parse_uint u32_max w = Some n"
    using parse_version_pieces [OF assms(1) w(1)] by blast
  from parse_uint_bytes [OF this w(2)] show ?thesis
    by blast
qed simp

lemma parse_version_plain:
  assumes "parse_version v \<noteq> None"
  shows "plain_component v"
proof -
  have "v \<noteq> []" "v \<noteq> ''.''" "v \<noteq> ''..''"
    using parse_version_pieces [OF assms] by (auto simp: parse_uint_def)
  moreover have "CHR ''/'' \<notin> set v"
    using parse_version_bytes [OF assms, of "CHR ''/''"] by (auto simp: is_digit_def)
  ultimately show ?thesis
    by (simp add: plain_component_def)
qed

lemma show_nat_no_slash: "CHR ''/'' \<notin> set (show_nat n)"
  using show_nat_only_digits [of "CHR ''/''" n] by (auto simp: is_digit_def)

lemma staging_name_plain: "parse_version v \<noteq> None \<Longrightarrow> plain_component (staging_name v pid k)"
  using parse_version_plain [of v] show_nat_no_slash
  by (auto simp: staging_name_def tmp_prefix_def plain_component_def)

lemma staging_not_version: "staging_name v pid k \<noteq> w" if "parse_version w \<noteq> None"
proof
  assume "staging_name v pid k = w"
  then have "CHR ''t'' \<in> set w"
    by (auto simp: staging_name_def tmp_prefix_def)
  from parse_version_bytes [OF that this] show False
    by (simp add: is_digit_def)
qed

section \<open>Archive entries stay inside\<close>

lemma split_on_finer:
  "(\<forall>w \<in> set (tl (split_on p s)). (\<forall>c \<in> set w. \<not> q c) \<longrightarrow> w \<in> set (tl (split_on (\<lambda>c. p c \<or> q c) s))) \<and>
   ((\<forall>c \<in> set (hd (split_on p s)). \<not> q c) \<longrightarrow> hd (split_on (\<lambda>c. p c \<or> q c) s) = hd (split_on p s))"
proof (induction s)
  case Nil
  show ?case by simp
next
  case (Cons c cs)
  obtain x xs where x: "split_on p cs = x # xs"
    by (cases "split_on p cs") auto
  obtain y ys where y: "split_on (\<lambda>c. p c \<or> q c) cs = y # ys"
    by (cases "split_on (\<lambda>c. p c \<or> q c) cs") auto
  show ?case
    using Cons x y by (cases "p c"; cases "q c") auto
qed

lemma split_on_finer_mem:
  assumes "w \<in> set (split_on p s)" and "\<forall>c \<in> set w. \<not> q c"
  shows "w \<in> set (split_on (\<lambda>c. p c \<or> q c) s)"
  using split_on_finer [of p s q] assms
  by (cases "split_on p s"; cases "split_on (\<lambda>c. p c \<or> q c) s") auto

lemma safe_join_inside:
  assumes "safe_join d relative = Inr target"
  shows "\<exists>parts. parts \<noteq> [] \<and> target = d @ parts \<and> list_all plain_component parts"
proof -
  let ?parts = "split_on (\<lambda>c. c = CHR ''/'') relative"
  from assms have ok: "\<not> hostile_path relative" and target: "target = path_join d relative"
    by (auto simp: safe_join_def Let_def split: if_splits)
  have plain: "plain_component w" if "w \<in> set ?parts" for w
  proof (cases "backslash \<in> set w")
    case True
    with split_on_pieces [OF that] show ?thesis
      by (auto simp: plain_component_def)
  next
    case False
    then have "w \<in> set (split_on is_separator relative)"
      using split_on_finer_mem [OF that, of "\<lambda>c. c = backslash"]
      unfolding is_separator_def [abs_def] by blast
    with ok split_on_pieces [OF that] show ?thesis
      by (auto simp: hostile_path_def list_all_iff plain_component_def)
  qed
  then have "path_parts relative = ?parts"
    by (auto simp: path_parts_def filter_id_conv plain_component_def)
  moreover have "hd relative \<noteq> CHR ''/''" "relative \<noteq> []"
    using ok by (auto simp: hostile_path_def is_separator_def)
  ultimately have "target = d @ ?parts"
    unfolding target path_join_def by simp
  with plain show ?thesis
    by (intro exI [of _ ?parts]) (simp add: list_all_iff)
qed

definition write_ok :: "fpath \<Rightarrow> nat \<Rightarrow> file_write \<Rightarrow> bool" where
  "write_ok staging cap w \<longleftrightarrow>
     length (fw_contents w) \<le> cap \<and>
     (\<exists>parts. parts \<noteq> [] \<and> fw_path w = staging @ parts \<and> list_all plain_component parts)"

lemma extract_entry_write:
  assumes "extract_entry io staging wanted cap total_cap index extracted z = (r, Some w)"
  shows "write_ok staging cap w" and "extracted + length (fw_contents w) \<le> total_cap"
    and "fw_executable w \<Longrightarrow> \<exists>relative. relative = wanted \<and> safe_join staging relative = Inr (fw_path w)"
  using assms safe_join_inside unfolding extract_entry_def write_ok_def
  by (auto simp: Let_def split: option.splits if_splits sum.splits)

definition written_bytes :: "file_write list \<Rightarrow> nat" where
  "written_bytes ws = sum_list (map (\<lambda>w. length (fw_contents w)) ws)"

lemma extract_loop_writes:
  assumes "extract_loop io staging wanted cap total_cap zs index extracted executable writes = (r, writes')"
    and "list_all (write_ok staging cap) writes" and "written_bytes writes = extracted"
    and "extracted \<le> total_cap"
  shows "list_all (write_ok staging cap) writes' \<and> written_bytes writes' \<le> total_cap"
  using assms
proof (induction zs arbitrary: index extracted executable writes)
  case Nil
  then show ?case by simp
next
  case (Cons z zs)
  show ?case
  proof (cases "extract_entry io staging wanted cap total_cap index extracted z")
    case (Pair res w)
    show ?thesis
    proof (cases w)
      case None
      with Pair Cons show ?thesis
        by (cases res) auto
    next
      case (Some w')
      note entry = extract_entry_write [OF Pair [unfolded Some]]
      have "list_all (write_ok staging cap) (writes @ [w'])"
        and "written_bytes (writes @ [w']) = extracted + length (fw_contents w')"
        using Cons.prems entry(1) by (simp_all add: written_bytes_def)
      then show ?thesis
        using Pair Some Cons.prems(1) Cons.IH [OF _ _ _ entry(2)] entry(2) by (cases res) auto
    qed
  qed
qed

text \<open>The executable the loop reports was written, at the wanted name.\<close>

lemma extract_loop_executable:
  assumes "extract_loop io staging wanted cap total_cap zs index extracted executable writes = (Inr (Some p), writes')"
    and "\<And>q. executable = Some q \<Longrightarrow> safe_join staging wanted = Inr q \<and> q \<in> fw_path ` set writes"
  shows "safe_join staging wanted = Inr p \<and> p \<in> fw_path ` set writes'"
  using assms
proof (induction zs arbitrary: index extracted executable writes)
  case Nil
  then show ?case by simp
next
  case (Cons z zs)
  show ?case
  proof (cases "extract_entry io staging wanted cap total_cap index extracted z")
    case (Pair res w)
    show ?thesis
    proof (cases w)
      case None
      with Pair Cons show ?thesis
        by (cases res) auto
    next
      case (Some w')
      note entry = extract_entry_write(3) [OF Pair [unfolded Some]]
      show ?thesis
      proof (cases res)
        case (Inr u)
        with Pair Some Cons.prems(1) have
          "extract_loop io staging wanted cap total_cap zs (index + 1) (extracted + length (fw_contents w'))
             (if fw_executable w' then Some (fw_path w') else executable) (writes @ [w']) = (Inr (Some p), writes')"
          by simp
        then show ?thesis
          by (rule Cons.IH) (use entry Cons.prems(2) in \<open>auto split: if_splits\<close>)
      qed (use Pair Some Cons.prems(1) in simp)
    qed
  qed
qed

section \<open>Installation stays in the product's directory\<close>

lemma written_file: "p \<in> fw_path ` set ws \<Longrightarrow> apply_writes ws fs p \<noteq> None"
proof (induction ws rule: rev_induct)
  case (snoc w ws)
  then show ?case by (auto simp: apply_writes_def)
qed simp

lemma untouched_file: "p \<notin> fw_path ` set ws \<Longrightarrow> apply_writes ws fs p = fs p"
proof (induction ws rule: rev_induct)
  case (snoc w ws)
  then show ?case by (auto simp: apply_writes_def)
qed (simp add: apply_writes_def)

lemma writes_under_staging:
  assumes "list_all (write_ok staging cap) ws" and "\<not> prefix staging p"
  shows "apply_writes ws fs p = fs p"
proof (rule untouched_file)
  show "p \<notin> fw_path ` set ws"
    using assms by (auto simp: list_all_iff write_ok_def)
qed

lemma extract_archive_cases:
  assumes "extract_archive_with_caps io os product version archive staging cap total_cap = (r, ws)"
  shows "list_all (write_ok staging cap) ws" and "written_bytes ws \<le> total_cap"
    and "r = Inr e \<Longrightarrow> safe_join staging (binary_name os product) = Inr (ie_executable e) \<and>
           ie_executable e \<in> fw_path ` set ws"
proof -
  have none: "list_all (write_ok staging cap) [] \<and> written_bytes [] \<le> total_cap"
    by (simp add: written_bytes_def)
  have loop: "list_all (write_ok staging cap) ws' \<and> written_bytes ws' \<le> total_cap"
    if "extract_loop io staging (binary_name os product) cap total_cap zs 0 0 None [] = (x, ws')" for zs x ws'
    using extract_loop_writes [OF that] none by (simp add: written_bytes_def)
  show "list_all (write_ok staging cap) ws" "written_bytes ws \<le> total_cap"
    using assms loop none unfolding extract_archive_with_caps_def
    by (auto simp: Let_def split: sum.splits prod.splits option.splits)
  show "safe_join staging (binary_name os product) = Inr (ie_executable e) \<and> ie_executable e \<in> fw_path ` set ws"
    if "r = Inr e"
    using assms that extract_loop_executable [of io staging "binary_name os product" cap total_cap _ 0 0 None "[]"]
    unfolding extract_archive_with_caps_def
    by (auto simp: Let_def split: sum.splits prod.splits option.splits)
qed

lemma binary_name_plain: "plain_component product \<Longrightarrow> plain_component (binary_name os product)"
  by (auto simp: binary_name_def plain_component_def)

lemma engines_plain: "plain_component ''engines''"
  by (simp add: plain_component_def)

lemma product_dir_plain: "plain_component product \<Longrightarrow> product_dir d product = d @ [''engines'', product]"
  by (simp add: product_dir_def engines_plain)

text \<open>
  What other processes do meanwhile stays within the product's directory too, and away from
  this process's own staging directory.
\<close>

definition others_confined :: "io_faults \<Rightarrow> fpath \<Rightarrow> fpath \<Rightarrow> bool" where
  "others_confined io dir staging \<longleftrightarrow>
     (\<forall>fs p. prefix staging p \<or> \<not> prefix dir p \<longrightarrow> io_others io fs p = fs p)"

lemma install_cases:
  assumes inst: "install io os cache_root pid k product version archive fs = (r, fs')"
    and others: "others_confined io (cache_root @ [''engines'', product])
      (cache_root @ [''engines'', product, staging_name version pid k])"
  shows "(\<forall>p. \<not> prefix (cache_root @ [''engines'', product]) p \<longrightarrow> fs' p = fs p) \<and>
    (\<forall>e. r = Inr e \<longrightarrow> ie_version e = version \<and>
       ie_executable e = cache_root @ [''engines'', product, version, binary_name os product] \<and>
       is_file fs' (ie_executable e))"
proof (cases "safe_component product")
  case (Inl e)
  with inst show ?thesis
    by (auto simp: install_def)
next
  case (Inr u)
  note plain = safe_component_plain [OF Inr]
  show ?thesis
  proof (cases "parse_version version")
    case None
    with inst Inr show ?thesis
      by (auto simp: install_def)
  next
    case (Some v)
    let ?dir = "cache_root @ [''engines'', product]"
    let ?bin = "binary_name os product"
    let ?staging = "cache_root @ [''engines'', product, staging_name version pid k]"
    let ?final = "cache_root @ [''engines'', product, version]"
    let ?exe = "cache_root @ [''engines'', product, version, ?bin]"
    note names = product_dir_plain [OF plain] binary_name_plain [OF plain] Let_def
      parse_version_plain [of version] staging_name_plain [of version pid k]
    have outside: "\<not> prefix ?staging p \<and> \<not> prefix ?final p" if "\<not> prefix ?dir p" for p
      using that by (auto simp: prefix_def)
    have others': "io_others io g p = g p" if "prefix ?staging p \<or> \<not> prefix ?dir p" for g p
      using others that unfolding others_confined_def by auto
    obtain x ws where ex: "extract_archive_with_caps io os product version archive ?staging
        max_entry_bytes max_extracted_bytes = (x, ws)"
      by (metis prod.exhaust)
    note extracted = extract_archive_cases [OF ex]
    have writes: "apply_writes ws fs p = fs p" if "\<not> prefix ?dir p" for p
      using writes_under_staging [OF extracted(1)] outside [OF that] by blast
    have moved: "is_file (rename_dir ?staging ?final (io_others io (apply_writes ws fs))) ?exe"
      if "x = Inr e" for e
    proof -
      have "ie_executable e = ?staging @ [?bin]"
        using extracted(3) [OF that] binary_name_plain [OF plain]
        by (auto simp: safe_join_def Let_def split: if_splits)
      then have "apply_writes ws fs (?staging @ [?bin]) \<noteq> None"
        using written_file extracted(3) [OF that] by metis
      then show ?thesis
        using others' [of "?staging @ [?bin]" "apply_writes ws fs"]
        by (simp add: is_file_def rename_dir_def)
    qed
    let ?engine = "\<lparr>ie_product = product, ie_version = version, ie_executable = ?exe\<rparr>"
    let ?fs' = "io_others io (apply_writes ws fs)"
    have steps: "(r = Inr ?engine \<and> is_file fs ?exe \<and> fs' = fs) \<or>
        ((\<exists>e. r = Inl e) \<and> fs' = fs) \<or>
        ((\<exists>e. r = Inl e) \<and> fs' = remove_dir_all ?staging (apply_writes ws fs)) \<or>
        ((\<exists>e. r = Inl e) \<and> fs' = remove_dir_all ?staging ?fs') \<or>
        (r = Inr ?engine \<and> fs' = remove_dir_all ?staging ?fs' \<and> is_file fs' ?exe) \<or>
        ((\<exists>e. x = Inr e) \<and> r = Inr ?engine \<and> fs' = rename_dir ?staging ?final ?fs')"
      using inst Inr Some by (cases x)
        (auto simp: install_def names butlast_append ex split: if_splits option.splits)
    have kept: "remove_dir_all ?staging g p = fs p" "rename_dir ?staging ?final g p = fs p"
      if "\<not> prefix ?dir p" "g = apply_writes ws fs \<or> g = ?fs'" for g p
      using that outside [OF that(1)] writes others' by (auto simp: remove_dir_all_def rename_dir_def)
    show ?thesis
      using steps kept moved by (elim disjE conjE exE) auto
  qed
qed

section \<open>Lookup finds the newest\<close>

text \<open>The versions a listing offers: names that parse and are not staging directories.\<close>

definition offered :: "(string + string option) list \<Rightarrow> string \<Rightarrow> bool" where
  "offered entries v \<longleftrightarrow> Inr (Some v) \<in> set entries \<and> parse_version v \<noteq> None"

lemma tmp_not_version: "parse_version v \<noteq> None \<Longrightarrow> \<not> prefix tmp_prefix v"
proof
  assume v: "parse_version v \<noteq> None" and "prefix tmp_prefix v"
  then have "CHR ''t'' \<in> set v"
    by (auto simp: prefix_def tmp_prefix_def)
  from parse_version_bytes [OF v this] show False
    by (simp add: is_digit_def)
qed

lemma cached_versions_set:
  "cached_versions dir entries = Inr vs \<Longrightarrow> set vs = {v. offered entries v}"
proof (induction dir entries arbitrary: vs rule: cached_versions.induct)
  case (4 dir v entries)
  then show ?case
    using tmp_not_version [of v] by (auto simp: offered_def rbind_Inr_iff split: if_splits)
qed (auto simp: offered_def)

lemma find_Some_split: "find P xs = Some x \<Longrightarrow> \<exists>ys zs. xs = ys @ x # zs \<and> P x \<and> (\<forall>y \<in> set ys. \<not> P y)"
proof (induction xs)
  case (Cons a xs)
  show ?case
  proof (cases "P a")
    case True
    with Cons.prems show ?thesis by (intro exI [of _ "[]"] exI [of _ xs]) simp
  next
    case False
    with Cons obtain ys zs where "xs = ys @ x # zs" "P x" "\<forall>y \<in> set ys. \<not> P y"
      by auto
    with False show ?thesis by (intro exI [of _ "a # ys"] exI [of _ zs]) simp
  qed
qed simp

lemma find_newest:
  fixes key :: "'a \<Rightarrow> 'k::linorder"
  assumes "find P (rev (sort_key key xs)) = Some x"
  shows "x \<in> set xs \<and> P x \<and> (\<forall>y \<in> set xs. P y \<longrightarrow> key y \<le> key x)"
proof -
  obtain ys zs where *: "rev (sort_key key xs) = ys @ x # zs" "P x" "\<forall>y \<in> set ys. \<not> P y"
    using find_Some_split [OF assms] by blast
  then have sorted: "sort_key key xs = rev zs @ x # rev ys"
    by (metis append.assoc append_Cons append_Nil rev.simps(2) rev_append rev_rev_ident)
  have "sorted (map key (rev zs @ x # rev ys))"
    using sorted_sort_key [of key xs] sorted by simp
  then have "key y \<le> key x" if "y \<in> set zs" for y
    using that by (auto simp: sorted_append)
  moreover have "set xs = set zs \<union> {x} \<union> set ys"
    using sorted by (metis set_sort set_append set_rev list.simps(15) Un_insert_right sup_bot.right_neutral Un_insert_left)
  ultimately show ?thesis
    using * by auto
qed

lemma installed_Some:
  assumes "installed os cache_root fs (DirEntries entries) product = Inr (Some e)"
  shows "offered entries (ie_version e)" and "ie_product e = product"
    and "ie_executable e = cache_root @ [''engines'', product, ie_version e, binary_name os product]"
    and "is_file fs (ie_executable e)"
    and "\<And>v. offered entries v \<Longrightarrow>
      is_file fs (cache_root @ [''engines'', product, v, binary_name os product]) \<Longrightarrow>
      version_key v \<le> version_key (ie_version e)"
proof -
  have plain: "plain_component product"
    using assms by (auto simp: installed_def rbind_Inr_iff dest: safe_component_plain)
  let ?dir = "cache_root @ [''engines'', product]"
  let ?exe = "\<lambda>v. path_join (path_join ?dir v) (binary_name os product)"
  obtain vs where vs: "cached_versions ?dir entries = Inr vs"
    and found: "find (\<lambda>v. is_file fs (?exe v)) (rev (sort_key version_key vs)) = Some (ie_version e)"
    and e: "ie_product e = product" "ie_executable e = ?exe (ie_version e)"
    using assms product_dir_plain [OF plain] by (auto simp: installed_def rbind_Inr_iff Let_def)
  have exe: "?exe v = cache_root @ [''engines'', product, v, binary_name os product]" if "offered entries v" for v
    using that parse_version_plain binary_name_plain [OF plain] by (simp add: offered_def)
  note newest = find_newest [OF found] and offers = cached_versions_set [OF vs]
  show off: "offered entries (ie_version e)"
    using newest offers by auto
  show "ie_product e = product"
    by (rule e)
  show "ie_executable e = cache_root @ [''engines'', product, ie_version e, binary_name os product]"
    using e(2) exe [OF off] by simp
  show "is_file fs (ie_executable e)"
    using newest e(2) by simp
  show "version_key v \<le> version_key (ie_version e)"
    if "offered entries v" "is_file fs (cache_root @ [''engines'', product, v, binary_name os product])" for v
    using newest offers that exe [OF that(1)] by auto
qed

lemma installed_file:
  assumes "installed os cache_root fs listing product = Inr (Some e)"
  shows "is_file fs (ie_executable e)"
  using assms installed_Some(4) by (cases listing) (auto simp: installed_def rbind_Inr_iff Let_def)

section \<open>The front door\<close>

text \<open>
  What \<open>ensure\<close> meets: the file system and the product's listing at the first look and,
  after the manifest was fetched, at the second; the HTTP client per URL; the JSON and zip
  readers.
\<close>

record ensure_env =
  en_os :: string
  en_arch :: string
  en_manifest_override :: "string option"
  en_files :: files
  en_listing :: read_dir_result
  en_later_files :: files
  en_later_listing :: read_dir_result
  en_client_error :: "string option"
  en_send :: "string \<Rightarrow> nat \<Rightarrow> send_outcome"
  en_parse_json :: "string \<Rightarrow> string + json"
  en_unzip :: "string \<Rightarrow> string + zip_entry list"
  en_io :: io_faults
  en_pid :: nat
  en_attempt :: nat

definition download_and_install ::
  "ensure_env \<Rightarrow> product \<Rightarrow> fpath \<Rightarrow> engine_artifact \<Rightarrow> (engine_error + installed_engine) \<times> files" where
  "download_and_install env product cache_root artifact =
     (case fetch_bytes (en_client_error env) (en_send env (ea_url artifact)) (ea_url artifact) of
        Inl e \<Rightarrow> (Inl e, en_later_files env)
      | Inr bytes \<Rightarrow>
          install (en_io env) (en_os env) cache_root (en_pid env) (en_attempt env) (product_name product)
            (ea_version artifact) (en_unzip env bytes) (en_later_files env))"

definition ensure :: "ensure_env \<Rightarrow> product \<Rightarrow> fpath \<Rightarrow> fpath option \<Rightarrow>
    (engine_error + installed_engine) \<times> files" where
  "ensure env product cache_root explicit =
     (case explicit of
        Some path \<Rightarrow>
          (if is_file (en_files env) path
           then (Inr \<lparr>ie_product = ''external'', ie_version = ''external'', ie_executable = path\<rparr>, en_files env)
           else (Inl (EngDownloadFailed (''engine executable '' @ quoted (show_path path) @ '' does not exist'')),
                 en_files env))
      | None \<Rightarrow>
     (let name = product_name product in
     (case installed (en_os env) cache_root (en_files env) (en_listing env) name of
        Inl e \<Rightarrow> (Inl e, en_files env)
      | Inr (Some engine) \<Rightarrow> (Inr engine, en_files env)
      | Inr None \<Rightarrow>
     (let artifact =
            rbind (platform_for_host (en_os env) (en_arch env)) (\<lambda>platform.
            (let url = resolve_manifest_url (en_manifest_override env)
             in rbind (fetch_json (en_parse_json env) (en_client_error env) (en_send env url) url) (\<lambda>manifest.
                  parse_stable_artifact manifest name platform)))
      in case artifact of
        Inl e \<Rightarrow> (Inl e, en_files env)
      | Inr artifact \<Rightarrow>
     (case installed (en_os env) cache_root (en_later_files env) (en_later_listing env) name of
        Inl e \<Rightarrow> (Inl e, en_later_files env)
      | Inr (Some engine) \<Rightarrow>
          (if ie_version engine = ea_version artifact then (Inr engine, en_later_files env)
           else download_and_install env product cache_root artifact)
      | Inr None \<Rightarrow> download_and_install env product cache_root artifact)))))"

section \<open>Properties\<close>

text \<open>
  C12. Extraction is confined and bounded whatever the archive holds: every file it writes
  lies strictly below the staging directory, behind components that are plain names, no
  write is longer than the entry cap, and all writes together stay within the total cap,
  counted over the bytes actually decompressed.
\<close>

theorem extraction_confined_and_capped:
  assumes "extract_archive_with_caps io os product version archive staging cap total_cap = (r, ws)"
  shows "(\<forall>w \<in> set ws. length (fw_contents w) \<le> cap \<and>
      (\<exists>parts. parts \<noteq> [] \<and> fw_path w = staging @ parts \<and>
         (\<forall>n \<in> set parts. n \<noteq> [] \<and> n \<noteq> ''.'' \<and> n \<noteq> ''..'' \<and> CHR ''/'' \<notin> set n))) \<and>
    sum_list (map (\<lambda>w. length (fw_contents w)) ws) \<le> total_cap"
  using extract_archive_cases(1,2) [OF assms]
  by (auto simp: list_all_iff write_ok_def plain_component_def written_bytes_def)

definition quiet_io :: io_faults where
  "quiet_io = \<lparr>io_mkdir = (\<lambda>_. None), io_write = (\<lambda>_. None), io_rename = None, io_others = (\<lambda>fs. fs)\<rparr>"

definition sample_entry :: "string \<Rightarrow> string \<Rightarrow> zip_entry" where
  "sample_entry name data =
     \<lparr>ze_unreadable = None, ze_is_dir = False, ze_name = Inr name, ze_data = data, ze_fails_at = None\<rparr>"

theorem extraction_confined_and_capped_witness:
  "extract_archive_with_caps quiet_io ''linux'' ''chrome'' ''1''
     (Inr [sample_entry ''top/chrome'' ''ELF'', sample_entry ''top/../evil'' ''x'']) [''stage''] 10 20 =
   (Inl (EngDownloadFailed (''engine zip contains a hostile path entry: '' @ quoted ''../evil'')),
    [\<lparr>fw_path = [''stage'', ''chrome''], fw_contents = ''ELF'', fw_executable = True\<rparr>]) \<and>
   length ''ELF'' \<le> (10::nat)"
proof -
  have run: "extract_archive_with_caps quiet_io ''linux'' ''chrome'' ''1''
     (Inr [sample_entry ''top/chrome'' ''ELF'', sample_entry ''top/../evil'' ''x'']) [''stage''] 10 20 =
   (Inl (EngDownloadFailed (''engine zip contains a hostile path entry: '' @ quoted ''../evil'')),
    [\<lparr>fw_path = [''stage'', ''chrome''], fw_contents = ''ELF'', fw_executable = True\<rparr>])"
    by (simp add: extract_archive_with_caps_def extract_entry_def sample_entry_def quiet_io_def binary_name_def
        flatten_name_def is_separator_def safe_join_def hostile_path_def path_join_def path_parts_def
        entry_read_def saturating_add_u64_def u64_max_def quoted_def Let_def)
  from extraction_confined_and_capped [OF run] run show ?thesis
    by simp
qed

text \<open>
  Installing touches one directory: whatever the archive and the version string from the
  manifest are, no file outside \<open>engines/<product>\<close> under the cache root changes, and an
  install that succeeds answers the binary of exactly this product and version, which is
  there. Other processes are assumed to keep to the product's directory and out of this
  process's staging directory.
\<close>

theorem install_confined:
  assumes "install io os cache_root pid k product version archive fs = (r, fs')"
    and "others_confined io (cache_root @ [''engines'', product])
      (cache_root @ [''engines'', product, staging_name version pid k])"
  shows "(\<forall>p. \<not> prefix (cache_root @ [''engines'', product]) p \<longrightarrow> fs' p = fs p) \<and>
    (\<forall>e. r = Inr e \<longrightarrow>
       ie_executable e = cache_root @ [''engines'', product, version, binary_name os product] \<and>
       is_file fs' (ie_executable e))"
  using install_cases [OF assms] by blast

lemma quiet_confined: "others_confined quiet_io dir staging"
  by (simp add: others_confined_def quiet_io_def)

theorem install_confined_witness:
  "\<exists>fs'. install quiet_io ''linux'' [''cache''] 7 0 ''chrome'' ''../1'' (Inr []) (Map.empty([''etc''] \<mapsto> ''x'')) =
       (Inl (EngDownloadFailed (''engine version is not dotted-numeric: '' @ quoted ''../1'')), fs') \<and>
     fs' [''etc''] = Some ''x''"
proof -
  have run: "install quiet_io ''linux'' [''cache''] 7 0 ''chrome'' ''../1'' (Inr []) (Map.empty([''etc''] \<mapsto> ''x'')) =
      (Inl (EngDownloadFailed (''engine version is not dotted-numeric: '' @ quoted ''../1'')), Map.empty([''etc''] \<mapsto> ''x''))"
    by (simp add: install_def safe_component_def parse_version_def parse_uint_def is_digit_def)
  from install_confined [OF run quiet_confined] run show ?thesis
    by auto
qed

text \<open>
  The cache answers the newest usable version: what \<open>installed\<close> finds is a listed
  version directory with its binary in place, and no listed version with its binary in
  place is higher in the order of its numeric components.
\<close>

theorem installed_is_newest:
  assumes "installed os cache_root fs (DirEntries entries) product = Inr (Some e)"
  shows "Inr (Some (ie_version e)) \<in> set entries \<and> is_file fs (ie_executable e) \<and>
    (\<forall>v. Inr (Some v) \<in> set entries \<and> parse_version v \<noteq> None \<and>
         is_file fs (cache_root @ [''engines'', product, v, binary_name os product]) \<longrightarrow>
       version_key v \<le> version_key (ie_version e))"
  using installed_Some [OF assms] by (simp add: offered_def)

theorem installed_is_newest_witness:
  "\<exists>e. installed ''linux'' [''c'']
        (\<lambda>p. if p \<in> {[''c'', ''engines'', ''chrome'', v, ''chrome''] | v. v \<in> {''9.1'', ''10.0''}} then Some ''ELF'' else None)
        (DirEntries [Inr (Some ''9.1''), Inr (Some ''10.0''), Inr None, Inr (Some ''.tmp-11'')]) ''chrome'' = Inr (Some e) \<and>
      ie_version e = ''10.0'' \<and> version_key ''9.1'' \<le> version_key ''10.0''"
proof -
  let ?fs = "\<lambda>p. if p \<in> {[''c'', ''engines'', ''chrome'', v, ''chrome''] | v. v \<in> {''9.1'', ''10.0''}} then Some ''ELF'' else None"
  let ?e = "\<lparr>ie_product = ''chrome'', ie_version = ''10.0'', ie_executable = [''c'', ''engines'', ''chrome'', ''10.0'', ''chrome'']\<rparr>"
  have run: "installed ''linux'' [''c''] ?fs
      (DirEntries [Inr (Some ''9.1''), Inr (Some ''10.0''), Inr None, Inr (Some ''.tmp-11'')]) ''chrome'' = Inr (Some ?e)"
    by (simp add: installed_def safe_component_def product_dir_def path_join_def path_parts_def tmp_prefix_def
        parse_version_def parse_uint_def is_digit_def u32_max_def digits_val_def digit_val_def version_key_def
        is_file_def binary_name_def less_eq_engine_version_def Let_def)
  from installed_is_newest [OF run] show ?thesis
    using run by (auto simp: is_file_def parse_version_def parse_uint_def is_digit_def u32_max_def digits_val_def
        digit_val_def binary_name_def)
qed

text \<open>
  What \<open>ensure\<close> answers can be launched: whichever way it went (the caller's path, the
  cache, a concurrent install, or a download), the executable it names is a file.
\<close>

theorem ensure_answers_a_file:
  assumes "ensure env product cache_root explicit = (Inr e, fs)"
    and "\<And>version. others_confined (en_io env) (cache_root @ [''engines'', product_name product])
      (cache_root @ [''engines'', product_name product, staging_name version (en_pid env) (en_attempt env)])"
  shows "is_file fs (ie_executable e)"
proof -
  have down: "is_file fs (ie_executable e)"
    if "download_and_install env product cache_root artifact = (Inr e, fs)" for artifact
    using that install_cases assms(2) by (fastforce simp: download_and_install_def split: sum.splits)
  show ?thesis
    using assms(1) installed_file down
    by (auto simp: ensure_def Let_def split: option.splits if_splits sum.splits)
qed

definition sample_env :: "files \<Rightarrow> ensure_env" where
  "sample_env fs = \<lparr>en_os = ''linux'', en_arch = ''x86_64'', en_manifest_override = None, en_files = fs,
     en_listing = DirMissing, en_later_files = fs, en_later_listing = DirMissing, en_client_error = None,
     en_send = (\<lambda>url k. Responded None [Chunk ''body'']),
     en_parse_json = (\<lambda>_. Inr (sample_manifest ''https://storage.googleapis.com/chrome.zip'')),
     en_unzip = (\<lambda>_. Inr [sample_entry ''top/chrome'' ''ELF'']), en_io = quiet_io, en_pid = 7, en_attempt = 0\<rparr>"

theorem ensure_answers_a_file_witness:
  "is_file (Map.empty([''usr'', ''chromium''] \<mapsto> ''ELF'')) [''usr'', ''chromium'']"
proof -
  have "ensure (sample_env (Map.empty([''usr'', ''chromium''] \<mapsto> ''ELF''))) Chrome [''cache''] (Some [''usr'', ''chromium'']) =
      (Inr \<lparr>ie_product = ''external'', ie_version = ''external'', ie_executable = [''usr'', ''chromium'']\<rparr>,
       Map.empty([''usr'', ''chromium''] \<mapsto> ''ELF''))"
    by (simp add: ensure_def sample_env_def is_file_def)
  from ensure_answers_a_file [OF this] show ?thesis
    by (simp add: sample_env_def quiet_confined)
qed

end
