(* ===== verification/Observe_Snapshot.thy ===== *)
theory Observe_Snapshot
  imports Core
begin

text \<open>
  The snapshot builder, \<open>crates/observe/src/snapshot_builder/mod.rs\<close>: from the JSON tree a
  page's serializer reports to a snapshot within the character budget, in the order of the
  code: conversion, depth cut, folding of sibling runs, measuring, fitting. A tree node is
  its own record and its children; the build state is threaded through every step.
\<close>

definition max_depth :: nat where "max_depth = 512"
definition max_nodes :: nat where "max_nodes = 100000"
definition budget_depth :: nat where "budget_depth = 48"
definition default_budget_chars :: nat where "default_budget_chars = 20000"
definition fold_run_min :: nat where "fold_run_min = 8"
definition viewport_margin_px :: f64 where "viewport_margin_px = 200"
definition fold_size_min_chars :: nat where "fold_size_min_chars = 400"
definition max_role_chars :: nat where "max_role_chars = 64"
definition max_ref_chars :: nat where "max_ref_chars = 64"
definition max_text_chars :: nat where "max_text_chars = 200"

record page_meta =
  pm_viewport_height :: "f64 option"

definition in_viewport :: "page_meta \<Rightarrow> f64 \<Rightarrow> f64 \<Rightarrow> bool" where
  "in_viewport meta page_y height =
     (case pm_viewport_height meta of
        None \<Rightarrow> True
      | Some viewport_height \<Rightarrow>
          page_y \<le> viewport_height + viewport_margin_px \<and> - viewport_margin_px \<le> page_y + height)"

record raw_info =
  ri_role :: string
  ri_name :: "string option"
  ri_value :: "string option"
  ri_reference :: "reference option"
  ri_checked :: "bool option"
  ri_disabled :: bool
  ri_folded_count :: "nat option"
  ri_page_y :: f64
  ri_height :: f64
  ri_size :: nat

datatype raw_node = RawNode (rn_info: raw_info) (rn_children: "raw_node list")

record build_state =
  bs_nodes :: nat
  bs_truncated :: bool

definition flag :: "build_state \<Rightarrow> build_state" where
  "flag st = st\<lparr>bs_truncated := True\<rparr>"

definition leaf_info :: "string \<Rightarrow> raw_info" where
  "leaf_info role = \<lparr>ri_role = role, ri_name = None, ri_value = None, ri_reference = None, ri_checked = None,
     ri_disabled = False, ri_folded_count = None, ri_page_y = 0, ri_height = 0, ri_size = 0\<rparr>"

definition leaf_raw :: "string \<Rightarrow> raw_node" where
  "leaf_raw role = RawNode (leaf_info role) []"

section \<open>Conversion\<close>

definition clamp_string :: "string \<Rightarrow> nat \<Rightarrow> build_state \<Rightarrow> string \<times> build_state" where
  "clamp_string s limit st =
     (if chars_count s \<le> limit then (s, st) else (chars_take limit s, flag st))"

definition clamp_option :: "string option \<Rightarrow> nat \<Rightarrow> build_state \<Rightarrow> string option \<times> build_state" where
  "clamp_option v limit st =
     (case v of None \<Rightarrow> (None, st) | Some s \<Rightarrow> (case clamp_string s limit st of (s', st') \<Rightarrow> (Some s', st')))"

definition string_field :: "(string \<times> json) list \<Rightarrow> string \<Rightarrow> string option" where
  "string_field fs field = Option.bind (obj_get fs field) as_str"

definition role_of :: "(string \<times> json) list \<Rightarrow> string" where
  "role_of fs = unwrap_or (string_field fs ''role'') ''generic''"

definition rect_of :: "(string \<times> json) list \<Rightarrow> f64 \<times> f64" where
  "rect_of fs =
     (case Option.bind (obj_get fs ''rect'') as_object of
        None \<Rightarrow> (0, 0)
      | Some rect \<Rightarrow> (unwrap_or (Option.bind (obj_get rect ''y'') as_f64) 0,
                      unwrap_or (Option.bind (obj_get rect ''height'') as_f64) 0))"

text \<open>The node itself, its fields clamped in the order of the code.\<close>

definition convert_info :: "(string \<times> json) list \<Rightarrow> build_state \<Rightarrow> raw_info \<times> build_state" where
  "convert_info fs st =
     (let (page_y, height) = rect_of fs;
          (role, st1) = clamp_string (role_of fs) max_role_chars st;
          (name, st2) = clamp_option (string_field fs ''name'') max_text_chars st1;
          (val, st3) = clamp_option (string_field fs ''value'') max_text_chars st2;
          (ref, st4) = clamp_option (string_field fs ''ref'') max_ref_chars st3
      in (\<lparr>ri_role = role, ri_name = name, ri_value = val, ri_reference = map_option Reference ref,
           ri_checked = Option.bind (obj_get fs ''checked'') as_bool,
           ri_disabled = unwrap_or (Option.bind (obj_get fs ''disabled'') as_bool) False,
           ri_folded_count = None, ri_page_y = page_y, ri_height = height, ri_size = 0\<rparr>, st4))"

text \<open>
  \<open>convert\<close> recurses at most \<open>MAX_DEPTH\<close> levels, which is also why it ends; the items of a
  \<open>children\<close> array are converted until the node cap is reached.
\<close>

function (sequential) convert :: "json \<Rightarrow> nat \<Rightarrow> build_state \<Rightarrow> raw_node \<times> build_state"
  and convert_items :: "json list \<Rightarrow> nat \<Rightarrow> build_state \<Rightarrow> raw_node list \<times> build_state" where
  "convert v depth st =
     (let st = st\<lparr>bs_nodes := bs_nodes st + 1\<rparr> in
     (case as_object v of
        None \<Rightarrow> (leaf_raw ''generic'', flag st)
      | Some fs \<Rightarrow>
          (if max_depth \<le> depth then (leaf_raw (role_of fs), flag st)
           else
             (case convert_info fs st of (info, st) \<Rightarrow>
             (case obj_get fs ''children'' of
                None \<Rightarrow> (RawNode info [], st)
              | Some (JArr items) \<Rightarrow>
                  (case convert_items items (depth + 1) st of (children, st) \<Rightarrow> (RawNode info children, st))
              | Some JNull \<Rightarrow> (RawNode info [], st)
              | Some _ \<Rightarrow> (RawNode info [], flag st))))))"
| "convert_items [] depth st = ([], st)"
| "convert_items (item # items) depth st =
     (if max_nodes \<le> bs_nodes st then ([], flag st)
      else
        (case convert item depth st of (node, st) \<Rightarrow>
        (case convert_items items depth st of (nodes, st) \<Rightarrow> (node # nodes, st))))"
  by pat_completeness auto
termination
  by (relation "inv_image (less_than <*lex*> less_than)
      (\<lambda>x. case x of Inl (v, depth, st) \<Rightarrow> (Suc max_depth - depth, 0)
                   | Inr (items, depth, st) \<Rightarrow> (Suc max_depth - depth, Suc (length items)))") auto

declare convert.simps [simp del]

section \<open>Depth cut and sibling folding\<close>

fun cut_depth :: "nat \<Rightarrow> raw_node \<Rightarrow> build_state \<Rightarrow> raw_node \<times> build_state"
  and cut_depth_list :: "nat \<Rightarrow> raw_node list \<Rightarrow> build_state \<Rightarrow> raw_node list \<times> build_state" where
  "cut_depth 0 (RawNode info children) st =
     (RawNode info [], if children \<noteq> [] then flag st else st)"
| "cut_depth (Suc d) (RawNode info children) st =
     (case cut_depth_list d children st of (children', st') \<Rightarrow> (RawNode info children', st'))"
| "cut_depth_list d [] st = ([], st)"
| "cut_depth_list d (n # ns) st =
     (case cut_depth d n st of (n', st) \<Rightarrow>
     (case cut_depth_list d ns st of (ns', st) \<Rightarrow> (n' # ns', st)))"

definition foldable :: "raw_node \<Rightarrow> bool" where
  "foldable n \<longleftrightarrow> ri_name (rn_info n) = None \<and> ri_reference (rn_info n) = None"

definition u32_of :: "nat \<Rightarrow> nat" where
  "u32_of n = n mod (u32_max + 1)"

definition run_summary :: "raw_node list \<Rightarrow> raw_node" where
  "run_summary run =
     (let head = rn_info (hd run)
      in RawNode ((leaf_info '''')
           \<lparr>ri_role := ri_role head, ri_page_y := ri_page_y head,
            ri_height := foldl (\<lambda>mx n. max mx (ri_height (rn_info n))) 0 run,
            ri_folded_count := Some (u32_of (length run))\<rparr>) [])"

text \<open>\<open>flush_run\<close>: the finished run is appended to what was emitted; the run is empty after.\<close>

definition flush_run :: "raw_node list \<Rightarrow> raw_node list \<Rightarrow> build_state \<Rightarrow> raw_node list \<times> build_state" where
  "flush_run run out st =
     (if run = [] then (out, st)
      else if fold_run_min \<le> length run then (out @ [run_summary run], flag st)
      else (out @ run, st))"

definition joins_run :: "raw_node \<Rightarrow> raw_node list \<Rightarrow> bool" where
  "joins_run child run \<longleftrightarrow>
     foldable child \<and> run \<noteq> [] \<and> ri_role (rn_info (last run)) = ri_role (rn_info child)"

fun fold_sibling_runs :: "raw_node \<Rightarrow> build_state \<Rightarrow> raw_node \<times> build_state"
  and fold_children :: "raw_node list \<Rightarrow> raw_node list \<Rightarrow> raw_node list \<Rightarrow> build_state \<Rightarrow>
    raw_node list \<times> build_state" where
  "fold_sibling_runs (RawNode info children) st =
     (case fold_children children [] [] st of (children', st') \<Rightarrow> (RawNode info children', st'))"
| "fold_children [] processed run st = flush_run run processed st"
| "fold_children (child # children) processed run st =
     (case fold_sibling_runs child st of (child, st) \<Rightarrow>
     (case (if \<not> joins_run child run then (case flush_run run processed st of (out, st) \<Rightarrow> (out, [], st))
            else (processed, run, st)) of
        (processed, run, st) \<Rightarrow>
          (if \<not> foldable child then fold_children children (processed @ [child]) run st
           else fold_children children processed (run @ [child]) st)))"

section \<open>Measuring and fitting\<close>

definition line_len :: "raw_info \<Rightarrow> nat \<Rightarrow> nat" where
  "line_len n depth =
     2 * depth + 2 + chars_count (ri_role n)
     + (case ri_name n of None \<Rightarrow> 0
        | Some name \<Rightarrow> 3 + chars_count name + length (filter (\<lambda>c. c = quote_char) name))
     + (if ri_checked n = Some True then length '' [checked]'' else 0)
     + (if ri_disabled n then length '' [disabled]'' else 0)
     + (case ri_reference n of None \<Rightarrow> 0 | Some r \<Rightarrow> length '' [ref='' + chars_count (ref_str r) + 1)
     + (case ri_folded_count n of None \<Rightarrow> 0 | Some count \<Rightarrow> 3 + length (show_nat count))
     + 1"

fun measure_node :: "raw_node \<Rightarrow> nat \<Rightarrow> raw_node" where
  "measure_node (RawNode info children) depth =
     (let children' = map (\<lambda>c. measure_node c (depth + 1)) children
      in RawNode (info\<lparr>ri_size := line_len info depth + sum_list (map (\<lambda>c. ri_size (rn_info c)) children')\<rparr>)
           children')"

fun count_nodes :: "raw_node \<Rightarrow> nat" where
  "count_nodes (RawNode info children) = 1 + sum_list (map count_nodes children)"

definition fold_subtree :: "raw_node \<Rightarrow> nat \<Rightarrow> raw_node" where
  "fold_subtree n depth =
     (let info = (rn_info n)\<lparr>ri_folded_count := Some (u32_of (count_nodes n - 1))\<rparr>
      in RawNode (info\<lparr>ri_size := line_len info depth\<rparr>) [])"

text \<open>
  \<open>fit\<close> answers the node and its size; \<open>fit_child\<close> is the body of its loop, which keeps a
  child with the size it takes or drops it; \<open>fit_children\<close> is the loop, with the budget
  that remains and the size kept so far.
\<close>

function (sequential) fit :: "raw_node \<Rightarrow> nat \<Rightarrow> nat \<Rightarrow> page_meta \<Rightarrow> build_state \<Rightarrow> (raw_node \<times> nat) \<times> build_state"
  and fit_child :: "raw_node \<Rightarrow> nat \<Rightarrow> nat \<Rightarrow> page_meta \<Rightarrow> build_state \<Rightarrow> (raw_node \<times> nat) option \<times> build_state"
  and fit_children :: "raw_node list \<Rightarrow> nat \<Rightarrow> nat \<Rightarrow> nat \<Rightarrow> page_meta \<Rightarrow> build_state \<Rightarrow>
    (raw_node list \<times> nat) \<times> build_state" where
  "fit (RawNode info children) depth budget meta st =
     (let own = line_len info depth in
      if budget \<le> own
      then ((RawNode (info\<lparr>ri_size := own\<rparr>) [], own), if children \<noteq> [] then flag st else st)
      else if children \<noteq> [] \<and> \<not> in_viewport meta (ri_page_y info) (ri_height info)
              \<and> fold_size_min_chars < ri_size info
      then (let folded = fold_subtree (RawNode info children) depth
            in ((folded, ri_size (rn_info folded)), flag st))
      else (case fit_children children depth (budget - own) 0 meta st of
              ((kept, kept_size), st) \<Rightarrow>
                ((RawNode (info\<lparr>ri_size := own + kept_size\<rparr>) kept, own + kept_size), st)))"
| "fit_child child depth remaining meta st =
     (let info = rn_info child;
          child_size = ri_size info;
          child_line = line_len info (depth + 1);
          out_of_view = (\<not> in_viewport meta (ri_page_y info) (ri_height info)) in
      if out_of_view \<and> fold_size_min_chars < child_size \<and> rn_children child \<noteq> []
      then (let folded = fold_subtree child (depth + 1);
                summary_line = line_len (rn_info folded) (depth + 1)
            in (if summary_line \<le> remaining then Some (folded, summary_line) else None, flag st))
      else if child_size \<le> remaining then (Some (child, child_size), st)
      else if rn_children child = [] \<or> remaining \<le> child_line then (None, flag st)
      else (case fit child (depth + 1) remaining meta st of
              ((fitted, used), st) \<Rightarrow>
                (if remaining < used then (None, flag st) else (Some (fitted, used), st))))"
| "fit_children [] depth remaining kept_size meta st = (([], kept_size), st)"
| "fit_children (child # children) depth remaining kept_size meta st =
     (case fit_child child depth remaining meta st of
        (None, st) \<Rightarrow> fit_children children depth remaining kept_size meta st
      | (Some (c, used), st) \<Rightarrow>
          (case fit_children children depth (remaining - used) (kept_size + used) meta st of
             ((kept, sz), st) \<Rightarrow> ((c # kept, sz), st)))"
  by pat_completeness auto
termination
  by (relation "measure (\<lambda>x. case x of
        Inl (n, _) \<Rightarrow> 3 * size n
      | Inr (Inl (c, _)) \<Rightarrow> 3 * size c + 1
      | Inr (Inr (ns, _)) \<Rightarrow> 3 * size_list size ns + 2)") auto

section \<open>The builder\<close>

fun into_snapshot_node :: "raw_node \<Rightarrow> snapshot_node" where
  "into_snapshot_node (RawNode info children) =
     SnapshotNode (ri_role info) (ri_name info) (ri_value info) (ri_reference info) (ri_checked info)
       (ri_disabled info) (ri_folded_count info) (map into_snapshot_node children)"

definition rename_root :: "raw_node \<Rightarrow> raw_node" where
  "rename_root raw =
     (if ri_role (rn_info raw) = ''root''
      then RawNode ((rn_info raw)\<lparr>ri_role := ''generic''\<rparr>) (rn_children raw) else raw)"

definition build :: "string \<Rightarrow> page_meta \<Rightarrow> json \<Rightarrow> snapshot" where
  "build url meta tree =
     (case convert tree 0 \<lparr>bs_nodes = 0, bs_truncated = False\<rparr> of (raw, st) \<Rightarrow>
     (case cut_depth budget_depth (rename_root raw) st of (raw, st) \<Rightarrow>
     (case fold_sibling_runs raw st of (raw, st) \<Rightarrow>
     (case fit (measure_node raw 0) 0 default_budget_chars meta st of ((raw, _), st) \<Rightarrow>
       \<lparr>snap_url = url, snap_root = into_snapshot_node raw, snap_truncated = bs_truncated st\<rparr>))))"

section \<open>Sizes are rendered lengths\<close>

lemma chars_count_ascii: "list_all starts_char s \<Longrightarrow> chars_count s = length s"
  by (simp add: chars_count_def list_all_iff)

lemma digits_start: "list_all starts_char (show_nat n)"
  using show_nat_digits [of n] by (auto simp: list_all_iff is_digit_def starts_char_def)

lemma chars_count_show_nat [simp]: "chars_count (show_nat n) = length (show_nat n)"
  by (rule chars_count_ascii [OF digits_start])

lemma chars_count_escape:
  "chars_count (escape s) = chars_count s + length (filter (\<lambda>c. c = quote_char) s)"
  by (induction s) (auto simp: starts_char_def)

lemma chars_count_spaces [simp]: "chars_count (replicate n (CHR '' '')) = n"
  by (simp add: chars_count_def starts_char_def)

lemma line_len_renders:
  "chars_count (render_line (into_snapshot_node n) depth) = line_len (rn_info n) depth"
  by (cases n)
    (auto simp: render_line_def line_len_def chars_count_escape times_sign_def starts_char_def split: option.splits)

text \<open>The rendered length of a subtree.\<close>

definition sub_len :: "raw_node \<Rightarrow> nat \<Rightarrow> nat" where
  "sub_len n depth = chars_count (render_node (into_snapshot_node n) depth)"

lemma chars_count_concat: "chars_count (concat ss) = sum_list (map chars_count ss)"
  by (induction ss) auto

lemma sub_len_simp:
  "sub_len (RawNode info children) depth =
     line_len info depth + sum_list (map (\<lambda>c. sub_len c (depth + 1)) children)"
  unfolding sub_len_def render_node_eq [of "into_snapshot_node (RawNode info children)"] chars_count_simps(3)
    line_len_renders
  by (simp add: chars_count_concat comp_def)

text \<open>Every node of the tree carries its size.\<close>

fun sized :: "raw_node \<Rightarrow> nat \<Rightarrow> bool" where
  "sized (RawNode info children) depth \<longleftrightarrow>
     ri_size info = line_len info depth + sum_list (map (\<lambda>c. ri_size (rn_info c)) children) \<and>
     (\<forall>c \<in> set children. sized c (depth + 1))"

lemma sized_sub_len: "sized n depth \<Longrightarrow> ri_size (rn_info n) = sub_len n depth"
proof (induction n depth rule: sized.induct)
  case (1 info children depth)
  then have "map (\<lambda>c. ri_size (rn_info c)) children = map (\<lambda>c. sub_len c (depth + 1)) children"
    by simp
  with "1.prems" show ?case
    by (simp add: sub_len_simp)
qed

lemma line_len_size [simp]: "line_len (info\<lparr>ri_size := k\<rparr>) depth = line_len info depth"
  by (simp add: line_len_def)

lemma sized_measure: "sized (measure_node n depth) depth"
proof (induction n depth rule: measure_node.induct)
  case (1 info children depth)
  then show ?case
    by (simp add: Let_def comp_def)
qed

lemma sized_fold_subtree: "sized (fold_subtree n depth) depth"
  by (simp add: fold_subtree_def Let_def)

lemma fold_subtree_line: "line_len (rn_info (fold_subtree n depth)) depth = ri_size (rn_info (fold_subtree n depth))"
  by (simp add: fold_subtree_def Let_def)

abbreviation sizes :: "raw_node list \<Rightarrow> nat" where
  "sizes ns \<equiv> sum_list (map (\<lambda>c. ri_size (rn_info c)) ns)"

text \<open>\<open>fit\<close> keeps every size true, and never keeps more children than the budget holds.\<close>

lemma fit_sized:
  "sized n depth \<Longrightarrow>
     (case fit n depth budget meta st of ((n', used), st') \<Rightarrow>
        sized n' depth \<and> used = ri_size (rn_info n') \<and>
        (used \<le> budget \<or> used = line_len (rn_info n) depth \<or> used = line_len (rn_info (fold_subtree n depth)) depth))"
  "sized c (depth + 1) \<Longrightarrow>
     (case fit_child c depth remaining meta st of
        (None, st') \<Rightarrow> True
      | (Some (c', used), st') \<Rightarrow>
          sized c' (depth + 1) \<and> used = ri_size (rn_info c') \<and> used \<le> remaining)"
  "(\<forall>c \<in> set cs. sized c (depth + 1)) \<Longrightarrow>
     (case fit_children cs depth remaining k meta st of ((kept, sz), st') \<Rightarrow>
        (\<forall>c \<in> set kept. sized c (depth + 1)) \<and> sz = k + sizes kept \<and> sizes kept \<le> remaining)"
proof (induction n depth budget meta st and c depth remaining meta st and cs depth remaining k meta st
    rule: fit_fit_child_fit_children.induct)
  case (1 info children depth budget meta st)
  then show ?case
    using sized_fold_subtree [of "RawNode info children" depth] fold_subtree_line [of "RawNode info children" depth]
    by (auto simp: Let_def split: prod.splits)
next
  case (2 child depth remaining meta st)
  then show ?case
    using sized_fold_subtree [of child "depth + 1"] fold_subtree_line [of child "depth + 1"]
    by (auto simp: Let_def split: prod.splits)
next
  case (3 depth remaining k meta st)
  then show ?case by simp
next
  case (4 child children depth remaining k meta st)
  then show ?case
    by (fastforce split: prod.splits option.splits)
qed

section \<open>The root line is short\<close>

definition clamped :: "raw_info \<Rightarrow> bool" where
  "clamped n \<longleftrightarrow> chars_count (ri_role n) \<le> max_role_chars \<and>
     (\<forall>s. ri_name n = Some s \<longrightarrow> chars_count s \<le> max_text_chars) \<and>
     (\<forall>s. ri_value n = Some s \<longrightarrow> chars_count s \<le> max_text_chars) \<and>
     (\<forall>r. ri_reference n = Some r \<longrightarrow> chars_count (ref_str r) \<le> max_ref_chars)"

lemma clamp_string_bound: "chars_count (fst (clamp_string s limit st)) \<le> limit"
  by (simp add: clamp_string_def chars_count_chars_take)

lemma clamp_option_bound: "fst (clamp_option v limit st) = Some s \<Longrightarrow> chars_count s \<le> limit"
  using clamp_string_bound by (auto simp: clamp_option_def split: option.splits prod.splits) (metis fst_conv)

lemma convert_info_clamped: "clamped (fst (convert_info fs st))"
  unfolding convert_info_def Let_def clamped_def
  using clamp_string_bound clamp_option_bound
  by (auto split: prod.splits) (metis fst_conv)+

lemma leaf_clamped: "clamped (leaf_info ''generic'')"
  by (simp add: clamped_def leaf_info_def max_role_chars_def starts_char_def)

lemma convert_root_clamped: "clamped (rn_info (fst (convert v 0 st)))"
  using convert_info_clamped leaf_clamped
  by (auto simp: convert.simps [of v 0] Let_def leaf_raw_def max_depth_def split: option.splits prod.splits json.splits)
    (metis fst_conv)+

lemma clamped_role: "clamped n \<Longrightarrow> clamped (n\<lparr>ri_role := ''generic''\<rparr>)"
  by (simp add: clamped_def max_role_chars_def starts_char_def)

lemma cut_depth_info: "rn_info (fst (cut_depth d n st)) = rn_info n"
  by (cases d; cases n) (auto split: prod.splits)

lemma fold_sibling_runs_info: "rn_info (fst (fold_sibling_runs n st)) = rn_info n"
  by (cases n) (auto split: prod.splits)

lemma measure_info: "rn_info (measure_node n depth) = (rn_info n)\<lparr>ri_size := ri_size (rn_info (measure_node n depth))\<rparr>"
  by (cases n) (simp add: Let_def)

lemma show_nat_length: "n < 10 ^ k \<Longrightarrow> 0 < k \<Longrightarrow> length (show_nat n) \<le> k"
proof (induction k arbitrary: n)
  case (Suc k)
  show ?case
  proof (cases "n < 10")
    case True
    then show ?thesis
      by (simp add: show_nat.simps [of n])
  next
    case False
    with Suc.prems have "n div 10 < 10 ^ k" "0 < k"
      by (auto intro!: Nat.gr0I)
    with Suc.IH False show ?thesis
      by (simp add: show_nat.simps [of n])
  qed
qed simp

lemma u32_length: "length (show_nat (u32_of n)) \<le> 10"
proof (rule show_nat_length)
  have "u32_of n < 4294967296"
    by (simp add: u32_of_def u32_max_def)
  then show "u32_of n < 10 ^ 10"
    by simp
qed simp

lemma quotes_le_chars: "length (filter (\<lambda>c. c = quote_char) s) \<le> chars_count s"
  by (induction s) (auto simp: starts_char_def)

lemma line_len_clamped:
  assumes "clamped n" and "\<forall>k. ri_folded_count n = Some k \<longrightarrow> length (show_nat k) \<le> 10"
  shows "line_len n depth \<le> 2 * depth + 575"
proof -
  have name: "(case ri_name n of None \<Rightarrow> 0 | Some name \<Rightarrow>
      3 + chars_count name + length (filter (\<lambda>c. c = quote_char) name)) \<le> 403"
  proof (cases "ri_name n")
    case (Some name)
    then have "chars_count name \<le> 200"
      using assms(1) by (simp add: clamped_def max_text_chars_def)
    with quotes_le_chars [of name] Some show ?thesis
      by simp
  qed simp
  have ref: "(case ri_reference n of None \<Rightarrow> 0 | Some r \<Rightarrow> length '' [ref='' + chars_count (ref_str r) + 1) \<le> 71"
    using assms(1) by (cases "ri_reference n") (auto simp: clamped_def max_ref_chars_def)
  have folded: "(case ri_folded_count n of None \<Rightarrow> 0 | Some count \<Rightarrow> 3 + length (show_nat count)) \<le> 13"
    using assms(2) by (cases "ri_folded_count n") auto
  have marks: "(if ri_checked n = Some True then length '' [checked]'' else 0) \<le> (10::nat)"
    "(if ri_disabled n then length '' [disabled]'' else 0) \<le> (11::nat)"
    by simp_all
  have role: "chars_count (ri_role n) \<le> 64"
    using assms(1) by (simp add: clamped_def max_role_chars_def)
  show ?thesis
    unfolding line_len_def using name ref folded marks role by linarith
qed

lemma convert_root_unfolded: "ri_folded_count (rn_info (fst (convert v depth st))) = None"
  by (auto simp: convert.simps [of v depth] Let_def leaf_raw_def leaf_info_def convert_info_def
      split: option.splits prod.splits json.splits)

lemma rename_root_info:
  "clamped (rn_info n) \<Longrightarrow> clamped (rn_info (rename_root n))"
  "ri_folded_count (rn_info (rename_root n)) = ri_folded_count (rn_info n)"
  by (auto simp: rename_root_def clamped_role)

text \<open>The root that reaches \<open>fit\<close>, and its summary should it be folded, are short lines.\<close>

lemma root_lines:
  assumes "clamped (rn_info n)" and "ri_folded_count (rn_info n) = None"
  shows "line_len (rn_info (measure_node n 0)) 0 \<le> 575"
    and "line_len (rn_info (fold_subtree (measure_node n 0) 0)) 0 \<le> 575"
proof -
  define info where "info = rn_info n"
  have info: "clamped info" "ri_folded_count info = None"
    using assms by (simp_all add: info_def)
  obtain k where m: "rn_info (measure_node n 0) = info\<lparr>ri_size := k\<rparr>"
    using measure_info [of n 0] unfolding info_def by blast
  show "line_len (rn_info (measure_node n 0)) 0 \<le> 575"
    unfolding m using line_len_clamped [of info 0] info by simp
  let ?k = "u32_of (count_nodes (measure_node n 0) - 1)"
  have "line_len (info\<lparr>ri_folded_count := Some ?k\<rparr>) 0 \<le> 575"
    using line_len_clamped [of "info\<lparr>ri_folded_count := Some ?k\<rparr>" 0] info u32_length
    by (simp add: clamped_def)
  moreover have "line_len (rn_info (fold_subtree (measure_node n 0) 0)) 0 =
      line_len (info\<lparr>ri_folded_count := Some ?k\<rparr>) 0"
    by (simp add: fold_subtree_def Let_def m line_len_def)
  ultimately show "line_len (rn_info (fold_subtree (measure_node n 0) 0)) 0 \<le> 575"
    by simp
qed

section \<open>The stages of a build\<close>

lemma build_stages:
  obtains raw0 st0 raw1 st1 raw2 st2 raw3 used st3 where
    "convert tree 0 \<lparr>bs_nodes = 0, bs_truncated = False\<rparr> = (raw0, st0)"
    "cut_depth budget_depth (rename_root raw0) st0 = (raw1, st1)"
    "fold_sibling_runs raw1 st1 = (raw2, st2)"
    "fit (measure_node raw2 0) 0 default_budget_chars meta st2 = ((raw3, used), st3)"
    "build url meta tree =
       \<lparr>snap_url = url, snap_root = into_snapshot_node raw3, snap_truncated = bs_truncated st3\<rparr>"
proof -
  obtain raw0 st0 where converted: "convert tree 0 \<lparr>bs_nodes = 0, bs_truncated = False\<rparr> = (raw0, st0)"
    by (metis prod.exhaust)
  obtain raw1 st1 where cut: "cut_depth budget_depth (rename_root raw0) st0 = (raw1, st1)"
    by (metis prod.exhaust)
  obtain raw2 st2 where folded: "fold_sibling_runs raw1 st1 = (raw2, st2)"
    by (metis prod.exhaust)
  obtain raw3 used st3 where fitted: "fit (measure_node raw2 0) 0 default_budget_chars meta st2 = ((raw3, used), st3)"
    by (metis prod.exhaust)
  show ?thesis
    by (rule that [OF converted cut folded fitted]) (simp add: build_def converted cut folded fitted)
qed

section \<open>Nothing flagged, nothing lost\<close>

lemma flag_truncated [simp]: "bs_truncated (flag st)"
  by (simp add: flag_def)

lemma clamp_string_unflagged:
  "\<not> bs_truncated (snd (clamp_string s limit st)) \<Longrightarrow> clamp_string s limit st = (s, st)"
  by (auto simp: clamp_string_def split: if_splits)

lemma clamp_option_unflagged:
  "\<not> bs_truncated (snd (clamp_option v limit st)) \<Longrightarrow> clamp_option v limit st = (v, st)"
  by (cases v) (auto simp: clamp_option_def case_prod_beta dest: clamp_string_unflagged)

text \<open>What a conversion without losses gives: the tree down to the given number of levels.\<close>

fun dom_image :: "nat \<Rightarrow> json \<Rightarrow> snapshot_node" where
  "dom_image 0 v = sn_leaf ''generic''"
| "dom_image (Suc n) v =
     (case as_object v of
        None \<Rightarrow> sn_leaf ''generic''
      | Some fs \<Rightarrow>
          SnapshotNode (role_of fs) (string_field fs ''name'') (string_field fs ''value'')
            (map_option Reference (string_field fs ''ref''))
            (Option.bind (obj_get fs ''checked'') as_bool)
            (unwrap_or (Option.bind (obj_get fs ''disabled'') as_bool) False) None
            (case obj_get fs ''children'' of Some (JArr items) \<Rightarrow> map (dom_image n) items | _ \<Rightarrow> []))"

fun depth_le :: "nat \<Rightarrow> raw_node \<Rightarrow> bool" where
  "depth_le 0 (RawNode info children) \<longleftrightarrow> children = []"
| "depth_le (Suc d) (RawNode info children) \<longleftrightarrow> (\<forall>c \<in> set children. depth_le d c)"

lemma convert_info_unflagged:
  assumes "convert_info fs st = (info, st')" and "\<not> bs_truncated st'"
  shows "st' = st" and "ri_role info = role_of fs" and "ri_name info = string_field fs ''name''"
    and "ri_value info = string_field fs ''value''"
    and "ri_reference info = map_option Reference (string_field fs ''ref'')"
    and "ri_checked info = Option.bind (obj_get fs ''checked'') as_bool"
    and "ri_disabled info = unwrap_or (Option.bind (obj_get fs ''disabled'') as_bool) False"
    and "ri_folded_count info = None"
proof -
  obtain y h where rect: "rect_of fs = (y, h)"
    by (metis prod.exhaust)
  obtain role st1 where 1: "clamp_string (role_of fs) max_role_chars st = (role, st1)"
    by (metis prod.exhaust)
  obtain name st2 where 2: "clamp_option (string_field fs ''name'') max_text_chars st1 = (name, st2)"
    by (metis prod.exhaust)
  obtain val st3 where 3: "clamp_option (string_field fs ''value'') max_text_chars st2 = (val, st3)"
    by (metis prod.exhaust)
  obtain ref st4 where 4: "clamp_option (string_field fs ''ref'') max_ref_chars st3 = (ref, st4)"
    by (metis prod.exhaust)
  have info: "info = \<lparr>ri_role = role, ri_name = name, ri_value = val, ri_reference = map_option Reference ref,
      ri_checked = Option.bind (obj_get fs ''checked'') as_bool,
      ri_disabled = unwrap_or (Option.bind (obj_get fs ''disabled'') as_bool) False,
      ri_folded_count = None, ri_page_y = y, ri_height = h, ri_size = 0\<rparr>" and "st' = st4"
    using assms(1) by (simp_all add: convert_info_def rect 1 2 3 4)
  have "ref = string_field fs ''ref''" "st4 = st3"
    using clamp_option_unflagged [of "string_field fs ''ref''" max_ref_chars st3] assms(2) \<open>st' = st4\<close> 4 by auto
  moreover have "val = string_field fs ''value''" "st3 = st2"
    using clamp_option_unflagged [of "string_field fs ''value''" max_text_chars st2] assms(2) \<open>st' = st4\<close> \<open>st4 = st3\<close> 3
    by auto
  moreover have "name = string_field fs ''name''" "st2 = st1"
    using clamp_option_unflagged [of "string_field fs ''name''" max_text_chars st1] assms(2) \<open>st' = st4\<close> \<open>st4 = st3\<close>
      \<open>st3 = st2\<close> 2 by auto
  moreover have "role = role_of fs" "st1 = st"
    using clamp_string_unflagged [of "role_of fs" max_role_chars st] assms(2) \<open>st' = st4\<close> \<open>st4 = st3\<close>
      \<open>st3 = st2\<close> \<open>st2 = st1\<close> 1 by auto
  ultimately show "st' = st" and "ri_role info = role_of fs" and "ri_name info = string_field fs ''name''"
    and "ri_value info = string_field fs ''value''"
    and "ri_reference info = map_option Reference (string_field fs ''ref'')"
    and "ri_checked info = Option.bind (obj_get fs ''checked'') as_bool"
    and "ri_disabled info = unwrap_or (Option.bind (obj_get fs ''disabled'') as_bool) False"
    and "ri_folded_count info = None"
    using info \<open>st' = st4\<close> by simp_all
qed

lemma convert_unflagged:
  "convert v depth st = (n, st') \<Longrightarrow> \<not> bs_truncated st' \<Longrightarrow>
     \<not> bs_truncated st \<and> (\<forall>k. depth_le k n \<longrightarrow> into_snapshot_node n = dom_image (Suc k) v)"
  "convert_items items depth st = (ns, st') \<Longrightarrow> \<not> bs_truncated st' \<Longrightarrow>
     \<not> bs_truncated st \<and> length ns = length items \<and>
     (\<forall>k. (\<forall>n \<in> set ns. depth_le k n) \<longrightarrow> map into_snapshot_node ns = map (dom_image (Suc k)) items)"
proof (induction v depth st and items depth st arbitrary: n st' and ns st' rule: convert_convert_items.induct)
  case (1 v depth st)
  let ?st = "st\<lparr>bs_nodes := bs_nodes st + 1\<rparr>"
  obtain fs where fs: "as_object v = Some fs"
    using "1.prems" by (cases "as_object v") (auto simp: convert.simps [of v] Let_def)
  have deep: "\<not> max_depth \<le> depth"
    using "1.prems" fs by (auto simp: convert.simps [of v] Let_def)
  obtain info st1 where info: "convert_info fs ?st = (info, st1)"
    by (metis prod.exhaust)
  show ?case
  proof (cases "\<exists>items. obj_get fs ''children'' = Some (JArr items)")
    case True
    then obtain items where items: "obj_get fs ''children'' = Some (JArr items)"
      by blast
    obtain ns st2 where ns: "convert_items items (depth + 1) st1 = (ns, st2)"
      by (metis prod.exhaust)
    have n: "n = RawNode info ns" "st' = st2"
      using "1.prems"(1) fs deep info items ns by (simp_all add: convert.simps [of v] Let_def)
    note ih = "1.IH" [OF refl fs deep info [symmetric] items refl ns]
    have unfl: "\<not> bs_truncated st1" "length ns = length items"
      "\<And>k. (\<forall>n \<in> set ns. depth_le k n) \<Longrightarrow> map into_snapshot_node ns = map (dom_image (Suc k)) items"
      using ih "1.prems"(2) n(2) by blast+
    note fields = convert_info_unflagged [OF info unfl(1)]
    have "into_snapshot_node n = dom_image (Suc k) v" if "depth_le k n" for k
      using that unfl(2,3) fields fs items unfolding n(1) by (cases k) auto
    then show ?thesis
      using unfl(1) fields(1) by simp
  next
    case False
    then have n: "n = RawNode info []" "st' = st1"
      using "1.prems" fs deep info by (auto simp: convert.simps [of v] Let_def split: option.splits json.splits)
    note fields = convert_info_unflagged [OF info, folded n(2), OF "1.prems"(2)]
    show ?thesis
      using fields fs False "1.prems"(2) unfolding n(1) by (auto split: option.splits json.splits)
  qed
next
  case (2 depth st)
  then show ?case by simp
next
  case (3 item items depth st)
  have room: "\<not> max_nodes \<le> bs_nodes st"
    using "3.prems" by (auto split: if_splits)
  obtain n st1 where n: "convert item depth st = (n, st1)"
    by (metis prod.exhaust)
  obtain ms st2 where ms: "convert_items items depth st1 = (ms, st2)"
    by (metis prod.exhaust)
  have eq: "ns = n # ms" "st' = st2"
    using "3.prems"(1) room n ms by simp_all
  show ?case
    using "3.IH"(1) [OF room n] "3.IH"(2) [OF room n [symmetric] ms] "3.prems"(2) eq by auto
qed

lemma cut_depth_unflagged:
  "cut_depth d n st = (n', st') \<Longrightarrow> \<not> bs_truncated st' \<Longrightarrow> n' = n \<and> \<not> bs_truncated st \<and> depth_le d n"
  "cut_depth_list d ns st = (ns', st') \<Longrightarrow> \<not> bs_truncated st' \<Longrightarrow>
     ns' = ns \<and> \<not> bs_truncated st \<and> (\<forall>n \<in> set ns. depth_le d n)"
proof (induction d n st and d ns st arbitrary: n' st' and ns' st' rule: cut_depth_cut_depth_list.induct)
  case (1 info children st)
  then show ?case by (auto split: if_splits)
next
  case (2 d info children st)
  then show ?case by (auto split: prod.splits)
next
  case (3 d st)
  then show ?case by simp
next
  case (4 d n ns st)
  then show ?case by (fastforce split: prod.splits)
qed

lemma fold_unflagged:
  "fold_sibling_runs n st = (n', st') \<Longrightarrow> \<not> bs_truncated st' \<Longrightarrow> n' = n \<and> \<not> bs_truncated st"
  "fold_children ns processed run st = (out, st') \<Longrightarrow> \<not> bs_truncated st' \<Longrightarrow>
     out = processed @ run @ ns \<and> \<not> bs_truncated st"
proof (induction n st and ns processed run st arbitrary: n' st' and out st' rule: fold_sibling_runs_fold_children.induct)
  case (1 info children st)
  then show ?case by (auto split: prod.splits)
next
  case (2 processed run st)
  then show ?case by (auto simp: flush_run_def split: if_splits)
next
  case (3 child children processed run st)
  obtain c st1 where c: "fold_sibling_runs child st = (c, st1)"
    by (metis prod.exhaust)
  obtain processed' run' st2 where mid: "(if \<not> joins_run c run then
      (case flush_run run processed st1 of (out, st) \<Rightarrow> (out, [], st)) else (processed, run, st1)) = (processed', run', st2)"
    by (metis prod.exhaust)
  show ?case
  proof (cases "foldable c")
    case True
    from "3.IH"(3) [OF c [symmetric] mid [symmetric] refl] True
    have "out = processed' @ (run' @ [c]) @ children \<and> \<not> bs_truncated st2"
      using "3.prems" c mid by simp
    then show ?thesis
      using mid "3.IH"(1) [OF c] by (auto simp: flush_run_def split: if_splits)
  next
    case False
    then have "\<not> joins_run c run"
      by (simp add: joins_run_def)
    from "3.IH"(2) [OF c [symmetric] mid [symmetric] refl] False
    have "out = (processed' @ [c]) @ run' @ children \<and> \<not> bs_truncated st2"
      using "3.prems" c mid by simp
    then show ?thesis
      using mid \<open>\<not> joins_run c run\<close> "3.IH"(1) [OF c] by (auto simp: flush_run_def split: if_splits)
  qed
qed

lemma into_size [simp]: "into_snapshot_node (RawNode (info\<lparr>ri_size := k\<rparr>) ch) = into_snapshot_node (RawNode info ch)"
  by simp

lemma into_measure [simp]: "into_snapshot_node (measure_node n depth) = into_snapshot_node n"
proof (induction n depth rule: measure_node.induct)
  case (1 info children depth)
  then show ?case by (simp add: Let_def)
qed

lemma fit_unflagged:
  "\<not> bs_truncated (snd (fit n depth budget meta st)) \<Longrightarrow>
     \<not> bs_truncated st \<and> into_snapshot_node (fst (fst (fit n depth budget meta st))) = into_snapshot_node n"
  "\<not> bs_truncated (snd (fit_child c depth remaining meta st)) \<Longrightarrow>
     \<not> bs_truncated st \<and> (\<exists>c' used. fst (fit_child c depth remaining meta st) = Some (c', used) \<and>
       into_snapshot_node c' = into_snapshot_node c)"
  "\<not> bs_truncated (snd (fit_children cs depth remaining k meta st)) \<Longrightarrow>
     \<not> bs_truncated st \<and>
     map into_snapshot_node (fst (fst (fit_children cs depth remaining k meta st))) = map into_snapshot_node cs"
proof (induction n depth budget meta st and c depth remaining meta st and cs depth remaining k meta st
    rule: fit_fit_child_fit_children.induct)
  case (1 info children depth budget meta st)
  then show ?case
    by (auto simp: Let_def split: prod.splits if_splits)
next
  case (2 child depth remaining meta st)
  then show ?case
    by (auto simp: Let_def split: prod.splits if_splits)
next
  case (3 depth remaining k meta st)
  then show ?case by simp
next
  case (4 child children depth remaining k meta st)
  obtain r st1 where r: "fit_child child depth remaining meta st = (r, st1)"
    by (metis prod.exhaust)
  show ?case
  proof (cases r)
    case None
    then have "\<not> bs_truncated st1"
      using "4.IH"(2) [OF r [symmetric]] "4.prems" r by simp
    with "4.IH"(1) r None show ?thesis
      by simp
  next
    case (Some cu)
    obtain c used where cu: "cu = (c, used)"
      by (cases cu)
    note ih = "4.IH"(3) [OF r [symmetric] Some cu [symmetric]]
    have un: "\<not> bs_truncated (snd (fit_children children depth (remaining - used) (k + used) meta st1))"
      using "4.prems" r Some cu by (simp split: prod.splits)
    from ih [OF un] "4.IH"(1) r Some cu show ?thesis
      by (simp split: prod.splits) auto
  qed
qed

text \<open>The synthetic root the serializer reports is renamed.\<close>

fun rename_snapshot_root :: "snapshot_node \<Rightarrow> snapshot_node" where
  "rename_snapshot_root (SnapshotNode role name val r checked disabled folded children) =
     SnapshotNode (if role = ''root'' then ''generic'' else role) name val r checked disabled folded children"

lemma into_rename_root: "into_snapshot_node (rename_root n) = rename_snapshot_root (into_snapshot_node n)"
  by (cases n) (simp add: rename_root_def)

lemma depth_le_rename: "depth_le d (rename_root n) = depth_le d n"
  by (cases n; cases d) (simp_all add: rename_root_def)

section \<open>Depth and node count\<close>

lemma depth_le_leaf [simp]: "depth_le d (RawNode info [])"
  by (cases d) simp_all

lemma depth_le_info: "depth_le d (RawNode info children) \<Longrightarrow> depth_le d (RawNode info' children)"
  by (cases d) simp_all

lemma depth_le_children: "depth_le (Suc d) (RawNode info children) \<longleftrightarrow> (\<forall>c \<in> set children. depth_le d c)"
  by simp

lemma cut_depth_le:
  "depth_le d (fst (cut_depth d n st))"
  "\<forall>n \<in> set (fst (cut_depth_list d ns st)). depth_le d n"
  by (induction d n st and d ns st rule: cut_depth_cut_depth_list.induct) (auto split: prod.splits)

lemma depth_le_summary [simp]: "depth_le d (run_summary run)" "depth_le d (fold_subtree n depth)"
  by (simp_all add: run_summary_def fold_subtree_def Let_def)

lemma flush_run_Nil [simp]: "flush_run [] out st = (out, st)"
  by (simp add: flush_run_def)

lemma flush_run_depth:
  "\<forall>n \<in> set run \<union> set out. depth_le d n \<Longrightarrow> \<forall>n \<in> set (fst (flush_run run out st)). depth_le d n"
  by (auto simp: flush_run_def)

lemma fold_depth_le:
  "depth_le d n \<Longrightarrow> depth_le d (fst (fold_sibling_runs n st))"
  "\<forall>n \<in> set ns \<union> set processed \<union> set run. depth_le e n \<Longrightarrow>
     \<forall>n \<in> set (fst (fold_children ns processed run st)). depth_le e n"
proof (induction n st and ns processed run st arbitrary: d and e rule: fold_sibling_runs_fold_children.induct)
  case (1 info children st)
  then show ?case by (cases d) (auto split: prod.splits)
next
  case (2 processed run st)
  then show ?case using flush_run_depth [of run processed] by auto
next
  case (3 child children processed run st)
  obtain c st1 where c: "fold_sibling_runs child st = (c, st1)"
    by (metis prod.exhaust)
  obtain processed' run' st2 where mid: "(if \<not> joins_run c run then
      (case flush_run run processed st1 of (out, st) \<Rightarrow> (out, [], st)) else (processed, run, st1)) = (processed', run', st2)"
    by (metis prod.exhaust)
  have "depth_le e c"
    using "3.IH"(1) [of e] "3.prems" c by simp
  moreover have "\<forall>n \<in> set processed' \<union> set run'. depth_le e n"
    using mid flush_run_depth [of run processed e st1] "3.prems" by (auto split: if_splits prod.splits)
  ultimately show ?case
    using "3.IH"(2) [OF c [symmetric] mid [symmetric] refl, of e] "3.IH"(3) [OF c [symmetric] mid [symmetric] refl, of e]
      "3.prems" c mid by auto
qed

lemma measure_depth_le: "depth_le d (measure_node n depth) = depth_le d n"
proof (induction d n arbitrary: depth rule: depth_le.induct)
  case (1 info children)
  then show ?case by (simp add: Let_def)
next
  case (2 d info children)
  then show ?case by (simp add: Let_def)
qed

lemma fit_depth_le:
  "depth_le d n \<Longrightarrow> depth_le d (fst (fst (fit n depth budget meta st)))"
  "depth_le e c \<Longrightarrow> fst (fit_child c depth remaining meta st) = Some (c', used) \<Longrightarrow> depth_le e c'"
  "\<forall>c \<in> set cs. depth_le f c \<Longrightarrow>
     \<forall>c \<in> set (fst (fst (fit_children cs depth remaining k meta st))). depth_le f c"
proof (induction n depth budget meta st and c depth remaining meta st and cs depth remaining k meta st
    arbitrary: d and e c' used and f rule: fit_fit_child_fit_children.induct)
  case (1 info children depth budget meta st)
  then show ?case
    by (cases d) (auto simp: Let_def split: prod.splits)
next
  case (2 child depth remaining meta st)
  then show ?case
    by (auto simp: Let_def split: prod.splits if_splits)
next
  case (3 depth remaining k meta st)
  then show ?case by simp
next
  case (4 child children depth remaining k meta st)
  obtain r st1 where r: "fit_child child depth remaining meta st = (r, st1)"
    by (metis prod.exhaust)
  show ?case
  proof (cases r)
    case None
    with "4.IH"(2) [OF r [symmetric] None, of f] "4.prems" r show ?thesis
      by simp
  next
    case (Some cu)
    obtain c used where cu: "cu = (c, used)"
      by (cases cu)
    have "depth_le f c"
      using "4.IH"(1) [of f c used] "4.prems" r Some cu by simp
    with "4.IH"(3) [OF r [symmetric] Some cu [symmetric], of f] "4.prems" r Some cu show ?thesis
      by (auto split: prod.splits)
  qed
qed

lemma flag_nodes [simp]: "bs_nodes (flag st) = bs_nodes st"
  by (simp add: flag_def)

lemma clamp_nodes [simp]:
  "bs_nodes (snd (clamp_string s limit st)) = bs_nodes st"
  "bs_nodes (snd (clamp_option v limit st)) = bs_nodes st"
  by (auto simp: clamp_string_def clamp_option_def split: option.splits)

lemma convert_info_nodes: "bs_nodes (snd (convert_info fs st)) = bs_nodes st"
  unfolding convert_info_def Let_def case_prod_beta by simp

lemma convert_nodes:
  "bs_nodes st < max_nodes \<Longrightarrow> convert v depth st = (n, st') \<Longrightarrow>
     count_nodes n + bs_nodes st = bs_nodes st' \<and> bs_nodes st' \<le> max_nodes"
  "bs_nodes st \<le> max_nodes \<Longrightarrow> convert_items items depth st = (ns, st') \<Longrightarrow>
     sum_list (map count_nodes ns) + bs_nodes st = bs_nodes st' \<and> bs_nodes st' \<le> max_nodes"
proof (induction v depth st and items depth st arbitrary: n st' and ns st' rule: convert_convert_items.induct)
  case (1 v depth st)
  let ?st = "st\<lparr>bs_nodes := bs_nodes st + 1\<rparr>"
  show ?case
  proof (cases "\<exists>fs items. as_object v = Some fs \<and> \<not> max_depth \<le> depth \<and> obj_get fs ''children'' = Some (JArr items)")
    case True
    then obtain fs items where fs: "as_object v = Some fs" and deep: "\<not> max_depth \<le> depth"
      and items: "obj_get fs ''children'' = Some (JArr items)"
      by blast
    obtain info st1 where info: "convert_info fs ?st = (info, st1)"
      by (metis prod.exhaust)
    obtain ns st2 where ns: "convert_items items (depth + 1) st1 = (ns, st2)"
      by (metis prod.exhaust)
    have n: "n = RawNode info ns" "st' = st2"
      using "1.prems"(2) fs deep info items ns by (simp_all add: convert.simps [of v] Let_def)
    have "bs_nodes st1 = bs_nodes st + 1"
      using convert_info_nodes [of fs ?st] info by simp
    with "1.IH" [OF refl fs deep info [symmetric] items refl _ ns] "1.prems"(1) n show ?thesis
      by simp
  next
    case False
    then show ?thesis
      using "1.prems" convert_info_nodes [of _ ?st]
      by (auto simp: convert.simps [of v] Let_def leaf_raw_def split: option.splits json.splits if_splits prod.splits)
        (metis snd_conv Suc_eq_plus1 Suc_leI)+
  qed
next
  case (2 depth st)
  then show ?case by simp
next
  case (3 item items depth st)
  show ?case
  proof (cases "max_nodes \<le> bs_nodes st")
    case True
    with "3.prems" show ?thesis by auto
  next
    case False
    obtain n st1 where n: "convert item depth st = (n, st1)"
      by (metis prod.exhaust)
    obtain ms st2 where ms: "convert_items items depth st1 = (ms, st2)"
      by (metis prod.exhaust)
    have eq: "ns = n # ms" "st' = st2"
      using "3.prems"(2) False n ms by simp_all
    show ?thesis
      using "3.IH"(1) [OF False _ n] "3.IH"(2) [OF False n [symmetric] _ ms] False eq by auto
  qed
qed

lemma flush_run_nodes:
  "sum_list (map count_nodes (fst (flush_run run out st))) \<le> sum_list (map count_nodes (out @ run))"
proof -
  have "0 < length run \<Longrightarrow> 1 \<le> sum_list (map count_nodes run)"
    by (cases run; cases "hd run") auto
  then show ?thesis
    by (auto simp: flush_run_def run_summary_def Let_def)
qed

lemma cut_depth_nodes:
  "count_nodes (fst (cut_depth d n st)) \<le> count_nodes n"
  "sum_list (map count_nodes (fst (cut_depth_list d ns st))) \<le> sum_list (map count_nodes ns)"
  by (induction d n st and d ns st rule: cut_depth_cut_depth_list.induct) (auto split: prod.splits intro: add_mono)

lemma fold_nodes:
  "count_nodes (fst (fold_sibling_runs n st)) \<le> count_nodes n"
  "sum_list (map count_nodes (fst (fold_children ns processed run st)))
     \<le> sum_list (map count_nodes (processed @ run @ ns))"
proof (induction n st and ns processed run st rule: fold_sibling_runs_fold_children.induct)
  case (1 info children st)
  then show ?case by (auto split: prod.splits)
next
  case (2 processed run st)
  then show ?case using flush_run_nodes [of run processed st] by simp
next
  case (3 child children processed run st)
  obtain c st1 where c: "fold_sibling_runs child st = (c, st1)"
    by (metis prod.exhaust)
  obtain processed' run' st2 where mid: "(if \<not> joins_run c run then
      (case flush_run run processed st1 of (out, st) \<Rightarrow> (out, [], st)) else (processed, run, st1)) = (processed', run', st2)"
    by (metis prod.exhaust)
  have "count_nodes c \<le> count_nodes child"
    using "3.IH"(1) c by simp
  moreover have "sum_list (map count_nodes (processed' @ run')) \<le> sum_list (map count_nodes (processed @ run))"
    using mid flush_run_nodes [of run processed st1] by (auto split: if_splits prod.splits)
  ultimately show ?case
    using "3.IH"(2) [OF c [symmetric] mid [symmetric] refl] "3.IH"(3) [OF c [symmetric] mid [symmetric] refl]
      c mid by (cases "foldable c") auto
qed

lemma measure_nodes: "count_nodes (measure_node n depth) = count_nodes n"
proof (induction n depth rule: measure_node.induct)
  case (1 info children depth)
  then have "map (count_nodes \<circ> (\<lambda>c. measure_node c (depth + 1))) children = map count_nodes children"
    by simp
  then show ?case
    by (simp only: measure_node.simps Let_def count_nodes.simps map_map)
qed

lemma fold_subtree_nodes: "count_nodes (fold_subtree n depth) \<le> count_nodes n"
  by (cases n) (simp add: fold_subtree_def Let_def)

lemma fit_nodes:
  "count_nodes (fst (fst (fit n depth budget meta st))) \<le> count_nodes n"
  "fst (fit_child c depth remaining meta st) = Some (c', used) \<Longrightarrow> count_nodes c' \<le> count_nodes c"
  "sum_list (map count_nodes (fst (fst (fit_children cs depth remaining k meta st)))) \<le> sum_list (map count_nodes cs)"
proof (induction n depth budget meta st and c depth remaining meta st and cs depth remaining k meta st
    arbitrary: and c' used and rule: fit_fit_child_fit_children.induct)
  case (1 info children depth budget meta st)
  then show ?case
    using fold_subtree_nodes [of "RawNode info children" depth]
    by (auto simp: Let_def split: prod.splits)
next
  case (2 child depth remaining meta st)
  then show ?case
    using fold_subtree_nodes [of child "depth + 1"]
    by (auto simp: Let_def split: prod.splits if_splits)
next
  case (3 depth remaining k meta st)
  then show ?case by simp
next
  case (4 child children depth remaining k meta st)
  obtain r st1 where r: "fit_child child depth remaining meta st = (r, st1)"
    by (metis prod.exhaust)
  show ?case
  proof (cases r)
    case None
    with "4.IH"(2) [OF r [symmetric] None] r show ?thesis
      by simp
  next
    case (Some cu)
    obtain c used where cu: "cu = (c, used)"
      by (cases cu)
    have "count_nodes c \<le> count_nodes child"
      using "4.IH"(1) [of c used] r Some cu by simp
    with "4.IH"(3) [OF r [symmetric] Some cu [symmetric]] r Some cu show ?thesis
      by (auto split: prod.splits)
  qed
qed

section \<open>Properties\<close>

text \<open>
  C4. Every snapshot fits the token budget: whatever JSON a page reports, the rendered
  snapshot has at most 20000 characters.
\<close>

theorem snapshot_within_budget:
  "chars_count (show_snapshot (build url meta tree)) \<le> default_budget_chars"
proof -
  obtain raw0 st0 raw1 st1 raw2 st2 raw3 used st3 where
    converted: "convert tree 0 \<lparr>bs_nodes = 0, bs_truncated = False\<rparr> = (raw0, st0)"
    and cut: "cut_depth budget_depth (rename_root raw0) st0 = (raw1, st1)"
    and folded: "fold_sibling_runs raw1 st1 = (raw2, st2)"
    and fitted: "fit (measure_node raw2 0) 0 default_budget_chars meta st2 = ((raw3, used), st3)"
    and built: "build url meta tree =
       \<lparr>snap_url = url, snap_root = into_snapshot_node raw3, snap_truncated = bs_truncated st3\<rparr>"
    by (rule build_stages)
  have info: "rn_info raw2 = rn_info (rename_root raw0)"
    using cut_depth_info [of budget_depth "rename_root raw0" st0] fold_sibling_runs_info [of raw1 st1] cut folded
    by simp
  have "clamped (rn_info raw0)" "ri_folded_count (rn_info raw0) = None"
    using convert_root_clamped convert_root_unfolded converted by (metis fst_conv)+
  then have lines: "line_len (rn_info (measure_node raw2 0)) 0 \<le> 575"
    "line_len (rn_info (fold_subtree (measure_node raw2 0) 0)) 0 \<le> 575"
    using root_lines [of raw2] rename_root_info [of raw0] by (simp_all add: info)
  from fit_sized(1) [OF sized_measure [of raw2 0], of default_budget_chars meta st2]
  have sized: "sized raw3 0" and "used = ri_size (rn_info raw3)" and "used \<le> default_budget_chars"
    using fitted lines by (auto simp: default_budget_chars_def)
  then have "sub_len raw3 0 \<le> default_budget_chars"
    using sized_sub_len [OF sized] by simp
  then show ?thesis
    by (simp add: show_snapshot_def built sub_len_def)
qed

text \<open>
  C5. The truncation flag is honest: a snapshot that is not flagged is the page's whole tree,
  every node with its fields as reported and every level down to the depth budget, with
  nothing cut, folded, clamped or dropped.
\<close>

theorem unflagged_snapshot_is_the_tree:
  assumes "\<not> snap_truncated (build url meta tree)"
  shows "snap_root (build url meta tree) = rename_snapshot_root (dom_image (Suc budget_depth) tree)"
proof -
  obtain raw0 st0 raw1 st1 raw2 st2 raw3 used st3 where
    converted: "convert tree 0 \<lparr>bs_nodes = 0, bs_truncated = False\<rparr> = (raw0, st0)"
    and cut: "cut_depth budget_depth (rename_root raw0) st0 = (raw1, st1)"
    and folded: "fold_sibling_runs raw1 st1 = (raw2, st2)"
    and fitted: "fit (measure_node raw2 0) 0 default_budget_chars meta st2 = ((raw3, used), st3)"
    and built: "build url meta tree =
       \<lparr>snap_url = url, snap_root = into_snapshot_node raw3, snap_truncated = bs_truncated st3\<rparr>"
    by (rule build_stages)
  have 3: "\<not> bs_truncated st3"
    using assms built by simp
  have 2: "\<not> bs_truncated st2" "into_snapshot_node raw3 = into_snapshot_node raw2"
    using fit_unflagged(1) [of "measure_node raw2 0" 0 default_budget_chars meta st2] fitted 3 by simp_all
  have 1: "raw2 = raw1" "\<not> bs_truncated st1"
    using fold_unflagged(1) [OF folded 2(1)] by simp_all
  have 0: "raw1 = rename_root raw0" "\<not> bs_truncated st0" "depth_le budget_depth raw0"
    using cut_depth_unflagged(1) [OF cut 1(2)] by (simp_all add: depth_le_rename)
  have "into_snapshot_node raw0 = dom_image (Suc budget_depth) tree"
    using convert_unflagged(1) [OF converted 0(2)] 0(3) by blast
  then show ?thesis
    using built 2(2) 1(1) 0(1) by (simp add: into_rename_root)
qed

definition sample_tree :: json where
  "sample_tree = JObj [(''role'', JStr ''root''), (''children'', JArr [JObj [(''role'', JStr ''button''), (''name'', JStr ''OK'')]])]"

lemma cut_depth_pos: "0 < d \<Longrightarrow> cut_depth d (RawNode info children) st =
    (case cut_depth_list (d - 1) children st of (children', st') \<Rightarrow> (RawNode info children', st'))"
  by (cases d) simp_all

lemma dom_image_pos: "0 < n \<Longrightarrow> dom_image n (JObj fs) =
    SnapshotNode (role_of fs) (string_field fs ''name'') (string_field fs ''value'')
      (map_option Reference (string_field fs ''ref'')) (Option.bind (obj_get fs ''checked'') as_bool)
      (unwrap_or (Option.bind (obj_get fs ''disabled'') as_bool) False) None
      (case obj_get fs ''children'' of Some (JArr items) \<Rightarrow> map (dom_image (n - 1)) items | _ \<Rightarrow> [])"
  by (cases n) (auto split: option.splits json.splits)

theorem unflagged_snapshot_is_the_tree_witness:
  "snap_root (build ''u'' \<lparr>pm_viewport_height = None\<rparr> sample_tree) =
     SnapshotNode ''generic'' None None None None False None
       [SnapshotNode ''button'' (Some ''OK'') None None None False None []]"
proof -
  have "\<not> snap_truncated (build ''u'' \<lparr>pm_viewport_height = None\<rparr> sample_tree)"
    by (simp add: build_def sample_tree_def convert.simps convert_info_def clamp_string_def clamp_option_def
        max_depth_def max_nodes_def max_role_chars_def max_text_chars_def max_ref_chars_def rect_of_def
        role_of_def string_field_def obj_get_def rename_root_def budget_depth_def cut_depth_pos dom_image_pos
        foldable_def joins_run_def flush_run_def fold_run_min_def in_viewport_def line_len_def
        default_budget_chars_def fold_size_min_chars_def starts_char_def Let_def)
  from unflagged_snapshot_is_the_tree [OF this] show ?thesis
    by (simp add: sample_tree_def budget_depth_def cut_depth_pos dom_image_pos role_of_def string_field_def obj_get_def)
qed

text \<open>
  The structural caps hold for every page: the tree of a snapshot has at most 100000
  nodes and at most 48 levels below its root.
\<close>

fun sn_count :: "snapshot_node \<Rightarrow> nat" where
  "sn_count (SnapshotNode role name val r checked disabled folded children) = 1 + sum_list (map sn_count children)"

fun sn_depth_le :: "nat \<Rightarrow> snapshot_node \<Rightarrow> bool" where
  "sn_depth_le 0 n \<longleftrightarrow> sn_children n = []"
| "sn_depth_le (Suc d) n \<longleftrightarrow> (\<forall>c \<in> set (sn_children n). sn_depth_le d c)"

lemma sn_count_into: "sn_count (into_snapshot_node n) = count_nodes n"
proof (induction n rule: count_nodes.induct)
  case (1 info children)
  then have "map (sn_count \<circ> into_snapshot_node) children = map count_nodes children"
    by simp
  then show ?case
    by (simp only: into_snapshot_node.simps sn_count.simps count_nodes.simps map_map)
qed

lemma sn_depth_into: "depth_le d n \<Longrightarrow> sn_depth_le d (into_snapshot_node n)"
  by (induction d n rule: depth_le.induct) auto

lemma count_nodes_rename: "count_nodes (rename_root n) = count_nodes n"
  by (cases n) (simp add: rename_root_def)

theorem snapshot_within_caps:
  "sn_count (snap_root (build url meta tree)) \<le> max_nodes \<and>
   sn_depth_le budget_depth (snap_root (build url meta tree))"
proof -
  obtain raw0 st0 raw1 st1 raw2 st2 raw3 used st3 where
    converted: "convert tree 0 \<lparr>bs_nodes = 0, bs_truncated = False\<rparr> = (raw0, st0)"
    and cut: "cut_depth budget_depth (rename_root raw0) st0 = (raw1, st1)"
    and folded: "fold_sibling_runs raw1 st1 = (raw2, st2)"
    and fitted: "fit (measure_node raw2 0) 0 default_budget_chars meta st2 = ((raw3, used), st3)"
    and built: "build url meta tree =
       \<lparr>snap_url = url, snap_root = into_snapshot_node raw3, snap_truncated = bs_truncated st3\<rparr>"
    by (rule build_stages)
  have "count_nodes raw3 \<le> count_nodes raw2"
    using fit_nodes(1) [of "measure_node raw2 0" 0 default_budget_chars meta st2] fitted by (simp add: measure_nodes)
  also have "\<dots> \<le> count_nodes raw1"
    using fold_nodes(1) [of raw1 st1] folded by simp
  also have "\<dots> \<le> count_nodes raw0"
    using cut_depth_nodes(1) [of budget_depth "rename_root raw0" st0] cut by (simp add: count_nodes_rename)
  also have "\<dots> \<le> max_nodes"
    using convert_nodes(1) [OF _ converted] by (simp add: max_nodes_def)
  finally have "count_nodes raw3 \<le> max_nodes" .
  moreover have "depth_le budget_depth raw1"
    using cut_depth_le(1) [of budget_depth "rename_root raw0" st0] cut by simp
  then have "depth_le budget_depth raw2"
    using fold_depth_le(1) [of budget_depth raw1 st1] folded by simp
  then have "depth_le budget_depth raw3"
    using fit_depth_le(1) [of budget_depth "measure_node raw2 0" 0 default_budget_chars meta st2] fitted
    by (simp add: measure_depth_le)
  ultimately show ?thesis
    using built by (simp add: sn_count_into sn_depth_into)
qed

end
