(* ===== verification/Observe_Pages.thy ===== *)
theory Observe_Pages
  imports Observe_Snapshot
begin

text \<open>
  The other page-side interfaces of \<open>crates/observe/src\<close>: envelopes reported by the
  serializer (\<open>response.rs\<close>) and the reader (\<open>read.rs\<close>), and the scripts built from
  references (\<open>resolver.rs\<close>). The JSON parser is a parameter. The texts of the scripts are
  constants of the source; a template is kept as the list of its lines.
\<close>

section \<open>Envelopes\<close>

definition envelope_version :: f64 where
  "envelope_version = 1"

definition envelope_of :: "(string \<Rightarrow> json option) \<Rightarrow> json \<Rightarrow> json" where
  "envelope_of parse response =
     (case response of
        JObj _ \<Rightarrow> response
      | JStr s \<Rightarrow> unwrap_or (parse s) JNull
      | _ \<Rightarrow> JNull)"

definition version_ok :: "json \<Rightarrow> bool" where
  "version_ok envelope =
     (case Option.bind (json_get envelope ''version'') as_f64 of
        None \<Rightarrow> True
      | Some version \<Rightarrow> version \<le> envelope_version)"

definition envelope_flagged :: "json \<Rightarrow> bool" where
  "envelope_flagged envelope = unwrap_or (Option.bind (json_get envelope ''truncated'') as_bool) False"

definition snapshot_from_response :: "(string \<Rightarrow> json option) \<Rightarrow> string \<Rightarrow> json \<Rightarrow> snapshot" where
  "snapshot_from_response parse url response =
     (let envelope = envelope_of parse response;
          meta = \<lparr>pm_viewport_height = map_option (\<lambda>h. max h 0)
            (Option.bind (Option.bind (json_get envelope ''viewport'') (\<lambda>v. json_get v ''height'')) as_f64)\<rparr>;
          root = json_get envelope ''root'';
          root_present = (case root of Some (JObj _) \<Rightarrow> True | _ \<Rightarrow> False);
          snap = build url meta (if root_present then the root else JObj [])
      in snap\<lparr>snap_truncated := snap_truncated snap \<or> envelope_flagged envelope \<or> \<not> version_ok envelope
                \<or> \<not> root_present\<rparr>)"

definition title_limit :: nat where "title_limit = 200"
definition markdown_limit :: nat where "markdown_limit = 100000"

definition clamp :: "string \<Rightarrow> nat \<Rightarrow> bool \<Rightarrow> string \<times> bool" where
  "clamp s limit truncated =
     (if length s \<le> limit \<or> chars_count s \<le> limit then (s, truncated) else (chars_take limit s, True))"

definition read_from_response :: "(string \<Rightarrow> json option) \<Rightarrow> json \<Rightarrow> readout" where
  "read_from_response parse response =
     (let envelope = envelope_of parse response;
          title_field = Option.bind (json_get envelope ''title'') as_str;
          markdown_field = Option.bind (json_get envelope ''markdown'') as_str;
          present = (as_object envelope \<noteq> None);
          truncated = (\<not> version_ok envelope \<or> \<not> present \<or> title_field = None \<or> markdown_field = None);
          (title, truncated) = clamp (unwrap_or title_field []) title_limit truncated;
          (markdown, truncated) = clamp (unwrap_or markdown_field []) markdown_limit truncated
      in \<lparr>ro_title = title, ro_markdown = markdown, ro_truncated = truncated \<or> envelope_flagged envelope\<rparr>)"

section \<open>Scripts\<close>

definition text_lines :: "string list \<Rightarrow> string" where
  "text_lines ls = concat (map (\<lambda>l. l @ [newline]) ls)"

definition resolver_lines :: "string list" where
  "resolver_lines =
     [''(function () {'',
      ''  'use strict';'',
      ''  var REF = \"__REF__\";'',
      ''  var store = window.__rutterRefStore;'',
      ''  if (!store || !store.reverse) return { missing: true };'',
      ''  var weak = store.reverse.get(REF);'',
      ''  var el = weak && weak.deref ? weak.deref() : null;'',
      ''  if (!el || !el.isConnected) return { missing: true };'',
      ''  try {'',
      ''    el.scrollIntoView({ block: 'center', inline: 'center', behavior: 'instant' });'',
      ''  } catch (err) {}'',
      ''  try {'',
      ''    if (__FOCUS__) el.focus();'',
      ''  } catch (err) {}'',
      ''  var box = el.getBoundingClientRect();'',
      ''  var style = null;'',
      ''  try {'',
      ''    style = window.getComputedStyle(el);'',
      ''  } catch (err) {}'',
      ''  var disabled = false;'',
      ''  try {'',
      ''    disabled = Boolean(el.disabled) || el.getAttribute('aria-disabled') === 'true';'',
      ''  } catch (err) {}'',
      ''  return {'',
      ''    missing: false,'',
      ''    x: box.left,'',
      ''    y: box.top,'',
      ''    width: box.width,'',
      ''    height: box.height,'',
      ''    disabled: disabled,'',
      ''    hidden: !style || style.visibility === 'hidden' || style.visibility === '' @ quoted ''collapse'',
      ''  };'',
      ''})();'']"

definition resolver_template :: string where
  "resolver_template = text_lines resolver_lines"

definition select_lines :: "string list" where
  "select_lines =
     [''(function () {'',
      ''  'use strict';'',
      ''  var REF = \"__REF__\";'',
      ''  var VALUES = __VALUES__;'',
      ''  var store = window.__rutterRefStore;'',
      ''  if (!store || !store.reverse) return { missing: true };'',
      ''  var weak = store.reverse.get(REF);'',
      ''  var el = weak && weak.deref ? weak.deref() : null;'',
      ''  if (!el || !el.isConnected) return { missing: true };'',
      ''  if (el.tagName !== 'SELECT') return { not_select: true };'',
      ''  var matched = 0;'',
      ''  var i;'',
      ''  for (i = 0; i < el.options.length; i += 1) {'',
      ''    if (VALUES.indexOf(el.options[i].value) !== -1) matched += 1;'',
      ''  }'',
      ''  if (matched === 0) return { missing: false, not_select: false, matched: 0 };'',
      ''  Array.prototype.forEach.call(el.options, function (option) {'',
      ''    option.selected = VALUES.indexOf(option.value) !== -1;'',
      ''  });'',
      ''  el.dispatchEvent(new Event('input', { bubbles: true }));'',
      ''  el.dispatchEvent(new Event('change', { bubbles: true }));'',
      ''  return { missing: false, not_select: false, matched: matched };'',
      ''})();'']"

definition select_template :: string where
  "select_template = text_lines select_lines"

definition wait_lines :: "string list" where
  "wait_lines =
     [''(function () {'',
      ''  'use strict';'',
      ''  var NEEDLE = __TEXT__;'',
      ''  var body = document.body;'',
      ''  return { found: Boolean(body) && body.innerText.indexOf(NEEDLE) !== -1 };'',
      ''})();'']"

definition wait_template :: string where
  "wait_template = text_lines wait_lines"

definition element_lines :: "string list" where
  "element_lines =
     [''(function () {'',
      ''  'use strict';'',
      ''  var store = window.__rutterRefStore;'',
      ''  if (!store || !store.reverse) return null;'',
      ''  var weak = store.reverse.get(\"__REF__\");'',
      ''  var el = weak && weak.deref ? weak.deref() : null;'',
      ''  if (!el || !el.isConnected) return null;'',
      ''  return el;'',
      ''})();'']"

definition element_template :: string where
  "element_template = text_lines element_lines"

definition file_check_lines :: "string list" where
  "file_check_lines =
     [''(function () {'',
      ''  'use strict';'',
      ''  var REF = \"__REF__\";'',
      ''  var store = window.__rutterRefStore;'',
      ''  if (!store || !store.reverse) return { missing: true };'',
      ''  var weak = store.reverse.get(REF);'',
      ''  var el = weak && weak.deref ? weak.deref() : null;'',
      ''  if (!el || !el.isConnected) return { missing: true };'',
      ''  if (el.tagName !== 'INPUT' || String(el.type).toLowerCase() !== 'file') {'',
      ''    return { not_file: true };'',
      ''  }'',
      ''  return { missing: false, not_file: false, ok: true, multiple: Boolean(el.multiple) };'',
      ''})();'']"

definition file_check_template :: string where
  "file_check_template = text_lines file_check_lines"

definition storage_dump_script :: string where
  "storage_dump_script = text_lines
     [''(function () {'',
      ''  'use strict';'',
      ''  try {'',
      ''    if (!window.localStorage) return { unavailable: true };'',
      ''    var data = {};'',
      ''    for (var i = 0; i < window.localStorage.length; i += 1) {'',
      ''      var key = window.localStorage.key(i);'',
      ''      data[key] = window.localStorage.getItem(key);'',
      ''    }'',
      ''    return { origin: window.location.origin, data: data };'',
      ''  } catch (err) {'',
      ''    return { unavailable: true };'',
      ''  }'',
      ''})();'']"

definition restore_lines :: "string list" where
  "restore_lines =
     [''(function () {'',
      ''  'use strict';'',
      ''  var ENTRIES = __ENTRIES__;'',
      ''  var restored = 0;'',
      ''  for (var key in ENTRIES) {'',
      ''    try {'',
      ''      window.localStorage.setItem(key, ENTRIES[key]);'',
      ''      restored += 1;'',
      ''    } catch (err) {}'',
      ''  }'',
      ''  return { restored: restored };'',
      ''})();'']"

definition restore_template :: string where
  "restore_template = text_lines restore_lines"

text \<open>
  A reference keeps its ASCII letters, digits and dashes. On UTF-8 bytes this is the same
  filter, because no byte of a longer code point is one of them.
\<close>

definition reference_char :: "char \<Rightarrow> bool" where
  "reference_char c \<longleftrightarrow> is_alphanumeric c \<or> c = CHR ''-''"

definition sanitized :: "string \<Rightarrow> string" where
  "sanitized r = filter reference_char r"

definition resolve_template :: "string \<Rightarrow> string \<Rightarrow> string" where
  "resolve_template r focus =
     replace_str ''__FOCUS__'' focus (replace_str ''__REF__'' (sanitized r) resolver_template)"

definition resolver_script :: "string \<Rightarrow> string" where
  "resolver_script r = resolve_template r ''false''"

definition focus_script :: "string \<Rightarrow> string" where
  "focus_script r = resolve_template r ''true''"

text \<open>The JSON printer of the values is a parameter.\<close>

definition select_script :: "(string list \<Rightarrow> string option) \<Rightarrow> string \<Rightarrow> string list \<Rightarrow> string" where
  "select_script to_json r vals =
     (let values_json = unwrap_or (to_json vals) ''[]''
      in replace_str ''__VALUES__'' values_json (replace_str ''__REF__'' (sanitized r) select_template))"

definition wait_for_script :: "string \<Rightarrow> string" where
  "wait_for_script text_json = replace_str ''__TEXT__'' text_json wait_template"

definition element_script :: "string \<Rightarrow> string" where
  "element_script r = replace_str ''__REF__'' (sanitized r) element_template"

definition files_check_script :: "string \<Rightarrow> string" where
  "files_check_script r = replace_str ''__REF__'' (sanitized r) file_check_template"

definition storage_restore_script :: "string \<Rightarrow> string" where
  "storage_restore_script entries_json = replace_str ''__ENTRIES__'' entries_json restore_template"

section \<open>Properties of the envelopes\<close>

lemma clamp_bound: "chars_count (fst (clamp s limit t)) \<le> limit"
  using chars_count_le_length [of s] by (auto simp: clamp_def chars_count_chars_take)

lemma clamp_unflagged: "\<not> snd (clamp s limit t) \<Longrightarrow> clamp s limit t = (s, t) \<and> \<not> t"
  by (auto simp: clamp_def split: if_splits)

text \<open>
  A readout is bounded and its flag is honest: whatever the page answers, the title has
  at most 200 and the body at most 100000 characters, and a readout that is not flagged
  holds exactly the two strings of a complete envelope of a known version.
\<close>

theorem readout_bounded_and_honest:
  "chars_count (ro_title (read_from_response parse response)) \<le> title_limit \<and>
   chars_count (ro_markdown (read_from_response parse response)) \<le> markdown_limit \<and>
   (ro_truncated (read_from_response parse response) \<or>
    (Option.bind (json_get (envelope_of parse response) ''title'') as_str =
       Some (ro_title (read_from_response parse response)) \<and>
     Option.bind (json_get (envelope_of parse response) ''markdown'') as_str =
       Some (ro_markdown (read_from_response parse response)) \<and>
     version_ok (envelope_of parse response)))"
proof -
  define envelope where "envelope = envelope_of parse response"
  define title where "title = Option.bind (json_get envelope ''title'') as_str"
  define markdown where "markdown = Option.bind (json_get envelope ''markdown'') as_str"
  define t0 where "t0 = (\<not> version_ok envelope \<or> \<not> as_object envelope \<noteq> None \<or> title = None \<or> markdown = None)"
  obtain ti t1 where ti: "clamp (unwrap_or title []) title_limit t0 = (ti, t1)"
    by (metis prod.exhaust)
  obtain md t2 where md: "clamp (unwrap_or markdown []) markdown_limit t1 = (md, t2)"
    by (metis prod.exhaust)
  have r: "read_from_response parse response =
      \<lparr>ro_title = ti, ro_markdown = md, ro_truncated = t2 \<or> envelope_flagged envelope\<rparr>"
    using ti md unfolding read_from_response_def Let_def envelope_def [symmetric] title_def [symmetric]
      markdown_def [symmetric] t0_def [symmetric] by simp
  have "chars_count ti \<le> title_limit" "chars_count md \<le> markdown_limit"
    using clamp_bound ti md by (metis fst_conv)+
  moreover have "title = Some ti \<and> markdown = Some md \<and> version_ok envelope" if "\<not> t2"
  proof -
    have "md = unwrap_or markdown []" "\<not> t1"
      using clamp_unflagged [of "unwrap_or markdown []" markdown_limit t1] md that by simp_all
    moreover have "ti = unwrap_or title []" "\<not> t0"
      using clamp_unflagged [of "unwrap_or title []" title_limit t0] ti \<open>\<not> t1\<close> by simp_all
    ultimately show ?thesis
      by (auto simp: t0_def)
  qed
  ultimately show ?thesis
    unfolding r by (auto simp: envelope_def title_def markdown_def)
qed

section \<open>Scripts hold a reference in one string literal\<close>

lemma prefix_sep: "c \<notin> set pat \<Longrightarrow> prefix pat (a @ c # b) \<longleftrightarrow> prefix pat a"
proof (induction pat arbitrary: a)
  case (Cons x pat)
  then show ?case by (cases a) auto
qed simp

lemma replace_str_sep:
  assumes "c \<notin> set pat" and "pat \<noteq> []"
  shows "replace_str pat new (a @ c # b) = replace_str pat new a @ c # replace_str pat new b"
proof (induction "length a" arbitrary: a rule: less_induct)
  case less
  show ?case
  proof (cases a)
    case Nil
    with assms show ?thesis by (cases pat) auto
  next
    case (Cons x a')
    show ?thesis
    proof (cases "prefix pat (x # a')")
      case True
      then have "length pat \<le> length (x # a')"
        by (rule prefix_length_le)
      then have "drop (length pat) (x # a' @ c # b) = drop (length pat) (x # a') @ c # b"
        using assms(2) by (cases pat) simp_all
      moreover have "replace_str pat new (drop (length pat) (x # a') @ c # b) =
          replace_str pat new (drop (length pat) (x # a')) @ c # replace_str pat new b"
        using less [of "drop (length pat) (x # a')"] Cons assms(2) by (cases pat) auto
      moreover have "prefix pat (x # a' @ c # b)"
        using prefix_sep [OF assms(1), of "x # a'" b] True by simp
      ultimately show ?thesis
        using Cons True assms(2) by simp
    next
      case False
      then have "\<not> prefix pat (x # a' @ c # b)"
        using prefix_sep [OF assms(1), of "x # a'" b] by simp
      with False Cons less [of a'] show ?thesis
        by simp
    qed
  qed
qed

lemma replace_str_absent: "find_sub pat s = None \<Longrightarrow> replace_str pat new s = s"
  by (induction s) (auto split: if_splits)

lemma find_sub_head_absent: "pat \<noteq> [] \<Longrightarrow> hd pat \<notin> set s \<Longrightarrow> find_sub pat s = None"
  by (induction s) (auto simp: prefix_Cons neq_Nil_conv)

lemma text_lines_simps [simp]:
  "text_lines [] = []"
  "text_lines (l # ls) = l @ newline # text_lines ls"
  "text_lines (xs @ ys) = text_lines xs @ text_lines ys"
  by (simp_all add: text_lines_def)

lemma replace_lines_append:
  "newline \<notin> set pat \<Longrightarrow> pat \<noteq> [] \<Longrightarrow> \<forall>l \<in> set ls. find_sub pat l = None \<Longrightarrow>
   replace_str pat new (text_lines ls @ u) = text_lines ls @ replace_str pat new u"
  by (induction ls) (simp_all add: replace_str_sep replace_str_absent)

text \<open>A template with one hole between two quotes of one line.\<close>

lemma one_hole:
  assumes "t = text_lines ls" and "i < length ls" and "ls ! i = u @ quote_char # ''__REF__'' @ quote_char # v"
    and "\<forall>l \<in> set (take i ls @ [u, v] @ drop (Suc i) ls). find_sub ''__REF__'' l = None"
  shows "replace_str ''__REF__'' new t =
    (text_lines (take i ls) @ u) @ quote_char # new @ quote_char # (v @ newline # text_lines (drop (Suc i) ls))"
proof -
  have "ls = take i ls @ (u @ quote_char # ''__REF__'' @ quote_char # v) # drop (Suc i) ls"
    using id_take_nth_drop [OF assms(2)] assms(3) by simp
  from arg_cong [OF this, of text_lines] have t: "t = (text_lines (take i ls) @ u) @ quote_char # ''__REF__'' @ quote_char #
      (v @ newline # text_lines (drop (Suc i) ls))"
    by (simp only: assms(1) text_lines_simps(2,3) append.assoc append_Cons append_Nil)
  have lines: "replace_str ''__REF__'' new (text_lines (take i ls) @ u) = text_lines (take i ls) @ u"
    "replace_str ''__REF__'' new (text_lines (drop (Suc i) ls)) = text_lines (drop (Suc i) ls)"
    using assms(4) replace_lines_append [of "''__REF__''" "take i ls" new u]
      replace_lines_append [of "''__REF__''" "drop (Suc i) ls" new "[]"]
    by (simp_all add: replace_str_absent)
  have v: "replace_str ''__REF__'' new v = v"
    using assms(4) by (simp add: replace_str_absent)
  let ?rest = "v @ newline # text_lines (drop (Suc i) ls)"
  have "replace_str ''__REF__'' new t =
      replace_str ''__REF__'' new (text_lines (take i ls) @ u) @ quote_char #
      replace_str ''__REF__'' new (''__REF__'' @ quote_char # ?rest)"
    unfolding t by (rule replace_str_sep) simp_all
  also have "replace_str ''__REF__'' new (''__REF__'' @ quote_char # ?rest) =
      replace_str ''__REF__'' new ''__REF__'' @ quote_char # replace_str ''__REF__'' new ?rest"
    by (rule replace_str_sep) simp_all
  also have "replace_str ''__REF__'' new ?rest = ?rest"
    using replace_str_sep [of newline "''__REF__''" new v] v lines(2) by simp
  finally show ?thesis
    by (simp add: lines(1))
qed

lemma resolver_hole: "\<exists>pre post. \<forall>new. replace_str ''__REF__'' new resolver_template = pre @ quote_char # new @ quote_char # post"
  by (intro exI allI) (rule one_hole [OF resolver_template_def, of 2 "''  var REF = ''" "'';''"], simp_all add: resolver_lines_def quoted_def)

lemma select_hole: "\<exists>pre post. \<forall>new. replace_str ''__REF__'' new select_template = pre @ quote_char # new @ quote_char # post"
  by (intro exI allI) (rule one_hole [OF select_template_def, of 2 "''  var REF = ''" "'';''"], simp_all add: select_lines_def quoted_def)

lemma file_check_hole: "\<exists>pre post. \<forall>new. replace_str ''__REF__'' new file_check_template = pre @ quote_char # new @ quote_char # post"
  by (intro exI allI) (rule one_hole [OF file_check_template_def, of 2 "''  var REF = ''" "'';''"], simp_all add: file_check_lines_def quoted_def)

lemma element_hole: "\<exists>pre post. \<forall>new. replace_str ''__REF__'' new element_template = pre @ quote_char # new @ quote_char # post"
  by (intro exI allI) (rule one_hole [OF element_template_def, of 4 "''  var weak = store.reverse.get(''" "'');''"], simp_all add: element_lines_def quoted_def)

lemma sanitized_chars: "c \<in> set (sanitized r) \<Longrightarrow> reference_char c"
  by (simp add: sanitized_def)

lemma sanitized_no_underscore: "CHR ''_'' \<notin> set (sanitized r)"
  by (auto simp: sanitized_def reference_char_def is_alphanumeric_def is_digit_def is_upper_def is_lower_def)

text \<open>Replacing another marker leaves the literal alone.\<close>

lemma replace_around:
  assumes "quote_char \<notin> set pat" and "pat \<noteq> []" and "hd pat = CHR ''_''"
  shows "replace_str pat new (a @ quote_char # sanitized r @ quote_char # b) =
    replace_str pat new a @ quote_char # sanitized r @ quote_char # replace_str pat new b"
  using assms find_sub_head_absent [of pat "sanitized r"] sanitized_no_underscore [of r]
  by (simp add: replace_str_sep replace_str_absent)

lemma resolve_template_shape:
  "\<exists>pre post. \<forall>r. resolve_template r focus = pre @ quote_char # sanitized r @ quote_char # post"
  proof -
  obtain pre post where "replace_str ''__REF__'' new resolver_template = pre @ quote_char # new @ quote_char # post" for new
    using resolver_hole by blast
  note this [simp]
  show ?thesis
    unfolding resolve_template_def by (intro exI allI) (simp, rule replace_around, simp_all)
qed

lemma select_script_shape:
  "\<exists>pre post. \<forall>r. select_script to_json r vals = pre @ quote_char # sanitized r @ quote_char # post"
  proof -
  obtain pre post where "replace_str ''__REF__'' new select_template = pre @ quote_char # new @ quote_char # post" for new
    using select_hole by blast
  note this [simp]
  show ?thesis
    unfolding select_script_def Let_def by (intro exI allI) (simp, rule replace_around, simp_all)
qed

text \<open>
  C6. No reference can leave its string literal: each script built from a reference is a
  fixed text around one quoted literal, the literal holds the sanitized reference, and a
  sanitized reference is made of ASCII letters, digits and dashes only, so it can neither
  close the literal nor escape inside it.
\<close>

theorem references_stay_quoted:
  "(\<exists>pre post. \<forall>r. resolver_script r = pre @ quote_char # sanitized r @ quote_char # post) \<and>
   (\<exists>pre post. \<forall>r. focus_script r = pre @ quote_char # sanitized r @ quote_char # post) \<and>
   (\<exists>pre post. \<forall>r. element_script r = pre @ quote_char # sanitized r @ quote_char # post) \<and>
   (\<exists>pre post. \<forall>r. files_check_script r = pre @ quote_char # sanitized r @ quote_char # post) \<and>
   (\<forall>to_json vals. \<exists>pre post. \<forall>r.
      select_script to_json r vals = pre @ quote_char # sanitized r @ quote_char # post) \<and>
   (\<forall>r. list_all (\<lambda>c. is_alphanumeric c \<or> c = CHR ''-'') (sanitized r))"
proof (intro conjI allI)
  show "\<exists>pre post. \<forall>r. resolver_script r = pre @ quote_char # sanitized r @ quote_char # post"
    "\<exists>pre post. \<forall>r. focus_script r = pre @ quote_char # sanitized r @ quote_char # post"
    unfolding resolver_script_def focus_script_def by (rule resolve_template_shape)+
  show "\<exists>pre post. \<forall>r. element_script r = pre @ quote_char # sanitized r @ quote_char # post"
    using element_hole unfolding element_script_def by blast
  show "\<exists>pre post. \<forall>r. files_check_script r = pre @ quote_char # sanitized r @ quote_char # post"
    using file_check_hole unfolding files_check_script_def by blast
  show "\<exists>pre post. \<forall>r. select_script to_json r vals = pre @ quote_char # sanitized r @ quote_char # post" for to_json vals
    by (rule select_script_shape)
  show "list_all (\<lambda>c. is_alphanumeric c \<or> c = CHR ''-'') (sanitized r)" for r
    using sanitized_chars by (auto simp: list_all_iff reference_char_def)
qed

end
