(* ===== verification/Session_Pages.thy ===== *)
theory Session_Pages
  imports Engine
begin

text \<open>
  The page registry of a session, \<open>crates/session/src/pages.rs\<close>, with the list that recovery
  rebuilds (\<open>crates/session/src/session/mod.rs\<close>, \<open>recover\<close>). The registry is one state behind
  one mutex, so every operation is one atomic step; \<open>'h\<close> is the type of the page handles,
  which the registry stores and hands out but never calls.
\<close>

section \<open>State\<close>

record 'h page_slot =
  ps_id :: page_id
  ps_url :: string
  ps_handle :: 'h
  ps_active :: bool

record page_info =
  pi_id :: page_id
  pi_url :: string
  pi_active :: bool

record recovery_point =
  rp_url :: string
  rp_active :: bool

record 'h registry =
  pr_slots :: "'h page_slot list"
  pr_recovering :: bool

section \<open>Operations\<close>

definition registry_new :: "'h registry" where
  "registry_new = \<lparr>pr_slots = [], pr_recovering = False\<rparr>"

definition active_page :: "'h registry \<Rightarrow> (page_id \<times> 'h) option" where
  "active_page r =
     (if pr_recovering r then None
      else map_option (\<lambda>slot. (ps_id slot, ps_handle slot)) (find ps_active (pr_slots r)))"

definition accepts_new_page :: "'h registry \<Rightarrow> bool" where
  "accepts_new_page r \<longleftrightarrow> \<not> pr_recovering r"

definition admit_active :: "'h page_slot \<Rightarrow> 'h registry \<Rightarrow> bool \<times> 'h registry" where
  "admit_active slot r =
     (if pr_recovering r \<or> list_ex ps_active (pr_slots r) then (False, r)
      else (True, r\<lparr>pr_slots := pr_slots r @ [slot\<lparr>ps_active := True\<rparr>]\<rparr>))"

definition admit :: "'h page_slot \<Rightarrow> 'h registry \<Rightarrow> bool \<times> 'h registry" where
  "admit slot r =
     (if pr_recovering r \<or> list_ex (\<lambda>existing. ps_id existing = ps_id slot) (pr_slots r)
      then (False, r)
      else (True, r\<lparr>pr_slots := pr_slots r @ [slot]\<rparr>))"

definition set_url :: "page_id \<Rightarrow> string \<Rightarrow> 'h registry \<Rightarrow> 'h registry" where
  "set_url i url r =
     r\<lparr>pr_slots := map (\<lambda>slot. if ps_id slot = i then slot\<lparr>ps_url := url\<rparr> else slot) (pr_slots r)\<rparr>"

definition tracks :: "page_id \<Rightarrow> 'h registry \<Rightarrow> bool" where
  "tracks i r \<longleftrightarrow> list_ex (\<lambda>slot. ps_id slot = i) (pr_slots r)"

definition list_pages :: "'h registry \<Rightarrow> page_info list" where
  "list_pages r =
     map (\<lambda>slot. \<lparr>pi_id = ps_id slot, pi_url = ps_url slot, pi_active = ps_active slot\<rparr>) (pr_slots r)"

definition activate :: "page_id \<Rightarrow> 'h registry \<Rightarrow> 'h option \<times> 'h registry" where
  "activate i r =
     (if \<not> tracks i r then (None, r)
      else
        (let r' = r\<lparr>pr_slots := map (\<lambda>slot. slot\<lparr>ps_active := (ps_id slot = i)\<rparr>) (pr_slots r)\<rparr>
         in (map_option ps_handle (find (\<lambda>slot. ps_id slot = i) (pr_slots r')), r')))"

fun position :: "('a \<Rightarrow> bool) \<Rightarrow> 'a list \<Rightarrow> nat option" where
  "position p [] = None"
| "position p (x # xs) = (if p x then Some 0 else map_option Suc (position p xs))"

fun mark_first :: "'h page_slot list \<Rightarrow> 'h page_slot list" where
  "mark_first [] = []"
| "mark_first (slot # slots) = slot\<lparr>ps_active := True\<rparr> # slots"

definition remove_page :: "page_id \<Rightarrow> 'h registry \<Rightarrow> 'h page_slot option \<times> 'h registry" where
  "remove_page i r =
     (case position (\<lambda>slot. ps_id slot = i) (pr_slots r) of
        None \<Rightarrow> (None, r)
      | Some p \<Rightarrow>
          (let taken = pr_slots r ! p;
               rest = take p (pr_slots r) @ drop (Suc p) (pr_slots r)
           in (Some taken, r\<lparr>pr_slots := (if ps_active taken then mark_first rest else rest)\<rparr>)))"

definition page_pairs :: "'h registry \<Rightarrow> (string \<times> 'h) list" where
  "page_pairs r = map (\<lambda>slot. (ps_url slot, ps_handle slot)) (pr_slots r)"

definition begin_recovery :: "'h registry \<Rightarrow> recovery_point list \<times> 'h registry" where
  "begin_recovery r =
     (map (\<lambda>slot. \<lparr>rp_url = ps_url slot, rp_active = ps_active slot\<rparr>) (pr_slots r),
      r\<lparr>pr_recovering := True\<rparr>)"

definition drop_gate :: "'h registry \<Rightarrow> 'h registry" where
  "drop_gate r = r\<lparr>pr_recovering := False\<rparr>"

definition finish_recovery :: "'h page_slot list \<Rightarrow> 'h registry \<Rightarrow> 'h registry" where
  "finish_recovery slots r =
     drop_gate (r\<lparr>pr_slots := (if list_ex ps_active slots then slots else mark_first slots),
                  pr_recovering := False\<rparr>)"

definition clear_pages :: "'h registry \<Rightarrow> 'h registry" where
  "clear_pages r = r\<lparr>pr_slots := [], pr_recovering := False\<rparr>"

section \<open>What recovery rebuilds\<close>

text \<open>
  The loop of \<open>recover\<close>: each saved point whose URL is worth reopening asks the engine for a
  page, and the answers come in \<open>opened\<close>, one per point (\<^term>\<open>None\<close> where the engine refused).
  The active point is tracked by its position.
\<close>

definition blank_url :: "string \<Rightarrow> bool" where
  "blank_url url \<longleftrightarrow> url = [] \<or> url = ''about:blank''"

fun rebuild_from ::
  "nat option \<Rightarrow> nat \<Rightarrow> recovery_point list \<Rightarrow> (nat \<Rightarrow> (page_id \<times> 'h) option) \<Rightarrow> 'h page_slot list" where
  "rebuild_from active k [] opened = []"
| "rebuild_from active k (point # points) opened =
     (if blank_url (rp_url point) then rebuild_from active (Suc k) points opened
      else
        (case opened k of
           None \<Rightarrow> rebuild_from active (Suc k) points opened
         | Some (i, handle) \<Rightarrow>
             \<lparr>ps_id = i, ps_url = rp_url point, ps_handle = handle, ps_active = (active = Some k)\<rparr>
             # rebuild_from active (Suc k) points opened))"

definition rebuild :: "recovery_point list \<Rightarrow> (nat \<Rightarrow> (page_id \<times> 'h) option) \<Rightarrow> 'h page_slot list" where
  "rebuild saved opened = rebuild_from (position rp_active saved) 0 saved opened"

section \<open>Every step of every caller\<close>

text \<open>
  The registry calls as the session makes them: \<open>ensure_page\<close> admits an active page,
  \<open>open_page\<close> and \<open>sync_foreign_pages\<close> admit an inactive one, recovery finishes with the list
  it rebuilt from the points it read out.
\<close>

datatype 'h registry_op =
    AdmitActive page_id 'h
  | AdmitInactive page_id string 'h
  | SetUrl page_id string
  | Activate page_id
  | RemovePage page_id
  | BeginRecovery
  | DropGate
  | FinishRecovery "recovery_point list" "nat \<Rightarrow> (page_id \<times> 'h) option"
  | ClearPages

fun registry_step :: "'h registry_op \<Rightarrow> 'h registry \<Rightarrow> 'h registry" where
  "registry_step (AdmitActive i handle) r =
     snd (admit_active \<lparr>ps_id = i, ps_url = [], ps_handle = handle, ps_active = True\<rparr> r)"
| "registry_step (AdmitInactive i url handle) r =
     snd (admit \<lparr>ps_id = i, ps_url = url, ps_handle = handle, ps_active = False\<rparr> r)"
| "registry_step (SetUrl i url) r = set_url i url r"
| "registry_step (Activate i) r = snd (activate i r)"
| "registry_step (RemovePage i) r = snd (remove_page i r)"
| "registry_step BeginRecovery r = snd (begin_recovery r)"
| "registry_step DropGate r = drop_gate r"
| "registry_step (FinishRecovery saved opened) r = finish_recovery (rebuild saved opened) r"
| "registry_step ClearPages r = clear_pages r"

section \<open>The invariant\<close>

definition active_count :: "'h page_slot list \<Rightarrow> nat" where
  "active_count slots = length (filter ps_active slots)"

lemma active_count_simps [simp]:
  "active_count [] = 0"
  "active_count (slot # slots) = (if ps_active slot then Suc (active_count slots) else active_count slots)"
  "active_count (slots @ slots') = active_count slots + active_count slots'"
  by (simp_all add: active_count_def)

lemma active_count_0_iff: "active_count slots = 0 \<longleftrightarrow> \<not> list_ex ps_active slots"
  by (induction slots) auto

lemma active_count_set_url [simp]:
  "active_count (map (\<lambda>slot. if ps_id slot = i then slot\<lparr>ps_url := url\<rparr> else slot) slots) = active_count slots"
  by (induction slots) auto

lemma active_count_mark_first: "active_count (mark_first slots) \<le> Suc (active_count slots)"
  by (cases slots) auto

lemma position_Some:
  "position p xs = Some k \<Longrightarrow> k < length xs \<and> p (xs ! k) \<and> (\<forall>j < k. \<not> p (xs ! j))"
  by (induction xs arbitrary: k) (auto simp: less_Suc_eq_0_disj split: if_splits)

lemma position_None_iff: "position p xs = None \<longleftrightarrow> \<not> list_ex p xs"
  by (induction xs) auto

lemma active_count_rebuild_from:
  "active_count (rebuild_from active k points opened) \<le> (case active of None \<Rightarrow> 0 | Some a \<Rightarrow> of_bool (k \<le> a))"
proof (induction points arbitrary: k)
  case Nil
  then show ?case by (auto split: option.splits)
next
  case (Cons point points)
  from Cons.IH [of "Suc k"]
  have "active_count (rebuild_from active (Suc k) points opened)
      + of_bool (active = Some k) \<le> (case active of None \<Rightarrow> 0 | Some a \<Rightarrow> of_bool (k \<le> a))"
    by (cases active) (auto split: if_splits)
  then show ?case
    by (auto split: option.splits if_splits)
qed

lemma active_count_rebuild: "active_count (rebuild saved opened) \<le> 1"
  using active_count_rebuild_from [of "position rp_active saved" 0 saved opened]
  by (auto simp: rebuild_def split: option.splits)

text \<open>
  The registry relies on the engine for one thing: a page it opens has an identifier no
  tracked page has. \<open>admit\<close> checks that itself; \<open>admit_active\<close> and the rebuilt list do not.
\<close>

fun fresh_ids :: "'h registry_op \<Rightarrow> 'h registry \<Rightarrow> bool" where
  "fresh_ids (AdmitActive i handle) r \<longleftrightarrow> \<not> tracks i r"
| "fresh_ids (FinishRecovery saved opened) r \<longleftrightarrow> distinct (map ps_id (rebuild saved opened))"
| "fresh_ids _ r \<longleftrightarrow> True"

fun fresh_run :: "'h registry_op list \<Rightarrow> 'h registry \<Rightarrow> bool" where
  "fresh_run [] r \<longleftrightarrow> True"
| "fresh_run (x # xs) r \<longleftrightarrow> fresh_ids x r \<and> fresh_run xs (registry_step x r)"

definition registry_ok :: "'h registry \<Rightarrow> bool" where
  "registry_ok r \<longleftrightarrow> distinct (map ps_id (pr_slots r)) \<and> active_count (pr_slots r) \<le> 1"

lemma ids_map_keeps [simp]:
  "map ps_id (map (\<lambda>slot. if ps_id slot = i then slot\<lparr>ps_url := url\<rparr> else slot) slots) = map ps_id slots"
  "map ps_id (map (\<lambda>slot. slot\<lparr>ps_active := f slot\<rparr>) slots) = map ps_id slots"
  "map ps_id (mark_first slots) = map ps_id slots"
  by (simp_all, cases slots, simp_all)

lemma active_count_activate:
  "distinct (map ps_id slots) \<Longrightarrow>
   active_count (map (\<lambda>slot. slot\<lparr>ps_active := (ps_id slot = i)\<rparr>) slots) = of_bool (i \<in> ps_id ` set slots)"
  by (induction slots) auto

lemma tracks_iff: "tracks i r \<longleftrightarrow> i \<in> ps_id ` set (pr_slots r)"
  by (auto simp: tracks_def list_ex_iff)

lemma registry_ok_admit_active:
  assumes "registry_ok r" and "\<not> tracks (ps_id slot) r"
  shows "registry_ok (snd (admit_active slot r))"
  using assms active_count_0_iff [of "pr_slots r"]
  by (auto simp: admit_active_def registry_ok_def tracks_iff)

lemma registry_ok_admit:
  "registry_ok r \<Longrightarrow> \<not> ps_active slot \<Longrightarrow> registry_ok (snd (admit slot r))"
  by (auto simp: admit_def registry_ok_def list_ex_iff)

lemma registry_ok_activate:
  "registry_ok r \<Longrightarrow> registry_ok (snd (activate i r))"
  by (simp add: activate_def registry_ok_def Let_def active_count_activate o_def cong: map_cong)

lemma registry_ok_set_url: "registry_ok r \<Longrightarrow> registry_ok (set_url i url r)"
  by (simp add: registry_ok_def set_url_def del: map_map)

lemma registry_ok_remove:
  assumes "registry_ok r"
  shows "registry_ok (snd (remove_page i r))"
proof (cases "position (\<lambda>slot. ps_id slot = i) (pr_slots r)")
  case None
  then show ?thesis using assms by (simp add: remove_page_def)
next
  case (Some p)
  let ?rest = "take p (pr_slots r) @ drop (Suc p) (pr_slots r)"
  have split: "pr_slots r = take p (pr_slots r) @ pr_slots r ! p # drop (Suc p) (pr_slots r)"
    using position_Some [OF Some] id_take_nth_drop by blast
  have "distinct (map ps_id ?rest)"
    using assms unfolding registry_ok_def by (subst (asm) split) auto
  moreover have "active_count ?rest + of_bool (ps_active (pr_slots r ! p)) \<le> 1"
    using assms unfolding registry_ok_def by (subst (asm) (2) split) (auto split: if_splits)
  ultimately show ?thesis
    using Some active_count_mark_first [of ?rest]
    by (auto simp: remove_page_def Let_def registry_ok_def simp del: map_append)
qed

lemma registry_ok_finish:
  assumes "distinct (map ps_id slots)" and "active_count slots \<le> 1"
  shows "registry_ok (finish_recovery slots r)"
  using assms active_count_mark_first [of slots] active_count_0_iff [of slots]
  by (auto simp: finish_recovery_def drop_gate_def registry_ok_def)

lemma registry_ok_step:
  assumes "registry_ok r" and "fresh_ids x r"
  shows "registry_ok (registry_step x r)"
proof (cases x)
  case (FinishRecovery saved opened)
  then show ?thesis
    using assms active_count_rebuild [of saved opened] by (simp add: registry_ok_finish)
next
  case (AdmitActive i handle)
  then show ?thesis
    using assms by (simp add: registry_ok_admit_active)
next
  case (AdmitInactive i url handle)
  then show ?thesis
    using assms by (simp add: registry_ok_admit)
qed (use assms in \<open>simp_all add: registry_ok_activate registry_ok_remove registry_ok_set_url,
       simp_all add: registry_ok_def begin_recovery_def drop_gate_def clear_pages_def o_def\<close>)

text \<open>The steps with fresh identifiers are a component with an invariant.\<close>

definition fresh_step :: "'h registry_op \<Rightarrow> 'h registry \<Rightarrow> 'h registry" where
  "fresh_step x r = (if fresh_ids x r then registry_step x r else r)"

interpretation page_registry: guarded_state registry_new fresh_step registry_ok
  by unfold_locales (simp_all add: fresh_step_def registry_ok_step, simp add: registry_new_def registry_ok_def)

lemma fresh_run_steps: "fresh_run xs r \<Longrightarrow> run_ops registry_step xs r = run_ops fresh_step xs r"
  by (induction xs arbitrary: r) (auto simp: fresh_step_def)


section \<open>What recovery leaves\<close>

text \<open>The positions of the saved points that come back: worth reopening, and reopened.\<close>

definition reopened :: "recovery_point list \<Rightarrow> (nat \<Rightarrow> (page_id \<times> 'h) option) \<Rightarrow> nat list" where
  "reopened saved opened =
     filter (\<lambda>k. \<not> blank_url (rp_url (saved ! k)) \<and> opened k \<noteq> None) [0..<length saved]"

definition restored_slot ::
  "nat option \<Rightarrow> recovery_point list \<Rightarrow> (nat \<Rightarrow> (page_id \<times> 'h) option) \<Rightarrow> nat \<Rightarrow> 'h page_slot" where
  "restored_slot active saved opened k =
     \<lparr>ps_id = fst (the (opened k)), ps_url = rp_url (saved ! k), ps_handle = snd (the (opened k)),
      ps_active = (active = Some k)\<rparr>"

lemma rebuild_from_reopened:
  "rebuild_from active (length done) points opened =
     map (restored_slot active (done @ points) opened)
       (filter (\<lambda>k. \<not> blank_url (rp_url ((done @ points) ! k)) \<and> opened k \<noteq> None)
          [length done..<length (done @ points)])"
proof (induction points arbitrary: "done")
  case Nil
  then show ?case by simp
next
  case (Cons point points)
  have range: "[length done..<length (done @ point # points)]
      = length done # [length (done @ [point])..<length ((done @ [point]) @ points)]"
    by (simp add: upt_rec)
  show ?case
    unfolding range using Cons.IH [of "done @ [point]"]
    by (auto simp: restored_slot_def split: option.splits)
qed

lemma rebuild_reopened:
  "rebuild saved opened =
     map (restored_slot (position rp_active saved) saved opened) (reopened saved opened)"
  using rebuild_from_reopened [of "position rp_active saved" "[]" saved opened]
  by (simp add: rebuild_def reopened_def)

lemma active_of_restored:
  "map_option (\<lambda>slot. (ps_id slot, ps_handle slot))
     (find ps_active (map (restored_slot (Some a) saved opened) ks)) =
   (if a \<in> set ks then Some (the (opened a)) else None)"
  by (induction ks) (auto simp: restored_slot_def)

lemma list_ex_restored:
  "list_ex ps_active (map (restored_slot active saved opened) ks) \<longleftrightarrow> (\<exists>a. active = Some a \<and> a \<in> set ks)"
  by (auto simp: list_ex_iff restored_slot_def)

section \<open>Properties\<close>

text \<open>
  C13. At most one page of a session is active, and no page is listed twice, after every
  interleaving of the registry calls of concurrent actions, page listings, tab operations
  and recoveries. The engine gives every page it opens an identifier no tracked page has.
\<close>

theorem one_active_page:
  assumes "fresh_run xs registry_new"
  shows "length (filter pi_active (list_pages (run_ops registry_step xs registry_new))) \<le> 1 \<and>
         distinct (map pi_id (list_pages (run_ops registry_step xs registry_new)))"
  using page_registry.run_inv [of xs] fresh_run_steps [OF assms]
  by (simp add: registry_ok_def list_pages_def active_count_def filter_map o_def)

theorem one_active_page_witness:
  "length (filter pi_active (list_pages (run_ops registry_step
      [AdmitActive (PageId ''a'') (), AdmitInactive (PageId ''b'') ''u'' (), Activate (PageId ''b''),
       AdmitActive (PageId ''c'') (), RemovePage (PageId ''b'')] registry_new))) \<le> 1"
  using one_active_page [of "[AdmitActive (PageId ''a'') (), AdmitInactive (PageId ''b'') ''u'' (),
      Activate (PageId ''b''), AdmitActive (PageId ''c'') (), RemovePage (PageId ''b'')]"]
  by (simp add: registry_new_def admit_active_def admit_def activate_def tracks_def Let_def)

text \<open>
  After an engine restart the registry holds exactly the saved tabs that were worth
  reopening and that the engine reopened, in their old order and at their old URLs, and it
  answers again: its active page is the one that replaces the old active page, or the first
  restored page when that one did not come back.
\<close>

theorem recovery_restores_tabs:
  "let r' = finish_recovery (rebuild saved opened) r;
       ks = reopened saved opened
   in map (\<lambda>slot. (ps_url slot, ps_id slot, ps_handle slot)) (pr_slots r')
        = map (\<lambda>k. (rp_url (saved ! k), the (opened k))) ks \<and>
      accepts_new_page r' \<and>
      active_page r' =
        (case ks of
           [] \<Rightarrow> None
         | k # _ \<Rightarrow>
             (case position rp_active saved of
                Some a \<Rightarrow> if a \<in> set ks then Some (the (opened a)) else Some (the (opened k))
              | None \<Rightarrow> Some (the (opened k))))"
proof (cases "list_ex ps_active (rebuild saved opened)")
  case True
  then obtain a where "position rp_active saved = Some a" "a \<in> set (reopened saved opened)"
    by (auto simp: rebuild_reopened list_ex_restored)
  then show ?thesis
    using True
    by (auto simp: finish_recovery_def drop_gate_def accepts_new_page_def active_page_def
        rebuild_reopened active_of_restored Let_def restored_slot_def split: list.splits)
next
  case False
  then show ?thesis
    by (cases "reopened saved opened")
      (auto simp: finish_recovery_def drop_gate_def accepts_new_page_def active_page_def
        rebuild_reopened list_ex_restored Let_def restored_slot_def split: option.splits)
qed

end
