(* ===== verification/Session_Wait.thy ===== *)
theory Session_Wait
  imports Events Engine Observe_Pages
begin

text \<open>
  Waiting in a session: the configuration (\<open>crates/session/src/config.rs\<close>), bounded polling
  (\<open>wait.rs\<close>), resolved element boxes (\<open>resolve.rs\<close>) and the auto-wait loop of
  \<open>actions/mod.rs\<close>.

  A running session is a state \<open>'z sys_scheme\<close>: the process clock, the wall-clock text the
  backbone stamps, the backbone, and whatever else (\<open>'z\<close>) the caller has. Every call that the
  source awaits is a field of \<open>page_api\<close>, a function on the whole state: while it is awaited
  the clock moves, and other tasks may publish, park or open pages. What a proof needs of
  these calls it assumes by name.
\<close>

section \<open>The system and the calls it awaits\<close>

record sys =
  sy_now :: instant
  sy_wall :: string
  sy_backbone :: backbone

record ('h, 's) page_api =
  pa_evaluate :: "'h \<Rightarrow> string \<Rightarrow> 's \<Rightarrow> (engine_error + json) \<times> 's"
  pa_navigate :: "'h \<Rightarrow> string \<Rightarrow> 's \<Rightarrow> (engine_error + string) \<times> 's"
  pa_reload :: "'h \<Rightarrow> 's \<Rightarrow> (engine_error + unit) \<times> 's"
  pa_go_back :: "'h \<Rightarrow> 's \<Rightarrow> (engine_error + string) \<times> 's"
  pa_go_forward :: "'h \<Rightarrow> 's \<Rightarrow> (engine_error + string) \<times> 's"
  pa_dispatch :: "'h \<Rightarrow> input_event \<Rightarrow> 's \<Rightarrow> (engine_error + unit) \<times> 's"
  pa_set_files :: "'h \<Rightarrow> string \<Rightarrow> string list \<Rightarrow> 's \<Rightarrow> (engine_error + unit) \<times> 's"
  pa_screenshot :: "'h \<Rightarrow> 's \<Rightarrow> (engine_error + screenshot) \<times> 's"
  pa_start_screencast :: "'h \<Rightarrow> 's \<Rightarrow> (engine_error + string list) \<times> 's"
  pa_set_viewport :: "'h \<Rightarrow> nat \<Rightarrow> nat \<Rightarrow> 's \<Rightarrow> (engine_error + unit) \<times> 's"
  pa_path_exists :: "string \<Rightarrow> 's \<Rightarrow> bool"
  pa_sleep :: "duration \<Rightarrow> 's \<Rightarrow> 's"

text \<open>\<open>Backbone::publish\<close> of one event, stamped with the wall clock.\<close>

definition emit :: "session_id \<Rightarrow> event \<Rightarrow> 'z sys_scheme \<Rightarrow> 'z sys_scheme" where
  "emit session e s = s\<lparr>sy_backbone := publish session e (sy_wall s) (sy_backbone s)\<rparr>"

lemma emit_fields [simp]:
  "sy_now (emit session e s) = sy_now s"
  "sy_wall (emit session e s) = sy_wall s"
  "sys.more (emit session e s) = sys.more s"
  by (simp_all add: emit_def)

section \<open>Configuration\<close>

record session_config =
  sc_max_pages :: nat
  sc_max_sessions :: nat
  sc_navigation_timeout :: duration
  sc_phase_timeout :: duration
  sc_stability_sample_interval :: duration
  sc_settle :: duration
  sc_poll_interval :: duration

definition session_context_config :: "session_config \<Rightarrow> context_config" where
  "session_context_config c =
     \<lparr>cc_max_pages = sc_max_pages c, cc_navigation_timeout = sc_navigation_timeout c,
      cc_screenshot_min_interval = from_millis 500\<rparr>"

definition default_session_config :: session_config where
  "default_session_config =
     \<lparr>sc_max_pages = 8, sc_max_sessions = 8, sc_navigation_timeout = from_secs 30,
      sc_phase_timeout = from_secs 5, sc_stability_sample_interval = from_millis 80,
      sc_settle = from_millis 250, sc_poll_interval = from_millis 100\<rparr>"

section \<open>Bounded polling\<close>

definition max_poll_budget :: duration where
  "max_poll_budget = from_secs 600"

partial_function (option) poll_loop ::
  "('z sys_scheme \<Rightarrow> 'a option \<times> 'z sys_scheme) \<Rightarrow> (duration \<Rightarrow> 'z sys_scheme \<Rightarrow> 'z sys_scheme) \<Rightarrow>
   instant \<Rightarrow> duration \<Rightarrow> 'z sys_scheme \<Rightarrow> ('a option \<times> 'z sys_scheme) option" where
  "poll_loop check sleep deadline interval s =
     (case check s of (found, s1) \<Rightarrow>
        (case found of
           Some v \<Rightarrow> Some (Some v, s1)
         | None \<Rightarrow>
             if deadline \<le> sy_now s1 then Some (None, s1)
             else poll_loop check sleep deadline interval
                    (sleep (min interval (deadline - sy_now s1)) s1)))"

definition poll_until ::
  "('z sys_scheme \<Rightarrow> 'a option \<times> 'z sys_scheme) \<Rightarrow> (duration \<Rightarrow> 'z sys_scheme \<Rightarrow> 'z sys_scheme) \<Rightarrow>
   duration \<Rightarrow> duration \<Rightarrow> 'z sys_scheme \<Rightarrow> ('a option \<times> 'z sys_scheme) option" where
  "poll_until check sleep budget interval s =
     poll_loop check sleep (sy_now s + min budget max_poll_budget) interval s"

section \<open>Resolved elements\<close>

record element_box =
  eb_x :: f64
  eb_y :: f64
  eb_width :: f64
  eb_height :: f64
  eb_disabled :: bool
  eb_hidden :: bool

definition box_center :: "element_box \<Rightarrow> f64 \<times> f64" where
  "box_center b = (eb_x b + eb_width b / 2, eb_y b + eb_height b / 2)"

definition box_visible :: "element_box \<Rightarrow> bool" where
  "box_visible b \<longleftrightarrow> \<not> eb_hidden b \<and> eb_width b > 1 \<and> eb_height b > 1"

text \<open>\<open>f64::round\<close> rounds half away from zero; the cast to \<open>i64\<close> saturates.\<close>

definition round_f64 :: "f64 \<Rightarrow> int" where
  "round_f64 r = (if 0 \<le> r then floor (r + 1 / 2) else - floor (1 / 2 - r))"

definition f64_to_i64 :: "f64 \<Rightarrow> int" where
  "f64_to_i64 r = max (- (2 ^ 63)) (min (2 ^ 63 - 1) (round_f64 r))"

definition stable_key :: "element_box \<Rightarrow> int \<times> int \<times> int \<times> int" where
  "stable_key b =
     (f64_to_i64 (eb_x b), f64_to_i64 (eb_y b), f64_to_i64 (eb_width b), f64_to_i64 (eb_height b))"

definition stable_against :: "element_box \<Rightarrow> element_box \<Rightarrow> bool" where
  "stable_against b other \<longleftrightarrow> stable_key b = stable_key other"

definition parse_box :: "json \<Rightarrow> element_box option" where
  "parse_box raw =
     Option.bind (as_object raw) (\<lambda>fs.
       let flag = Option.bind (obj_get fs ''missing'') as_bool;
           field = (\<lambda>name. Option.bind (obj_get fs name) as_f64)
       in if flag = Some True then None
          else if flag \<noteq> Some False then None
          else
            Option.bind (field ''x'') (\<lambda>x.
            Option.bind (field ''y'') (\<lambda>y.
            Option.bind (field ''width'') (\<lambda>width.
            Option.bind (field ''height'') (\<lambda>height.
              Some \<lparr>eb_x = x, eb_y = y, eb_width = width, eb_height = height,
                eb_disabled = unwrap_or (Option.bind (obj_get fs ''disabled'') as_bool) False,
                eb_hidden = unwrap_or (Option.bind (obj_get fs ''hidden'') as_bool) True\<rparr>)))))"

definition resolve_box ::
  "('h, 's) page_api \<Rightarrow> 'h \<Rightarrow> string \<Rightarrow> 's \<Rightarrow> (engine_error + element_box option) \<times> 's" where
  "resolve_box api page r s =
     (case pa_evaluate api page (resolver_script r) s of (raw, s1) \<Rightarrow>
        (rbind raw (\<lambda>v. Inr (parse_box v)), s1))"

section \<open>Session errors\<close>

text \<open>\<open>crates/session/src/error.rs\<close>.\<close>

datatype session_error =
    SeAction action_error
  | SeEngine engine_error
  | SeCapacity string
  | SeNoOpenPage
  | SeInvalidId string
  | SeStorageWrite string
  | SeStorageRead string
  | SeInternal string

fun show_session_error :: "session_error \<Rightarrow> string" where
  "show_session_error (SeAction e) = show_action_error e"
| "show_session_error (SeEngine e) = show_engine_error e"
| "show_session_error (SeCapacity detail) = ''capacity exceeded: '' @ detail"
| "show_session_error SeNoOpenPage = ''no open page to observe''"
| "show_session_error (SeInvalidId detail) = ''invalid session id: '' @ detail"
| "show_session_error (SeStorageWrite detail) = ''storage state write failed: '' @ detail"
| "show_session_error (SeStorageRead detail) = ''storage state read failed: '' @ detail"
| "show_session_error (SeInternal detail) = ''internal session error: '' @ detail"

fun session_error_hint :: "session_error \<Rightarrow> string" where
  "session_error_hint (SeAction e) = action_error_hint e"
| "session_error_hint (SeEngine e) = engine_error_hint e"
| "session_error_hint (SeCapacity detail) =
     ''close one of this server's sessions before opening another; the cap bounds concurrent clients, not pages''"
| "session_error_hint SeNoOpenPage =
     ''navigate to a URL or select a page first; observation shows what already exists''"
| "session_error_hint (SeInvalidId detail) =
     ''pick a session id of letters, digits, dashes, and underscores; the id names the session's on-disk state''"
| "session_error_hint (SeStorageWrite detail) =
     ''check that the directory holding the session's storage file is writable, then save again; the in-memory state is kept, so nothing was lost''"
| "session_error_hint (SeStorageRead detail) =
     ''this session was opened without a storage state directory, so there is nothing to load; ask for a session with persistence or keep working from the live pages''"
| "session_error_hint (SeInternal detail) =
     ''an internal bug was contained; report it, citing: '' @ detail"

definition expired :: "string \<Rightarrow> session_error" where
  "expired r = SeAction (ReferenceExpired (Reference r))"

section \<open>Auto-wait\<close>

fun phase_rank :: "wait_phase \<Rightarrow> nat" where
  "phase_rank Visible = 0"
| "phase_rank Stable = 1"
| "phase_rank Enabled = 2"
| "phase_rank _ = 3"

definition max_phase_restarts :: nat where
  "max_phase_restarts = 2"

text \<open>The loop's variables; one round looks at what the resolver answered.\<close>

record wait_state =
  aw_deadline :: instant
  aw_pending :: wait_phase
  aw_previous :: "element_box option"
  aw_restarts :: nat

definition first_unsatisfied :: "bool \<Rightarrow> bool \<Rightarrow> wait_phase" where
  "first_unsatisfied visible steady =
     (if \<not> visible then Visible else if \<not> steady then Stable else Enabled)"

definition advance_phase :: "duration \<Rightarrow> instant \<Rightarrow> wait_phase \<Rightarrow> wait_state \<Rightarrow> wait_state" where
  "advance_phase budget now now_pending w =
     (if now_pending = aw_pending w then w
      else if phase_rank now_pending > phase_rank (aw_pending w) \<and> aw_restarts w < max_phase_restarts
      then w\<lparr>aw_deadline := now + budget, aw_restarts := aw_restarts w + 1, aw_pending := now_pending\<rparr>
      else w\<lparr>aw_pending := now_pending\<rparr>)"

text \<open>A round either ends the wait or leaves the state for the deadline check.\<close>

definition wait_round ::
  "duration \<Rightarrow> string \<Rightarrow> instant \<Rightarrow> engine_error + element_box option \<Rightarrow> wait_state \<Rightarrow>
   (session_error + element_box) + wait_state" where
  "wait_round budget r now answer w =
     (case answer of
        Inr None \<Rightarrow> Inl (Inl (expired r))
      | Inr (Some b) \<Rightarrow>
          (let visible = box_visible b;
               steady = (case aw_previous w of None \<Rightarrow> False | Some prev \<Rightarrow> stable_against b prev)
           in if visible \<and> steady \<and> \<not> eb_disabled b then Inl (Inr b)
              else Inr (advance_phase budget now (first_unsatisfied visible steady)
                     (w\<lparr>aw_previous := (if visible then Some b else None)\<rparr>)))
      | Inl e \<Rightarrow> if aw_deadline w \<le> now then Inl (Inl (SeEngine e)) else Inr w)"

partial_function (option) auto_wait_loop ::
  "('h, 'z sys_scheme) page_api \<Rightarrow> session_config \<Rightarrow> 'h \<Rightarrow> string \<Rightarrow> wait_state \<Rightarrow> 'z sys_scheme \<Rightarrow>
   ((session_error + element_box) \<times> 'z sys_scheme) option" where
  "auto_wait_loop api config page r w s =
     (case resolve_box api page r s of (answer, s1) \<Rightarrow>
        (case wait_round (sc_phase_timeout config) r (sy_now s1) answer w of
           Inl outcome \<Rightarrow> Some (outcome, s1)
         | Inr w' \<Rightarrow>
             if aw_deadline w' \<le> sy_now s1
             then Some (Inl (SeAction (TimedOut (aw_pending w') (sc_phase_timeout config))), s1)
             else auto_wait_loop api config page r w'
                    (pa_sleep api (sc_stability_sample_interval config) s1)))"

definition auto_wait ::
  "('h, 'z sys_scheme) page_api \<Rightarrow> session_config \<Rightarrow> 'h \<Rightarrow> reference \<Rightarrow> 'z sys_scheme \<Rightarrow>
   ((session_error + element_box) \<times> 'z sys_scheme) option" where
  "auto_wait api config page r s =
     auto_wait_loop api config page (ref_str r)
       \<lparr>aw_deadline = sy_now s + sc_phase_timeout config, aw_pending = Visible, aw_previous = None,
        aw_restarts = 0\<rparr> s"

section \<open>Time while waiting\<close>

text \<open>
  What the loops rely on: a call takes between nothing and \<open>c\<close>, a sleep of \<open>d\<close> between \<open>d\<close>
  and \<open>d + j\<close>.
\<close>

definition takes_at_most :: "duration \<Rightarrow> ('z sys_scheme \<Rightarrow> 'a \<times> 'z sys_scheme) \<Rightarrow> bool" where
  "takes_at_most c call \<longleftrightarrow>
     (\<forall>s. sy_now s \<le> sy_now (snd (call s)) \<and> sy_now (snd (call s)) \<le> sy_now s + c)"

definition sleeps_within :: "duration \<Rightarrow> (duration \<Rightarrow> 'z sys_scheme \<Rightarrow> 'z sys_scheme) \<Rightarrow> bool" where
  "sleeps_within j sleep \<longleftrightarrow>
     (\<forall>d s. sy_now s + d \<le> sy_now (sleep d s) \<and> sy_now (sleep d s) \<le> sy_now s + d + j)"

lemma takes_at_mostD:
  "takes_at_most c call \<Longrightarrow> call s = (r, s') \<Longrightarrow> sy_now s \<le> sy_now s' \<and> sy_now s' \<le> sy_now s + c"
  unfolding takes_at_most_def by (metis snd_conv)

lemma sleeps_withinD:
  "sleeps_within j sleep \<Longrightarrow> sy_now s + d \<le> sy_now (sleep d s) \<and> sy_now (sleep d s) \<le> sy_now s + d + j"
  by (simp add: sleeps_within_def)

lemma poll_loop_returns:
  assumes check: "takes_at_most c check" and sleep: "sleeps_within j sleep" and pos: "0 < interval"
  shows "sy_now s \<le> deadline + j \<Longrightarrow>
     \<exists>found s'. poll_loop check sleep deadline interval s = Some (found, s') \<and>
       sy_now s' \<le> deadline + j + c \<and>
       (found = None \<longrightarrow> deadline \<le> sy_now s') \<and>
       (\<forall>v. found = Some v \<longrightarrow> (\<exists>t. check t = (Some v, s')))"
proof (induction "deadline - sy_now s" arbitrary: s rule: less_induct)
  case less
  obtain found s1 where round: "check s = (found, s1)"
    by fastforce
  note step = poll_loop.simps [of check sleep deadline interval s] round
  have origin: "\<exists>t. check t = (found, s1)"
    using round by blast
  have now: "sy_now s \<le> sy_now s1" "sy_now s1 \<le> sy_now s + c"
    using takes_at_mostD [OF check round] by auto
  show ?case
  proof (cases "found = None \<and> sy_now s1 < deadline")
    case True
    define s2 where "s2 = sleep (min interval (deadline - sy_now s1)) s1"
    have s2: "sy_now s1 + min interval (deadline - sy_now s1) \<le> sy_now s2"
      "sy_now s2 \<le> sy_now s1 + min interval (deadline - sy_now s1) + j"
      using sleeps_withinD [OF sleep] by (auto simp: s2_def)
    have "deadline - sy_now s2 < deadline - sy_now s" "sy_now s2 \<le> deadline + j"
      using s2 now True pos by auto
    from less.hyps [OF this] True show ?thesis
      by (auto simp: step s2_def)
  next
    case False
    then show ?thesis
      using now less.prems origin by (cases found) (auto simp: step)
  qed
qed

section \<open>The auto-wait loop\<close>

text \<open>One round and the sleep after it; at most \<open>max_phase_restarts\<close> rounds move the deadline.\<close>

definition budget_left :: "duration \<Rightarrow> wait_state \<Rightarrow> instant \<Rightarrow> nat" where
  "budget_left budget w now =
     (aw_deadline w - now) + (max_phase_restarts - aw_restarts w) * (budget + 1)"

lemma advance_phase_cases:
  assumes "aw_restarts w \<le> max_phase_restarts"
  shows "aw_restarts (advance_phase budget now p w) \<le> max_phase_restarts \<and>
     (aw_deadline (advance_phase budget now p w) = aw_deadline w \<and>
      aw_restarts (advance_phase budget now p w) = aw_restarts w \<or>
      aw_deadline (advance_phase budget now p w) = now + budget \<and>
      aw_restarts (advance_phase budget now p w) = Suc (aw_restarts w))"
  using assms by (auto simp: advance_phase_def)

lemma wait_round_Inr:
  assumes "wait_round budget r now answer w = Inr w'" and "aw_restarts w \<le> max_phase_restarts"
  shows "aw_restarts w' \<le> max_phase_restarts \<and>
     (aw_deadline w' = aw_deadline w \<and> aw_restarts w' = aw_restarts w \<or>
      aw_deadline w' = now + budget \<and> aw_restarts w' = Suc (aw_restarts w))"
  using assms advance_phase_cases [of "w\<lparr>aw_previous := p\<rparr>" budget now q for p q]
  by (auto simp: wait_round_def Let_def split: sum.splits option.splits if_splits)

text \<open>The samples of an element the loop has seen.\<close>

definition sampled :: "('h, 's) page_api \<Rightarrow> 'h \<Rightarrow> string \<Rightarrow> element_box \<Rightarrow> bool" where
  "sampled api page r b \<longleftrightarrow> (\<exists>t t'. resolve_box api page r t = (Inr (Some b), t'))"

lemma sampledI: "resolve_box api page r t = (Inr (Some b), t') \<Longrightarrow> sampled api page r b"
  unfolding sampled_def by blast

definition wait_ok :: "('h, 's) page_api \<Rightarrow> 'h \<Rightarrow> string \<Rightarrow> wait_state \<Rightarrow> bool" where
  "wait_ok api page r w \<longleftrightarrow> aw_restarts w \<le> max_phase_restarts \<and> phase_rank (aw_pending w) < 3 \<and>
     (\<forall>b. aw_previous w = Some b \<longrightarrow> box_visible b \<and> sampled api page r b)"

lemma rank_first_unsatisfied [simp]: "phase_rank (first_unsatisfied visible steady) < 3"
  by (simp add: first_unsatisfied_def)

lemma advance_phase_fields [simp]:
  "aw_previous (advance_phase budget now p w) = aw_previous w"
  "aw_pending (advance_phase budget now p w) = p"
  by (simp_all add: advance_phase_def)

lemma wait_ok_round:
  assumes "wait_ok api page r w" and "resolve_box api page r t = (answer, t')"
    and "wait_round budget r now answer w = Inr w'"
  shows "wait_ok api page r w'"
proof -
  have "aw_restarts w' \<le> max_phase_restarts"
    using wait_round_Inr [OF assms(3)] assms(1) by (auto simp: wait_ok_def)
  then show ?thesis
    using assms by (auto simp: wait_ok_def wait_round_def Let_def intro: sampledI
        split: sum.splits option.splits if_splits)
qed

text \<open>How a wait may end: with an element that held still, or with the reason it did not.\<close>

definition wait_outcome_ok ::
  "('h, 's) page_api \<Rightarrow> duration \<Rightarrow> 'h \<Rightarrow> string \<Rightarrow> session_error + element_box \<Rightarrow> bool" where
  "wait_outcome_ok api budget page r outcome \<longleftrightarrow>
     (case outcome of
        Inr b \<Rightarrow> box_visible b \<and> \<not> eb_disabled b \<and> sampled api page r b \<and>
          (\<exists>prev. box_visible prev \<and> sampled api page r prev \<and> stable_against b prev)
      | Inl e \<Rightarrow> e = expired r \<or> (\<exists>err. e = SeEngine err) \<or>
          (\<exists>p. e = SeAction (TimedOut p budget) \<and> p \<in> {Visible, Stable, Enabled}))"

lemma rank_lt_3: "phase_rank p < 3 \<Longrightarrow> p \<in> {Visible, Stable, Enabled}"
  by (cases p) auto

lemma wait_round_outcome:
  assumes "wait_ok api page r w" and "resolve_box api page r t = (answer, t')"
    and "wait_round budget r now answer w = Inl outcome"
  shows "wait_outcome_ok api budget page r outcome"
  using assms by (auto simp: wait_ok_def wait_round_def Let_def wait_outcome_ok_def intro: sampledI
      split: sum.splits option.splits if_splits)

lemma resolve_box_state: "snd (resolve_box api page r s) = snd (pa_evaluate api page (resolver_script r) s)"
  by (simp add: resolve_box_def split: prod.splits)

lemma takes_resolve:
  "takes_at_most c (pa_evaluate api page (resolver_script r)) \<Longrightarrow> takes_at_most c (resolve_box api page r)"
  by (simp add: takes_at_most_def resolve_box_state)

lemma auto_wait_loop_returns:
  assumes eval: "takes_at_most c (pa_evaluate api page (resolver_script r))"
    and sleep: "sleeps_within j (pa_sleep api)"
    and pos: "0 < sc_stability_sample_interval config"
  defines "slack \<equiv> sc_stability_sample_interval config + j + c"
  shows "wait_ok api page r w \<Longrightarrow>
     sy_now s \<le> aw_deadline w + sc_stability_sample_interval config + j \<Longrightarrow>
     \<exists>outcome s'. auto_wait_loop api config page r w s = Some (outcome, s') \<and>
       wait_outcome_ok api (sc_phase_timeout config) page r outcome \<and>
       sy_now s' \<le> aw_deadline w + slack
         + (max_phase_restarts - aw_restarts w) * (sc_phase_timeout config + slack)"
proof (induction "budget_left (sc_phase_timeout config) w (sy_now s)" arbitrary: w s rule: less_induct)
  case less
  let ?T = "sc_phase_timeout config" and ?i = "sc_stability_sample_interval config"
  obtain answer s1 where resolve: "resolve_box api page r s = (answer, s1)"
    by fastforce
  note step = auto_wait_loop.simps [of api config page r w s] resolve
  have now: "sy_now s \<le> sy_now s1" "sy_now s1 \<le> sy_now s + c"
    using takes_at_mostD [OF takes_resolve [OF eval] resolve] by auto
  show ?case
  proof (cases "wait_round ?T r (sy_now s1) answer w")
    case (Inl outcome)
    then show ?thesis
      using wait_round_outcome [OF less.prems(1) resolve Inl] now less.prems(2)
      by (auto simp: step slack_def)
  next
    case (Inr w')
    have ok: "wait_ok api page r w'"
      by (rule wait_ok_round [OF less.prems(1) resolve Inr])
    have moved: "aw_restarts w' \<le> max_phase_restarts"
      "aw_deadline w' = aw_deadline w \<and> aw_restarts w' = aw_restarts w \<or>
       aw_deadline w' = sy_now s1 + ?T \<and> aw_restarts w' = Suc (aw_restarts w)"
      using wait_round_Inr [OF Inr] less.prems(1) by (auto simp: wait_ok_def)
    have total: "aw_deadline w' + slack + (max_phase_restarts - aw_restarts w') * (?T + slack)
        \<le> aw_deadline w + slack + (max_phase_restarts - aw_restarts w) * (?T + slack)"
      using moved now less.prems(2) by (auto simp: slack_def max_phase_restarts_def Suc_diff_le le_Suc_eq)
    show ?thesis
    proof (cases "aw_deadline w' \<le> sy_now s1")
      case True
      then show ?thesis
        using total now less.prems(2) moved ok Inr rank_lt_3 [of "aw_pending w'"]
        by (auto simp: step wait_outcome_ok_def wait_ok_def slack_def)
    next
      case False
      define s2 where "s2 = pa_sleep api ?i s1"
      have s2: "sy_now s1 + ?i \<le> sy_now s2" "sy_now s2 \<le> sy_now s1 + ?i + j"
        using sleeps_withinD [OF sleep] by (auto simp: s2_def)
      have "budget_left ?T w' (sy_now s2) < budget_left ?T w (sy_now s)"
        using moved s2 now pos False
        by (auto simp: budget_left_def max_phase_restarts_def Suc_diff_le le_Suc_eq)
      moreover have "sy_now s2 \<le> aw_deadline w' + ?i + j"
        using s2 False by simp
      ultimately obtain outcome s' where "auto_wait_loop api config page r w' s2 = Some (outcome, s')"
        "wait_outcome_ok api ?T page r outcome"
        "sy_now s' \<le> aw_deadline w' + slack + (max_phase_restarts - aw_restarts w') * (?T + slack)"
        using less.hyps [OF _ ok] by blast
      then show ?thesis
        using False Inr total by (auto simp: step s2_def)
    qed
  qed
qed

section \<open>Properties\<close>

text \<open>
  A page for the witnesses: every script answers the same value, every call takes one
  nanosecond and every sleep exactly what was asked.
\<close>

definition idle_sys :: sys where
  "idle_sys = \<lparr>sy_now = 0, sy_wall = [], sy_backbone = backbone_new\<rparr>"

definition tick :: "duration \<Rightarrow> 'z sys_scheme \<Rightarrow> 'z sys_scheme" where
  "tick d s = s\<lparr>sy_now := sy_now s + d\<rparr>"

definition still_page :: "json \<Rightarrow> ('h, 'z sys_scheme) page_api" where
  "still_page answer =
     \<lparr>pa_evaluate = (\<lambda>h script s. (Inr answer, tick 1 s)),
      pa_navigate = (\<lambda>h url s. (Inr url, tick 1 s)),
      pa_reload = (\<lambda>h s. (Inr (), tick 1 s)),
      pa_go_back = (\<lambda>h s. (Inl EngTerminated, tick 1 s)),
      pa_go_forward = (\<lambda>h s. (Inl EngTerminated, tick 1 s)),
      pa_dispatch = (\<lambda>h e s. (Inr (), tick 1 s)),
      pa_set_files = (\<lambda>h r fs s. (Inr (), tick 1 s)),
      pa_screenshot = (\<lambda>h s. (Inr \<lparr>ss_format = Png, ss_data = []\<rparr>, tick 1 s)),
      pa_start_screencast = (\<lambda>h s. (Inr [], tick 1 s)),
      pa_set_viewport = (\<lambda>h width height s. (Inr (), tick 1 s)),
      pa_path_exists = (\<lambda>path s. True),
      pa_sleep = tick\<rparr>"

lemma still_page_timing:
  "takes_at_most 1 (pa_evaluate (still_page answer) page script)"
  "sleeps_within 0 (pa_sleep (still_page answer))"
  "sleeps_within 0 tick"
  by (simp_all add: takes_at_most_def sleeps_within_def still_page_def tick_def)

text \<open>
  Polling always returns: with a positive interval it ends either with a value its
  check gave, or not before the budget (at most ten minutes) is spent, and never later than
  the budget plus one check and one late wake-up.
\<close>

theorem polling_returns:
  assumes "takes_at_most c check" and "sleeps_within j sleep" and "0 < interval"
  shows "\<exists>found s'. poll_until check sleep budget interval s = Some (found, s') \<and>
     sy_now s' \<le> sy_now s + min budget max_poll_budget + j + c \<and>
     (found = None \<longrightarrow> sy_now s + min budget max_poll_budget \<le> sy_now s') \<and>
     (\<forall>v. found = Some v \<longrightarrow> (\<exists>t. check t = (Some v, s')))"
  using poll_loop_returns [OF assms, of s "sy_now s + min budget max_poll_budget"]
  by (simp add: poll_until_def)

theorem polling_returns_witness:
  "\<exists>found s'. poll_until (\<lambda>s. (None :: unit option, tick 1 s)) tick (from_secs 5) (from_millis 100) idle_sys
     = Some (found, s') \<and> sy_now s' \<le> from_secs 5 + 1"
proof -
  have "takes_at_most 1 (\<lambda>s. (None :: unit option, tick 1 s))"
    by (simp add: takes_at_most_def tick_def)
  then show ?thesis
    using polling_returns [OF _ still_page_timing(3), of 1 "\<lambda>s. (None, tick 1 s)" "from_millis 100"
        "from_secs 5" idle_sys]
    by (auto simp: from_secs_def from_millis_def max_poll_budget_def idle_sys_def)
qed

text \<open>
  Auto-wait always returns, after at most three phase budgets (one, and one for each of
  the two restarts), each stretched by one sample interval, one late wake-up and one page
  call. It hands out an element only when two samples agreed on its rounded geometry, both
  visible, the last one enabled; otherwise it says that the reference expired, what the
  engine failed with, or the phase that was pending.
\<close>

theorem auto_wait_returns:
  assumes "takes_at_most c (pa_evaluate api page (resolver_script (ref_str r)))"
    and "sleeps_within j (pa_sleep api)"
    and "0 < sc_stability_sample_interval config"
  shows "\<exists>outcome s'. auto_wait api config page r s = Some (outcome, s') \<and>
     sy_now s' \<le> sy_now s
       + 3 * (sc_phase_timeout config + sc_stability_sample_interval config + j + c) \<and>
     (case outcome of
        Inr b \<Rightarrow> box_visible b \<and> \<not> eb_disabled b \<and> sampled api page (ref_str r) b \<and>
          (\<exists>prev. box_visible prev \<and> sampled api page (ref_str r) prev \<and> stable_against b prev)
      | Inl e \<Rightarrow> e = expired (ref_str r) \<or> (\<exists>err. e = SeEngine err) \<or>
          (\<exists>p. e = SeAction (TimedOut p (sc_phase_timeout config)) \<and> p \<in> {Visible, Stable, Enabled}))"
proof -
  let ?w = "\<lparr>aw_deadline = sy_now s + sc_phase_timeout config, aw_pending = Visible,
    aw_previous = None, aw_restarts = 0\<rparr>"
  have "wait_ok api page (ref_str r) ?w"
    by (simp add: wait_ok_def)
  from auto_wait_loop_returns [OF assms this, of s] show ?thesis
    by (auto simp: auto_wait_def wait_outcome_ok_def max_phase_restarts_def algebra_simps)
qed

theorem auto_wait_returns_witness:
  "\<exists>outcome s'. auto_wait (still_page JNull) default_session_config () (Reference ''e1'') idle_sys
     = Some (outcome, s') \<and> sy_now s' \<le> 3 * (from_secs 5 + from_millis 80 + 1)"
  using auto_wait_returns [OF still_page_timing(1,2), of default_session_config JNull "()"
      "Reference ''e1''" idle_sys]
  by (auto simp: default_session_config_def from_secs_def from_millis_def idle_sys_def)

end
