(* ===== verification/Session_Actions.thy ===== *)
theory Session_Actions
  imports Session_Wait
begin

text \<open>
  The action executor, \<open>crates/session/src/actions/mod.rs\<close>: one action against one page,
  as the sequence of awaited calls it makes. The loops inside make the result an option:
  \<^term>\<open>None\<close> is a run that never returns, and \<open>action_returns\<close> shows there is none. The
  texts of the embedded scripts and the JSON printer and parser are the record \<open>texts\<close>.
\<close>

section \<open>Sequencing\<close>

text \<open>The \<open>?\<close> operator after an awaited call.\<close>

definition and_then ::
  "((session_error + 'a) \<times> 's) option \<Rightarrow> ('a \<Rightarrow> 's \<Rightarrow> ((session_error + 'b) \<times> 's) option) \<Rightarrow>
   ((session_error + 'b) \<times> 's) option" where
  "and_then m k =
     (case m of
        None \<Rightarrow> None
      | Some (Inl e, s) \<Rightarrow> Some (Inl e, s)
      | Some (Inr x, s) \<Rightarrow> k x s)"

lemma and_then_simps [simp]:
  "and_then None k = None"
  "and_then (Some (Inl e, s)) k = Some (Inl e, s)"
  "and_then (Some (Inr x, s)) k = k x s"
  by (simp_all add: and_then_def)

lemma and_then_assoc:
  "and_then (and_then m k) l = and_then m (\<lambda>x s. and_then (k x s) l)"
  by (auto simp: and_then_def split: option.split prod.split sum.split)

definition engine_call :: "(engine_error + 'a) \<times> 's \<Rightarrow> ((session_error + 'a) \<times> 's) option" where
  "engine_call m = Some (map_err SeEngine (fst m), snd m)"

section \<open>Page operations\<close>

record texts =
  tx_parse :: "string \<Rightarrow> json option"
  tx_json_string :: "string \<Rightarrow> string"
  tx_json_strings :: "string list \<Rightarrow> string option"
  tx_serializer :: string
  tx_reader :: string

definition page_url :: "('h, 's) page_api \<Rightarrow> 'h \<Rightarrow> 's \<Rightarrow> string option \<times> 's" where
  "page_url api page s =
     (case pa_evaluate api page ''location.href'' s of (answer, s1) \<Rightarrow>
        (case answer of Inl e \<Rightarrow> None | Inr v \<Rightarrow> as_str v, s1))"

definition take_snapshot ::
  "texts \<Rightarrow> ('h, 's) page_api \<Rightarrow> 'h \<Rightarrow> 's \<Rightarrow> ((session_error + snapshot) \<times> 's) option" where
  "take_snapshot tx api page s =
     (case page_url api page s of (url, s1) \<Rightarrow>
        and_then (engine_call (pa_evaluate api page (tx_serializer tx) s1)) (\<lambda>raw s2.
          Some (Inr (snapshot_from_response (tx_parse tx) (unwrap_or url ''about:blank'') raw), s2)))"

definition read_page ::
  "texts \<Rightarrow> ('h, 's) page_api \<Rightarrow> 'h \<Rightarrow> 's \<Rightarrow> ((session_error + readout) \<times> 's) option" where
  "read_page tx api page s =
     and_then (engine_call (pa_evaluate api page (tx_reader tx) s)) (\<lambda>raw s1.
       Some (Inr (read_from_response (tx_parse tx) raw), s1))"

definition text_found :: "('h, 's) page_api \<Rightarrow> 'h \<Rightarrow> string \<Rightarrow> 's \<Rightarrow> unit option \<times> 's" where
  "text_found api page script s =
     (case pa_evaluate api page script s of (answer, s1) \<Rightarrow>
        (case answer of
           Inl e \<Rightarrow> None
         | Inr v \<Rightarrow> if Option.bind (json_get v ''found'') as_bool = Some True then Some () else None, s1))"

definition wait_for_text ::
  "texts \<Rightarrow> ('h, 'z sys_scheme) page_api \<Rightarrow> session_config \<Rightarrow> 'h \<Rightarrow> string \<Rightarrow> duration \<Rightarrow> 'z sys_scheme \<Rightarrow>
   ((session_error + snapshot) \<times> 'z sys_scheme) option" where
  "wait_for_text tx api config page needle requested s =
     (let budget = min requested max_poll_budget;
          script = wait_for_script (tx_json_string tx needle)
      in case poll_until (text_found api page script) (pa_sleep api) budget (sc_poll_interval config) s of
           None \<Rightarrow> None
         | Some (Some u, s1) \<Rightarrow> take_snapshot tx api page s1
         | Some (None, s1) \<Rightarrow> Some (Inl (SeAction (TimedOut Poll budget)), s1))"

section \<open>The executor\<close>

record 'h executor =
  ex_session :: session_id
  ex_page_id :: page_id
  ex_page :: 'h
  ex_config :: session_config

definition settle_snapshot ::
  "texts \<Rightarrow> ('h, 's) page_api \<Rightarrow> 'h executor \<Rightarrow> 's \<Rightarrow> ((session_error + snapshot) \<times> 's) option" where
  "settle_snapshot tx api ex s =
     take_snapshot tx api (ex_page ex)
       (if sc_settle (ex_config ex) = 0 then s else pa_sleep api (sc_settle (ex_config ex)) s)"

definition dispatch ::
  "('h, 's) page_api \<Rightarrow> 'h executor \<Rightarrow> input_event \<Rightarrow> 's \<Rightarrow> ((session_error + unit) \<times> 's) option" where
  "dispatch api ex e s = engine_call (pa_dispatch api (ex_page ex) e s)"

definition dispatch_both ::
  "('h, 's) page_api \<Rightarrow> 'h executor \<Rightarrow> input_event \<Rightarrow> input_event \<Rightarrow> 's \<Rightarrow>
   ((session_error + unit) \<times> 's) option" where
  "dispatch_both api ex e e' s = and_then (dispatch api ex e s) (\<lambda>u s1. dispatch api ex e' s1)"

definition dispatch_press ::
  "('h, 's) page_api \<Rightarrow> 'h executor \<Rightarrow> f64 \<times> f64 \<Rightarrow> 's \<Rightarrow> ((session_error + unit) \<times> 's) option" where
  "dispatch_press api ex point s =
     dispatch_both api ex (MousePressed (fst point) (snd point) LeftButton)
       (MouseReleased (fst point) (snd point) LeftButton) s"

definition run_script ::
  "('h, 's) page_api \<Rightarrow> 'h executor \<Rightarrow> string \<Rightarrow> 's \<Rightarrow> ((session_error + json) \<times> 's) option" where
  "run_script api ex script s = engine_call (pa_evaluate api (ex_page ex) script s)"

definition viewport_center :: "('h, 's) page_api \<Rightarrow> 'h executor \<Rightarrow> 's \<Rightarrow> (f64 \<times> f64) \<times> 's" where
  "viewport_center api ex s =
     (case pa_evaluate api (ex_page ex) ''({ x: window.innerWidth / 2, y: window.innerHeight / 2 })'' s of
        (answer, s1) \<Rightarrow>
        (case answer of
           Inl e \<Rightarrow> (400, 300)
         | Inr v \<Rightarrow>
             (case (json_get v ''x'', json_get v ''y'') of
                (Some x, Some y) \<Rightarrow> (unwrap_or (as_f64 x) 400, unwrap_or (as_f64 y) 300)
              | _ \<Rightarrow> (400, 300)), s1))"

fun wheel_deltas :: "scroll_direction \<Rightarrow> nat \<Rightarrow> f64 \<times> f64" where
  "wheel_deltas ScrollUp amount = (0, - of_nat amount)"
| "wheel_deltas ScrollDown amount = (0, of_nat amount)"
| "wheel_deltas ScrollLeft amount = (- of_nat amount, 0)"
| "wheel_deltas ScrollRight amount = (of_nat amount, 0)"

definition wait_element ::
  "('h, 'z sys_scheme) page_api \<Rightarrow> 'h executor \<Rightarrow> reference \<Rightarrow> 'z sys_scheme \<Rightarrow>
   ((session_error + element_box) \<times> 'z sys_scheme) option" where
  "wait_element api ex r s = auto_wait api (ex_config ex) (ex_page ex) r s"

definition not_interactable :: "reference \<Rightarrow> string \<Rightarrow> session_error" where
  "not_interactable r reason = SeAction (NotInteractable r reason)"

definition flagged :: "json \<Rightarrow> string \<Rightarrow> bool" where
  "flagged answer name \<longleftrightarrow> json_get answer name = Some (JBool True)"

section \<open>The actions\<close>

definition run_navigate ::
  "texts \<Rightarrow> ('h, 'z sys_scheme) page_api \<Rightarrow> 'h executor \<Rightarrow> string \<Rightarrow> 'z sys_scheme \<Rightarrow>
   ((session_error + snapshot) \<times> 'z sys_scheme) option" where
  "run_navigate tx api ex url s =
     and_then (engine_call (pa_navigate api (ex_page ex) url s)) (\<lambda>effective s1.
       take_snapshot tx api (ex_page ex)
         (emit (ex_session ex) (PageNavigated (ex_page_id ex) effective) s1))"

definition run_type ::
  "texts \<Rightarrow> ('h, 'z sys_scheme) page_api \<Rightarrow> 'h executor \<Rightarrow> reference \<Rightarrow> string \<Rightarrow> 'z sys_scheme \<Rightarrow>
   ((session_error + snapshot) \<times> 'z sys_scheme) option" where
  "run_type tx api ex r typed s =
     and_then (wait_element api ex r s) (\<lambda>b s1.
     and_then (run_script api ex (focus_script (ref_str r)) s1) (\<lambda>focused s2.
       if flagged focused ''missing'' then Some (Inl (expired (ref_str r)), s2)
       else and_then (dispatch api ex (InsertText typed) s2) (\<lambda>u s3. settle_snapshot tx api ex s3)))"

definition run_press_key ::
  "texts \<Rightarrow> ('h, 's) page_api \<Rightarrow> 'h executor \<Rightarrow> string \<Rightarrow> 's \<Rightarrow>
   ((session_error + snapshot) \<times> 's) option" where
  "run_press_key tx api ex key s =
     and_then (dispatch_both api ex (KeyPressed key) (KeyReleased key) s)
       (\<lambda>u s1. settle_snapshot tx api ex s1)"

definition run_select_option ::
  "texts \<Rightarrow> ('h, 'z sys_scheme) page_api \<Rightarrow> 'h executor \<Rightarrow> reference \<Rightarrow> string list \<Rightarrow> 'z sys_scheme \<Rightarrow>
   ((session_error + snapshot) \<times> 'z sys_scheme) option" where
  "run_select_option tx api ex r vals s =
     and_then (wait_element api ex r s) (\<lambda>b s1.
     and_then (run_script api ex (select_script (tx_json_strings tx) (ref_str r) vals) s1) (\<lambda>answer s2.
       if flagged answer ''missing'' then Some (Inl (expired (ref_str r)), s2)
       else if flagged answer ''not_select''
       then Some (Inl (not_interactable r ''the element is not a select''), s2)
       else if unwrap_or (Option.bind (json_get answer ''matched'') as_i64) 0 = 0
       then Some (Inl (not_interactable r ''no option matched the requested values''), s2)
       else settle_snapshot tx api ex s2))"

definition run_scroll ::
  "texts \<Rightarrow> ('h, 'z sys_scheme) page_api \<Rightarrow> 'h executor \<Rightarrow> reference option \<Rightarrow> scroll_direction \<Rightarrow> nat \<Rightarrow>
   'z sys_scheme \<Rightarrow> ((session_error + snapshot) \<times> 'z sys_scheme) option" where
  "run_scroll tx api ex r direction amount s =
     and_then
       (case r of
          Some r' \<Rightarrow> and_then (wait_element api ex r' s) (\<lambda>b s1. Some (Inr (box_center b), s1))
        | None \<Rightarrow> Some (Inr (fst (viewport_center api ex s)), snd (viewport_center api ex s)))
       (\<lambda>point s2.
          and_then (dispatch api ex
              (MouseWheel (fst point) (snd point)
                 (fst (wheel_deltas direction amount)) (snd (wheel_deltas direction amount))) s2)
            (\<lambda>u s3. settle_snapshot tx api ex s3))"

fun first_missing :: "('h, 's) page_api \<Rightarrow> string list \<Rightarrow> 's \<Rightarrow> string option" where
  "first_missing api [] s = None"
| "first_missing api (path # paths) s =
     (if \<not> pa_path_exists api path s then Some path else first_missing api paths s)"

definition file_handoff :: "engine_error \<Rightarrow> session_error" where
  "file_handoff e =
     (case e of EngReferenceExpired r \<Rightarrow> SeAction (ReferenceExpired (Reference r)) | _ \<Rightarrow> SeEngine e)"

definition run_set_input_files ::
  "texts \<Rightarrow> ('h, 'z sys_scheme) page_api \<Rightarrow> 'h executor \<Rightarrow> reference \<Rightarrow> string list \<Rightarrow> 'z sys_scheme \<Rightarrow>
   ((session_error + snapshot) \<times> 'z sys_scheme) option" where
  "run_set_input_files tx api ex r paths s =
     (if paths = [] then Some (Inl (not_interactable r ''no files were given''), s)
      else
        and_then (wait_element api ex r s) (\<lambda>b s1.
        and_then (run_script api ex (files_check_script (ref_str r)) s1) (\<lambda>check s2.
          if flagged check ''missing'' then Some (Inl (expired (ref_str r)), s2)
          else if flagged check ''not_file''
          then Some (Inl (not_interactable r ''the element is not a file input''), s2)
          else if \<not> unwrap_or (Option.bind (json_get check ''multiple'') as_bool) False \<and> length paths > 1
          then Some (Inl (not_interactable r ''the file input accepts a single file''), s2)
          else
            (case first_missing api paths s2 of
               Some path \<Rightarrow> Some (Inl (not_interactable r (''file not found: '' @ path)), s2)
             | None \<Rightarrow>
                 (case pa_set_files api (ex_page ex) (ref_str r) paths s2 of
                    (Inl e, s3) \<Rightarrow> Some (Inl (file_handoff e), s3)
                  | (Inr u, s3) \<Rightarrow> settle_snapshot tx api ex s3)))))"

fun run_action ::
  "texts \<Rightarrow> ('h, 'z sys_scheme) page_api \<Rightarrow> 'h executor \<Rightarrow> action \<Rightarrow> 'z sys_scheme \<Rightarrow>
   ((session_error + snapshot) \<times> 'z sys_scheme) option" where
  "run_action tx api ex (Navigate url) s = run_navigate tx api ex url s"
| "run_action tx api ex Back s =
     and_then (engine_call (pa_go_back api (ex_page ex) s)) (\<lambda>url s1. settle_snapshot tx api ex s1)"
| "run_action tx api ex Forward s =
     and_then (engine_call (pa_go_forward api (ex_page ex) s)) (\<lambda>url s1. settle_snapshot tx api ex s1)"
| "run_action tx api ex Reload s =
     and_then (engine_call (pa_reload api (ex_page ex) s)) (\<lambda>u s1. settle_snapshot tx api ex s1)"
| "run_action tx api ex (Click r) s =
     and_then (wait_element api ex r s) (\<lambda>b s1.
     and_then (dispatch_press api ex (box_center b) s1) (\<lambda>u s2. settle_snapshot tx api ex s2))"
| "run_action tx api ex (Hover r) s =
     and_then (wait_element api ex r s) (\<lambda>b s1.
     and_then (dispatch api ex (MouseMove (fst (box_center b)) (snd (box_center b))) s1)
       (\<lambda>u s2. settle_snapshot tx api ex s2))"
| "run_action tx api ex (Type r typed) s = run_type tx api ex r typed s"
| "run_action tx api ex (PressKey key) s = run_press_key tx api ex key s"
| "run_action tx api ex (SelectOption r vals) s = run_select_option tx api ex r vals s"
| "run_action tx api ex (Scroll r direction amount) s = run_scroll tx api ex r direction amount s"
| "run_action tx api ex (SetInputFiles r paths) s = run_set_input_files tx api ex r paths s"

section \<open>Every action returns\<close>

definition finishes :: "instant \<Rightarrow> ((session_error + 'a) \<times> 'z sys_scheme) option \<Rightarrow> bool" where
  "finishes t m \<longleftrightarrow> (\<exists>r s'. m = Some (r, s') \<and> sy_now s' \<le> t)"

lemma finishes_Some [simp]: "finishes t (Some (r, s')) \<longleftrightarrow> sy_now s' \<le> t"
  by (simp add: finishes_def)

lemma finishes_mono: "finishes t m \<Longrightarrow> t \<le> t' \<Longrightarrow> finishes t' m"
  by (auto simp: finishes_def)

lemma finishes_and_then:
  assumes "finishes t m" and "t \<le> t'" and "\<And>x s1. sy_now s1 \<le> t \<Longrightarrow> finishes t' (k x s1)"
  shows "finishes t' (and_then m k)"
proof -
  from assms(1) obtain r s1 where "m = Some (r, s1)" "sy_now s1 \<le> t"
    by (auto simp: finishes_def)
  then show ?thesis
    using assms(2,3) by (cases r) auto
qed

lemma finishes_call:
  "takes_at_most c call \<Longrightarrow> sy_now s + c \<le> t \<Longrightarrow> finishes t (engine_call (call s))"
  unfolding takes_at_most_def engine_call_def finishes_Some by (meson order_trans)

definition api_timing :: "duration \<Rightarrow> duration \<Rightarrow> ('h, 'z sys_scheme) page_api \<Rightarrow> bool" where
  "api_timing c j api \<longleftrightarrow>
     (\<forall>h script. takes_at_most c (pa_evaluate api h script)) \<and>
     (\<forall>h url. takes_at_most c (pa_navigate api h url)) \<and>
     (\<forall>h. takes_at_most c (pa_reload api h)) \<and>
     (\<forall>h. takes_at_most c (pa_go_back api h)) \<and>
     (\<forall>h. takes_at_most c (pa_go_forward api h)) \<and>
     (\<forall>h e. takes_at_most c (pa_dispatch api h e)) \<and>
     (\<forall>h r paths. takes_at_most c (pa_set_files api h r paths)) \<and>
     sleeps_within j (pa_sleep api)"

lemma finishes_snapshot:
  assumes "api_timing c j api" and "sy_now s + 2 * c \<le> t"
  shows "finishes t (take_snapshot tx api page s)"
proof -
  have eval: "takes_at_most c (pa_evaluate api page script)" for script
    using assms(1) by (simp add: api_timing_def)
  obtain answer s1 where url: "pa_evaluate api page ''location.href'' s = (answer, s1)"
    by fastforce
  have "sy_now s1 \<le> sy_now s + c"
    using takes_at_mostD [OF eval url] by simp
  then have "sy_now s1 + c \<le> t"
    using assms(2) by simp
  from finishes_call [OF eval this] show ?thesis
    by (auto simp: take_snapshot_def page_url_def url intro: finishes_and_then [OF _ order.refl])
qed

lemma finishes_settle:
  assumes "api_timing c j api" and "sy_now s + sc_settle (ex_config ex) + j + 2 * c \<le> t"
  shows "finishes t (settle_snapshot tx api ex s)"
proof -
  have "sy_now (pa_sleep api d s) \<le> sy_now s + d + j" for d
    using assms(1) by (simp add: api_timing_def sleeps_within_def)
  from this [of "sc_settle (ex_config ex)"] show ?thesis
    using assms by (auto simp: settle_snapshot_def intro: finishes_snapshot)
qed

definition wait_budget :: "duration \<Rightarrow> duration \<Rightarrow> session_config \<Rightarrow> duration" where
  "wait_budget c j config =
     3 * (sc_phase_timeout config + sc_stability_sample_interval config + j + c)"

lemma auto_wait_time:
  assumes "takes_at_most c (pa_evaluate api page (resolver_script (ref_str r)))"
    and "sleeps_within j (pa_sleep api)"
    and "0 < sc_stability_sample_interval config"
  shows "\<exists>outcome s'. auto_wait api config page r s = Some (outcome, s') \<and>
     sy_now s' \<le> sy_now s + wait_budget c j config"
proof -
  let ?w = "\<lparr>aw_deadline = sy_now s + sc_phase_timeout config, aw_pending = Visible,
    aw_previous = None, aw_restarts = 0\<rparr>"
  have "wait_ok api page (ref_str r) ?w"
    by (simp add: wait_ok_def)
  from auto_wait_loop_returns [OF assms this, of s] show ?thesis
    by (auto simp: auto_wait_def wait_budget_def max_phase_restarts_def algebra_simps)
qed

lemma finishes_wait:
  assumes "api_timing c j api" and "0 < sc_stability_sample_interval (ex_config ex)"
    and "sy_now s + wait_budget c j (ex_config ex) \<le> t"
  shows "finishes t (wait_element api ex r s)"
proof -
  have "takes_at_most c (pa_evaluate api (ex_page ex) (resolver_script (ref_str r)))"
    "sleeps_within j (pa_sleep api)"
    using assms(1) by (simp_all add: api_timing_def)
  from auto_wait_time [OF this assms(2), of s] show ?thesis
    using assms(3) by (auto simp: wait_element_def finishes_def)
qed

lemma api_timingD:
  assumes "api_timing c j api"
  shows "takes_at_most c (pa_evaluate api h script)" "takes_at_most c (pa_navigate api h url)"
    "takes_at_most c (pa_reload api h)" "takes_at_most c (pa_go_back api h)"
    "takes_at_most c (pa_go_forward api h)" "takes_at_most c (pa_dispatch api h e)"
    "takes_at_most c (pa_set_files api h r paths)"
  using assms by (simp_all add: api_timing_def)

lemma finishes_dispatch:
  "api_timing c j api \<Longrightarrow> sy_now s + c \<le> t \<Longrightarrow> finishes t (dispatch api ex e s)"
  unfolding dispatch_def by (rule finishes_call [OF api_timingD(6)])

lemma finishes_dispatch_both:
  assumes "api_timing c j api" and "sy_now s + 2 * c \<le> t"
  shows "finishes t (dispatch_both api ex e e' s)"
  unfolding dispatch_both_def
proof (rule finishes_and_then)
  show "finishes (sy_now s + c) (dispatch api ex e s)"
    by (rule finishes_dispatch [OF assms(1) order.refl])
qed (use assms in \<open>auto intro: finishes_dispatch\<close>)

lemma finishes_script:
  "api_timing c j api \<Longrightarrow> sy_now s + c \<le> t \<Longrightarrow> finishes t (run_script api ex script s)"
  unfolding run_script_def by (rule finishes_call [OF api_timingD(1)])

text \<open>What an action may do once its element is ready: two calls, the settle, the snapshot.\<close>

definition act_budget :: "duration \<Rightarrow> duration \<Rightarrow> session_config \<Rightarrow> duration" where
  "act_budget c j config = sc_settle config + j + 4 * c"

lemma finishes_settle_act:
  "api_timing c j api \<Longrightarrow> sy_now s + act_budget c j (ex_config ex) \<le> t + 2 * c \<Longrightarrow>
   finishes t (settle_snapshot tx api ex s)"
  unfolding act_budget_def by (erule finishes_settle) linarith

lemma finishes_dispatch_settle:
  assumes "api_timing c j api" and "sy_now s + act_budget c j (ex_config ex) \<le> t + c"
  shows "finishes t (and_then (dispatch api ex e s) (\<lambda>u s1. settle_snapshot tx api ex s1))"
proof (rule finishes_and_then)
  show "finishes (sy_now s + c) (dispatch api ex e s)"
    by (rule finishes_dispatch [OF assms(1) order.refl])
qed (use assms in \<open>auto simp: act_budget_def intro: finishes_settle\<close>)

lemma finishes_both_settle:
  assumes "api_timing c j api" and "sy_now s + act_budget c j (ex_config ex) \<le> t"
  shows "finishes t (and_then (dispatch_both api ex e e' s) (\<lambda>u s1. settle_snapshot tx api ex s1))"
proof (rule finishes_and_then)
  show "finishes (sy_now s + 2 * c) (dispatch_both api ex e e' s)"
    by (rule finishes_dispatch_both [OF assms(1) order.refl])
qed (use assms in \<open>auto simp: act_budget_def intro: finishes_settle\<close>)

lemma finishes_call_settle:
  assumes "api_timing c j api" and "takes_at_most c call"
    and "sy_now s + act_budget c j (ex_config ex) \<le> t"
  shows "finishes t (and_then (engine_call (call s)) (\<lambda>u s1. settle_snapshot tx api ex s1))"
proof (rule finishes_and_then)
  show "finishes (sy_now s + c) (engine_call (call s))"
    by (rule finishes_call [OF assms(2) order.refl])
qed (use assms in \<open>auto simp: act_budget_def intro: finishes_settle\<close>)

lemma finishes_set_files:
  assumes "api_timing c j api" and "sy_now s + act_budget c j (ex_config ex) \<le> t + c"
  shows "finishes t (case pa_set_files api h r paths s of
      (Inl e, s3) \<Rightarrow> Some (Inl (file_handoff e), s3)
    | (Inr u, s3) \<Rightarrow> settle_snapshot tx api ex s3)"
proof -
  obtain answer s3 where set: "pa_set_files api h r paths s = (answer, s3)"
    by fastforce
  have "sy_now s3 \<le> sy_now s + c"
    using takes_at_mostD [OF api_timingD(7) [OF assms(1)] set] by simp
  then show ?thesis
    using assms by (cases answer) (auto simp: set act_budget_def intro: finishes_settle)
qed

lemma viewport_center_state:
  "snd (viewport_center api ex s) =
     snd (pa_evaluate api (ex_page ex) ''({ x: window.innerWidth / 2, y: window.innerHeight / 2 })'' s)"
  by (simp add: viewport_center_def split: prod.splits)

lemma action_time:
  assumes timing: "api_timing c j api" and pos: "0 < sc_stability_sample_interval (ex_config ex)"
  shows "finishes (sy_now s + wait_budget c j (ex_config ex) + act_budget c j (ex_config ex))
     (run_action tx api ex a s)"
proof -
  let ?W = "sy_now s + wait_budget c j (ex_config ex)"
  let ?t = "?W + act_budget c j (ex_config ex)"
  have wait: "finishes ?t (and_then (wait_element api ex r s) k)"
    if "\<And>b s1. sy_now s1 \<le> ?W \<Longrightarrow> finishes ?t (k b s1)" for r and k :: "_ \<Rightarrow> _ \<Rightarrow> ((session_error + snapshot) \<times> _) option"
    by (rule finishes_and_then [OF finishes_wait [OF timing pos order.refl]]) (auto intro: that)
  have script: "finishes ?t (and_then (run_script api ex script s1) k)"
    if "sy_now s1 \<le> ?W" and "\<And>v s2. sy_now s2 \<le> ?W + c \<Longrightarrow> finishes ?t (k v s2)"
    for script s1 and k :: "_ \<Rightarrow> _ \<Rightarrow> ((session_error + snapshot) \<times> _) option"
    using that by (intro finishes_and_then [OF finishes_script [OF timing order.refl]])
      (auto simp: act_budget_def)
  have slack: "c \<le> act_budget c j (ex_config ex)"
    by (simp add: act_budget_def)
  note now = wait script finishes_dispatch_settle [OF timing] finishes_both_settle [OF timing]
    finishes_set_files [OF timing] finishes_settle_act [OF timing]
  show ?thesis
  proof (cases a)
    case (Navigate url)
    show ?thesis
      unfolding Navigate run_action.simps run_navigate_def
      by (rule finishes_and_then [OF finishes_call [OF api_timingD(2) [OF timing] order.refl]])
        (auto simp: act_budget_def intro!: finishes_snapshot [OF timing])
  next
    case (Scroll r direction amount)
    have "sy_now (snd (viewport_center api ex s)) \<le> sy_now s + c"
      using api_timingD(1) [OF timing] by (simp add: viewport_center_state takes_at_most_def)
    then show ?thesis
      using Scroll by (cases r) (auto simp: run_scroll_def and_then_assoc intro!: now)
  next
    case (Click r)
    then show ?thesis
      by (auto simp: dispatch_press_def intro!: now)
  next
    case (Hover r)
    then show ?thesis
      by (auto intro!: now)
  next
    case (Type r typed)
    then show ?thesis
      using slack by (auto simp: run_type_def intro!: now)
  next
    case (SelectOption r vals)
    then show ?thesis
      using slack by (auto simp: run_select_option_def intro!: now)
  next
    case (SetInputFiles r paths)
    then show ?thesis
      using slack by (auto simp: run_set_input_files_def intro!: now split: option.split)
  qed (auto simp: run_press_key_def intro!: now finishes_call_settle [OF timing] api_timingD [OF timing])
qed

section \<open>Properties\<close>

fun action_target :: "action \<Rightarrow> reference option" where
  "action_target (Click r) = Some r"
| "action_target (Hover r) = Some r"
| "action_target (Type r typed) = Some r"
| "action_target (SelectOption r vals) = Some r"
| "action_target (Scroll r direction amount) = r"
| "action_target (SetInputFiles r paths) = Some r"
| "action_target _ = None"

text \<open>
  C14. Every action returns, whatever the page answers: the three auto-wait budgets, the
  settle pause and four page calls bound the time it takes.
\<close>

theorem action_returns:
  assumes "api_timing c j api" and "0 < sc_stability_sample_interval (ex_config ex)"
  shows "\<exists>outcome s'. run_action tx api ex a s = Some (outcome, s') \<and>
     sy_now s' \<le> sy_now s
       + 3 * (sc_phase_timeout (ex_config ex) + sc_stability_sample_interval (ex_config ex) + j + c)
       + (sc_settle (ex_config ex) + j + 4 * c)"
  using action_time [OF assms, of s tx a] by (simp add: finishes_def wait_budget_def act_budget_def)

text \<open>
  An action on an element that never got ready leaves the page alone: no click, key,
  wheel, script or file handoff follows a failed auto-wait, and the caller sees exactly its
  error. A file handoff with no files fails before the page is asked anything.
\<close>

theorem unready_element_untouched:
  assumes "action_target a = Some r" and "wait_element api ex r s = Some (Inl e, s')"
  shows "run_action tx api ex a s = Some (Inl e, s') \<or>
     a = SetInputFiles r [] \<and>
     run_action tx api ex a s = Some (Inl (not_interactable r ''no files were given''), s)"
  using assms by (cases a)
    (auto simp: run_type_def run_select_option_def run_scroll_def run_set_input_files_def)

text \<open>A client page for the witnesses.\<close>

definition plain_texts :: texts where
  "plain_texts = \<lparr>tx_parse = (\<lambda>s. None), tx_json_string = quoted, tx_json_strings = (\<lambda>xs. None),
     tx_serializer = ''serializer'', tx_reader = ''reader''\<rparr>"

definition lone_executor :: "unit executor" where
  "lone_executor = \<lparr>ex_session = SessionId ''s'', ex_page_id = PageId ''p'', ex_page = (),
     ex_config = default_session_config\<rparr>"

theorem action_returns_witness:
  "\<exists>outcome s'. run_action plain_texts (still_page JNull) lone_executor (Click (Reference ''e1'')) idle_sys
     = Some (outcome, s')"
proof -
  have timing: "api_timing 1 0 (still_page JNull :: (unit, unit sys_scheme) page_api)"
    by (simp add: api_timing_def still_page_def takes_at_most_def sleeps_within_def tick_def)
  have "0 < sc_stability_sample_interval (ex_config lone_executor)"
    by (simp add: lone_executor_def default_session_config_def from_millis_def)
  then show ?thesis
    using action_returns [OF timing, where ex = lone_executor and s = idle_sys and tx = plain_texts
        and a = "Click (Reference ''e1'')"]
    by blast
qed

theorem unready_element_untouched_witness:
  "run_action plain_texts (still_page (JObj [(''missing'', JBool True)])) lone_executor
     (Click (Reference ''e1'')) idle_sys = Some (Inl (expired ''e1''), tick 1 idle_sys)"
proof -
  have "wait_element (still_page (JObj [(''missing'', JBool True)])) lone_executor (Reference ''e1'') idle_sys
      = Some (Inl (expired ''e1''), tick 1 idle_sys)"
    by (simp add: wait_element_def auto_wait_def auto_wait_loop.simps resolve_box_def still_page_def
        parse_box_def obj_get_def wait_round_def)
  then show ?thesis
    using unready_element_untouched [of "Click (Reference ''e1'')" "Reference ''e1''"] by simp
qed

end
