(* ===== verification/Session_Storage.thy ===== *)
theory Session_Storage
  imports Session_Wait "HOL-Library.Countable"
begin

text \<open>
  Storage state, \<open>crates/session/src/storage.rs\<close>: its JSON form, capture from and restore
  into an engine context, the atomic write of the persistence file, and the reading back.

  The file system is a partial map from a directory and a name to the bytes of the file.
  Every system call of a write may fail, and what fails is the argument \<open>write_faults\<close>; a
  write answers its result together with the file system after each of its system calls,
  which is what a crash at that point leaves on disk.
\<close>

section \<open>The state and its JSON form\<close>

record origin_storage =
  os_origin :: string
  os_entries :: "(string \<times> string) list"

record storage_state =
  st_cookies :: "cookie list"
  st_origins :: "origin_storage list"

definition empty_storage :: storage_state where
  "empty_storage = \<lparr>st_cookies = [], st_origins = []\<rparr>"

text \<open>What the derived \<open>Serialize\<close> writes.\<close>

definition option_value :: "('a \<Rightarrow> json) \<Rightarrow> 'a option \<Rightarrow> json" where
  "option_value f v = (case v of None \<Rightarrow> JNull | Some x \<Rightarrow> f x)"

fun same_site_value :: "same_site \<Rightarrow> json" where
  "same_site_value SameSiteStrict = JStr ''strict''"
| "same_site_value SameSiteLax = JStr ''lax''"
| "same_site_value SameSiteNone = JStr ''none''"

definition cookie_value :: "cookie \<Rightarrow> json" where
  "cookie_value c = JObj
     [(''name'', JStr (ck_name c)), (''value'', JStr (ck_value c)), (''domain'', JStr (ck_domain c)),
      (''path'', option_value JStr (ck_path c)), (''secure'', JBool (ck_secure c)),
      (''http_only'', JBool (ck_http_only c)),
      (''same_site'', option_value same_site_value (ck_same_site c)),
      (''expires'', option_value JFloat (ck_expires c))]"

definition origin_value :: "origin_storage \<Rightarrow> json" where
  "origin_value o' = JObj
     [(''origin'', JStr (os_origin o')),
      (''entries'', JArr (map (\<lambda>(k, v). JArr [JStr k, JStr v]) (os_entries o')))]"

definition storage_value :: "storage_state \<Rightarrow> json" where
  "storage_value s = JObj
     [(''cookies'', JArr (map cookie_value (st_cookies s))),
      (''origins'', JArr (map origin_value (st_origins s)))]"

text \<open>
  What the derived \<open>Deserialize\<close> accepts: unknown fields are ignored, an absent optional
  field is \<^term>\<open>None\<close>, the two lists default to empty, everything else is required.
\<close>

fun mapM :: "('a \<Rightarrow> 'b option) \<Rightarrow> 'a list \<Rightarrow> 'b list option" where
  "mapM f [] = Some []"
| "mapM f (x # xs) =
     Option.bind (f x) (\<lambda>y. Option.bind (mapM f xs) (\<lambda>ys. Some (y # ys)))"

definition option_of_value :: "(json \<Rightarrow> 'a option) \<Rightarrow> json option \<Rightarrow> 'a option option" where
  "option_of_value f v =
     (case v of
        None \<Rightarrow> Some None
      | Some JNull \<Rightarrow> Some None
      | Some x \<Rightarrow> map_option Some (f x))"

definition same_site_of_value :: "json \<Rightarrow> same_site option" where
  "same_site_of_value v =
     (if v = JStr ''strict'' then Some SameSiteStrict
      else if v = JStr ''lax'' then Some SameSiteLax
      else if v = JStr ''none'' then Some SameSiteNone
      else None)"

definition cookie_of_value :: "json \<Rightarrow> cookie option" where
  "cookie_of_value v =
     Option.bind (as_object v) (\<lambda>fs.
     Option.bind (Option.bind (obj_get fs ''name'') as_str) (\<lambda>name.
     Option.bind (Option.bind (obj_get fs ''value'') as_str) (\<lambda>val.
     Option.bind (Option.bind (obj_get fs ''domain'') as_str) (\<lambda>domain.
     Option.bind (option_of_value as_str (obj_get fs ''path'')) (\<lambda>path.
     Option.bind (Option.bind (obj_get fs ''secure'') as_bool) (\<lambda>secure.
     Option.bind (Option.bind (obj_get fs ''http_only'') as_bool) (\<lambda>http_only.
     Option.bind (option_of_value same_site_of_value (obj_get fs ''same_site'')) (\<lambda>same_site.
     Option.bind (option_of_value as_f64 (obj_get fs ''expires'')) (\<lambda>expires.
       Some \<lparr>ck_name = name, ck_value = val, ck_domain = domain, ck_path = path, ck_secure = secure,
         ck_http_only = http_only, ck_same_site = same_site, ck_expires = expires\<rparr>)))))))))"

definition entry_of_value :: "json \<Rightarrow> (string \<times> string) option" where
  "entry_of_value v =
     (case v of JArr [JStr k, JStr x] \<Rightarrow> Some (k, x) | _ \<Rightarrow> None)"

definition origin_of_value :: "json \<Rightarrow> origin_storage option" where
  "origin_of_value v =
     Option.bind (as_object v) (\<lambda>fs.
     Option.bind (Option.bind (obj_get fs ''origin'') as_str) (\<lambda>origin.
     Option.bind (Option.bind (obj_get fs ''entries'') as_array) (\<lambda>xs.
     Option.bind (mapM entry_of_value xs) (\<lambda>entries.
       Some \<lparr>os_origin = origin, os_entries = entries\<rparr>))))"

definition list_of_value :: "(json \<Rightarrow> 'a option) \<Rightarrow> json option \<Rightarrow> 'a list option" where
  "list_of_value f v =
     (case v of None \<Rightarrow> Some [] | Some x \<Rightarrow> Option.bind (as_array x) (mapM f))"

definition storage_of_value :: "json \<Rightarrow> storage_state option" where
  "storage_of_value v =
     Option.bind (as_object v) (\<lambda>fs.
     Option.bind (list_of_value cookie_of_value (obj_get fs ''cookies'')) (\<lambda>cookies.
     Option.bind (list_of_value origin_of_value (obj_get fs ''origins'')) (\<lambda>origins.
       Some \<lparr>st_cookies = cookies, st_origins = origins\<rparr>)))"

lemma mapM_map: "(\<And>x. x \<in> set xs \<Longrightarrow> f (g x) = Some x) \<Longrightarrow> mapM f (map g xs) = Some xs"
  by (induction xs) auto

lemma option_of_value_round:
  assumes "\<And>x. g (f x) = Some x" and "\<And>x. f x \<noteq> JNull"
  shows "option_of_value g (Some (option_value f v)) = Some v"
proof (cases v)
  case (Some x)
  then show ?thesis
    using assms [of x] by (cases "f x") (auto simp: option_of_value_def option_value_def)
qed (simp add: option_of_value_def option_value_def)

lemma same_site_round: "same_site_of_value (same_site_value x) = Some x"
  by (cases x) (simp_all add: same_site_of_value_def)

lemma cookie_round: "cookie_of_value (cookie_value c) = Some c"
proof -
  have "same_site_value x \<noteq> JNull" for x
    by (cases x) simp_all
  then show ?thesis
    by (simp add: cookie_of_value_def cookie_value_def obj_get_def option_of_value_round same_site_round)
qed

lemma entry_round: "entry_of_value ((\<lambda>(k, v). JArr [JStr k, JStr v]) e) = Some e"
  by (cases e) (simp add: entry_of_value_def)

lemma origin_round: "origin_of_value (origin_value o') = Some o'"
  by (simp add: origin_of_value_def origin_value_def obj_get_def mapM_map entry_round)

lemma storage_round: "storage_of_value (storage_value s) = Some s"
  by (simp add: storage_of_value_def storage_value_def obj_get_def list_of_value_def mapM_map
      cookie_round origin_round)

section \<open>Capture and restore\<close>

record ('c, 'h, 's) context_api =
  cx_open_page :: "'c \<Rightarrow> 's \<Rightarrow> (engine_error + page_id \<times> 'h) \<times> 's"
  cx_close_page :: "'c \<Rightarrow> page_id \<Rightarrow> 's \<Rightarrow> (engine_error + unit) \<times> 's"
  cx_foreign_pages :: "'c \<Rightarrow> 's \<Rightarrow> (engine_error + foreign_page list) \<times> 's"
  cx_adopt_page :: "'c \<Rightarrow> page_id \<Rightarrow> 's \<Rightarrow> (engine_error + page_id \<times> 'h) \<times> 's"
  cx_set_cookies :: "'c \<Rightarrow> cookie list \<Rightarrow> 's \<Rightarrow> (engine_error + unit) \<times> 's"
  cx_cookies :: "'c \<Rightarrow> 's \<Rightarrow> (engine_error + cookie list) \<times> 's"
  cx_close :: "'c \<Rightarrow> 's \<Rightarrow> (engine_error + unit) \<times> 's"

text \<open>The pages grouped by origin, in the order each origin first appears.\<close>

fun add_to_group :: "string \<Rightarrow> 'h \<Rightarrow> (string \<times> 'h list) list \<Rightarrow> (string \<times> 'h list) list" where
  "add_to_group origin page [] = [(origin, [page])]"
| "add_to_group origin page ((known, handles) # groups) =
     (if known = origin then (known, handles @ [page]) # groups
      else (known, handles) # add_to_group origin page groups)"

definition origins_in_order :: "(string \<times> 'h) list \<Rightarrow> (string \<times> 'h list) list" where
  "origins_in_order pages = foldl (\<lambda>groups (origin, page). add_to_group origin page groups) [] pages"

definition dump_entry :: "string \<times> json \<Rightarrow> (string \<times> string) option" where
  "dump_entry kv = map_option (Pair (fst kv)) (as_str (snd kv))"

definition parse_dump :: "json \<Rightarrow> string \<Rightarrow> origin_storage option" where
  "parse_dump v origin =
     Option.bind (as_object v) (\<lambda>fs.
     Option.bind (obj_get fs ''data'') (\<lambda>d.
     Option.bind (as_object d) (\<lambda>data.
       Some \<lparr>os_origin = origin, os_entries = List.map_filter dump_entry data\<rparr>)))"

text \<open>The pages of one origin are asked until one answers.\<close>

fun dump_group ::
  "('h, 's) page_api \<Rightarrow> string \<Rightarrow> 'h list \<Rightarrow> 's \<Rightarrow> origin_storage option \<times> 's" where
  "dump_group api origin [] s = (None, s)"
| "dump_group api origin (page # pages) s =
     (case pa_evaluate api page storage_dump_script s of (answer, s1) \<Rightarrow>
        (case (case answer of Inl e \<Rightarrow> None | Inr v \<Rightarrow> parse_dump v origin) of
           Some entries \<Rightarrow> (Some entries, s1)
         | None \<Rightarrow> dump_group api origin pages s1))"

fun dump_groups ::
  "('h, 's) page_api \<Rightarrow> (string \<times> 'h list) list \<Rightarrow> 's \<Rightarrow> origin_storage list \<times> 's" where
  "dump_groups api [] s = ([], s)"
| "dump_groups api ((origin, handles) # groups) s =
     (case dump_group api origin handles s of (found, s1) \<Rightarrow>
        (case dump_groups api groups s1 of (rest, s2) \<Rightarrow>
           (case found of None \<Rightarrow> rest | Some entries \<Rightarrow> entries # rest, s2)))"

definition dump_origins :: "('h, 's) page_api \<Rightarrow> (string \<times> 'h) list \<Rightarrow> 's \<Rightarrow> origin_storage list \<times> 's" where
  "dump_origins api pages s = (if pages = [] then ([], s) else dump_groups api (origins_in_order pages) s)"

definition try_capture ::
  "('h, 's) page_api \<Rightarrow> ('c, 'h, 's) context_api \<Rightarrow> 'c \<Rightarrow> (string \<times> 'h) list \<Rightarrow> 's \<Rightarrow>
   storage_state option \<times> 's" where
  "try_capture api cx context pages s =
     (case cx_cookies cx context s of (cookies, s1) \<Rightarrow>
        (case dump_origins api pages s1 of (origins, s2) \<Rightarrow>
           (case cookies of
              Inl e \<Rightarrow> None
            | Inr cs \<Rightarrow> Some \<lparr>st_cookies = cs, st_origins = origins\<rparr>, s2)))"

definition capture ::
  "('h, 's) page_api \<Rightarrow> ('c, 'h, 's) context_api \<Rightarrow> 'c \<Rightarrow> (string \<times> 'h) list \<Rightarrow> 's \<Rightarrow> storage_state \<times> 's" where
  "capture api cx context pages s =
     (case try_capture api cx context pages s of (found, s1) \<Rightarrow> (unwrap_or found empty_storage, s1))"

text \<open>
  The entries go through a \<open>HashMap\<close>, so a repeated key keeps its last value; how the map
  prints is the argument \<open>print_map\<close>.
\<close>

fun restore_origins ::
  "('h, 's) page_api \<Rightarrow> ((string \<rightharpoonup> string) \<Rightarrow> string option) \<Rightarrow> storage_state \<Rightarrow> (string \<times> 'h) list \<Rightarrow> 's \<Rightarrow> 's" where
  "restore_origins api print_map state [] s = s"
| "restore_origins api print_map state ((origin, page) # pages) s =
     (case find (\<lambda>existing. os_origin existing = origin) (st_origins state) of
        None \<Rightarrow> restore_origins api print_map state pages s
      | Some entries \<Rightarrow>
          (case print_map (map_of (rev (os_entries entries))) of
             None \<Rightarrow> restore_origins api print_map state pages s
           | Some text' \<Rightarrow>
               restore_origins api print_map state pages
                 (snd (pa_evaluate api page (storage_restore_script text') s))))"

definition restore ::
  "('h, 's) page_api \<Rightarrow> ('c, 'h, 's) context_api \<Rightarrow> ((string \<rightharpoonup> string) \<Rightarrow> string option) \<Rightarrow> storage_state \<Rightarrow>
   'c \<Rightarrow> (string \<times> 'h) list \<Rightarrow> 's \<Rightarrow> 's" where
  "restore api cx print_map state context pages s =
     restore_origins api print_map state pages
       (if st_cookies state = [] then s else snd (cx_set_cookies cx context (st_cookies state) s))"

section \<open>Writing and reading the file\<close>

type_synonym file_path = "string \<times> string"
type_synonym files = "file_path \<rightharpoonup> string"

record io_error =
  io_code :: "nat option"
  io_text :: string

definition publish_attempts :: nat where
  "publish_attempts = 5"

definition is_transient_publish_error :: "io_error \<Rightarrow> bool" where
  "is_transient_publish_error e \<longleftrightarrow> io_code e = Some 5 \<or> io_code e = Some 32"

text \<open>The answers of the successive renames; the result and the pauses between them.\<close>

function publish_loop :: "(nat \<Rightarrow> io_error option) \<Rightarrow> nat \<Rightarrow> (io_error + unit) \<times> duration list" where
  "publish_loop rename attempt =
     (case rename attempt of
        None \<Rightarrow> (Inr (), [])
      | Some e \<Rightarrow>
          (if attempt + 1 \<ge> publish_attempts \<or> \<not> is_transient_publish_error e then (Inl e, [])
           else (case publish_loop rename (attempt + 1) of
                   (r, pauses) \<Rightarrow> (r, from_millis (2 ^ attempt) # pauses))))"
  by pat_completeness auto
termination
  by (relation "measure (\<lambda>(rename, attempt). publish_attempts - attempt)") auto

declare publish_loop.simps [simp del]

definition publish_staged :: "(nat \<Rightarrow> io_error option) \<Rightarrow> (io_error + unit) \<times> duration list" where
  "publish_staged rename = publish_loop rename 0"

record write_faults =
  wf_dirs :: "io_error option"
  wf_encode :: "io_error option"
  wf_open :: "io_error option"
  wf_write :: "(nat \<times> io_error) option"
  wf_sync :: "io_error option"
  wf_rename :: "nat \<Rightarrow> io_error option"

definition no_faults :: write_faults where
  "no_faults = \<lparr>wf_dirs = None, wf_encode = None, wf_open = None, wf_write = None, wf_sync = None,
     wf_rename = (\<lambda>n. None)\<rparr>"

definition staging_file :: "nat \<Rightarrow> nat \<Rightarrow> file_path \<Rightarrow> file_path" where
  "staging_file pid attempt path =
     (fst path, ''.'' @ snd path @ ''.tmp-'' @ show_nat pid @ ''-'' @ show_nat attempt)"

text \<open>
  \<open>StorageState::write\<close>: the result and the file system after every system call. A failed
  write or sync, and a failed publish, remove the staging file.
\<close>

definition write_storage ::
  "write_faults \<Rightarrow> nat \<Rightarrow> nat \<Rightarrow> file_path \<Rightarrow> string \<Rightarrow> files \<Rightarrow> (io_error + unit) \<times> files list" where
  "write_storage faults pid attempt path encoded fs =
     (let staging = staging_file pid attempt path;
          opened = fs(staging \<mapsto> []);
          full = fs(staging \<mapsto> encoded);
          dropped = fs(staging := None)
      in case wf_dirs faults of Some e \<Rightarrow> (Inl e, [fs]) | None \<Rightarrow>
         (case wf_encode faults of Some e \<Rightarrow> (Inl e, [fs]) | None \<Rightarrow>
         (case wf_open faults of Some e \<Rightarrow> (Inl e, [fs, dropped]) | None \<Rightarrow>
         (case wf_write faults of
            Some (n, e) \<Rightarrow> (Inl e, [fs, opened, fs(staging \<mapsto> take n encoded), dropped])
          | None \<Rightarrow>
         (case wf_sync faults of Some e \<Rightarrow> (Inl e, [fs, opened, full, dropped]) | None \<Rightarrow>
         (case fst (publish_staged (wf_rename faults)) of
            Inl e \<Rightarrow> (Inl e, [fs, opened, full, dropped])
          | Inr u \<Rightarrow> (Inr (), [fs, opened, full, dropped(path \<mapsto> encoded)])))))))"

text \<open>\<open>StorageState::read\<close>; \<open>read_fault\<close> is a failure other than a missing file.\<close>

definition read_storage :: "(string \<Rightarrow> json option) \<Rightarrow> bool \<Rightarrow> file_path \<Rightarrow> files \<Rightarrow> storage_state" where
  "read_storage parse read_fault path fs =
     (if read_fault then empty_storage
      else
        (case fs path of
           None \<Rightarrow> empty_storage
         | Some stored \<Rightarrow> unwrap_or (Option.bind (parse stored) storage_of_value) empty_storage))"

section \<open>Persist on change\<close>

text \<open>
  The bookkeeping of \<open>crates/session/src/session/mod.rs\<close> (\<open>PersistState\<close>,
  \<open>write_storage_if_changed\<close>): one capture, compared and written under one guard. The
  encoder of a JSON value is \<open>encode\<close>; a session without a state directory has no path.
\<close>

record persist_state =
  pe_state :: storage_state
  pe_persisted :: bool

definition persist_default :: persist_state where
  "persist_default = \<lparr>pe_state = empty_storage, pe_persisted = False\<rparr>"

definition write_if_changed ::
  "(json \<Rightarrow> string) \<Rightarrow> write_faults \<Rightarrow> nat \<Rightarrow> nat \<Rightarrow> file_path option \<Rightarrow> storage_state option \<Rightarrow>
   persist_state \<Rightarrow> files \<Rightarrow> (string + unit) \<times> persist_state \<times> files" where
  "write_if_changed encode faults pid attempt path captured p fs =
     (case captured of
        None \<Rightarrow> (Inr (), p, fs)
      | Some state \<Rightarrow>
          (if pe_state p = state \<and> pe_persisted p then (Inr (), p, fs)
           else
             (case path of
                None \<Rightarrow> (Inr (), p\<lparr>pe_state := state\<rparr>, fs)
              | Some f \<Rightarrow>
                  (case write_storage faults pid attempt f (encode (storage_value state)) fs of
                     (Inr u, trace) \<Rightarrow> (Inr (), \<lparr>pe_state = state, pe_persisted = True\<rparr>, last trace)
                   | (Inl e, trace) \<Rightarrow>
                       (Inl (io_text e), \<lparr>pe_state = state, pe_persisted = False\<rparr>, last trace)))))"

text \<open>\<open>load_storage\<close> in its two halves: the file is read first, the state installed after the restore.\<close>

definition install_loaded :: "storage_state \<Rightarrow> persist_state \<Rightarrow> persist_state" where
  "install_loaded state p = p\<lparr>pe_state := state\<rparr>"

datatype persist_op =
    PersistCapture "storage_state option" write_faults nat
  | PersistLoad

fun persist_step ::
  "(json \<Rightarrow> string) \<Rightarrow> (string \<Rightarrow> json option) \<Rightarrow> nat \<Rightarrow> file_path \<Rightarrow> persist_op \<Rightarrow>
   persist_state \<times> files \<Rightarrow> persist_state \<times> files" where
  "persist_step encode parse pid path (PersistCapture captured faults attempt) (p, fs) =
     snd (write_if_changed encode faults pid attempt (Some path) captured p fs)"
| "persist_step encode parse pid path PersistLoad (p, fs) =
     (install_loaded (read_storage parse False path fs) p, fs)"

section \<open>Facts about writes\<close>

lemma staging_name_neq: "staging_file pid attempt path \<noteq> path"
proof -
  have "length (snd (staging_file pid attempt path)) \<noteq> length (snd path)"
    by (simp add: staging_file_def)
  then show ?thesis
    by metis
qed

lemma publish_loop_pauses:
  "attempt < publish_attempts \<Longrightarrow>
   length (snd (publish_loop rename attempt)) < publish_attempts - attempt \<and>
   sum_list (snd (publish_loop rename attempt)) \<le> from_millis (2 ^ (publish_attempts - 1) - 2 ^ attempt)"
proof (induction rename attempt rule: publish_loop.induct)
  case (1 rename attempt)
  show ?case
  proof (cases "\<exists>e. rename attempt = Some e \<and> is_transient_publish_error e \<and> attempt + 1 < publish_attempts")
    case True
    then obtain e where e: "rename attempt = Some e" "is_transient_publish_error e"
      "attempt + 1 < publish_attempts"
      by blast
    obtain r pauses where rest: "publish_loop rename (attempt + 1) = (r, pauses)"
      by fastforce
    have step: "publish_loop rename attempt = (r, from_millis (2 ^ attempt) # pauses)"
      using e rest by (subst publish_loop.simps) simp
    have IH: "length pauses < publish_attempts - (attempt + 1)"
      "sum_list pauses \<le> from_millis (2 ^ (publish_attempts - 1) - 2 ^ (attempt + 1))"
      using "1.IH" [OF e(1)] e rest by simp_all
    have "(2 :: nat) ^ (attempt + 1) \<le> 2 ^ (publish_attempts - 1)"
      using e(3) by (intro power_increasing) auto
    then show ?thesis
      using IH by (simp add: step from_millis_def algebra_simps diff_mult_distrib) linarith
  next
    case False
    then have "snd (publish_loop rename attempt) = []"
      by (subst publish_loop.simps) (auto split: option.split)
    then show ?thesis
      using "1.prems" by simp
  qed
qed

text \<open>What one write leaves, whatever fails.\<close>

lemma write_storage_last:
  assumes "write_storage faults pid attempt path encoded fs = (r, trace)"
  shows "trace \<noteq> [] \<and> last trace path = (if r = Inr () then Some encoded else fs path) \<and>
     (\<forall>f. f \<noteq> path \<longrightarrow> f \<noteq> staging_file pid attempt path \<longrightarrow> last trace f = fs f)"
  using assms staging_name_neq [of pid attempt path]
  by (auto simp: write_storage_def Let_def split: option.splits sum.splits prod.splits)

lemma write_storage_trace:
  assumes "write_storage faults pid attempt path encoded fs = (r, trace)" and "m \<in> set trace"
  shows "m path \<in> {fs path, Some encoded} \<and>
     (\<forall>f. f \<noteq> path \<longrightarrow> f \<noteq> staging_file pid attempt path \<longrightarrow> m f = fs f)"
  using assms staging_name_neq [of pid attempt path]
  by (auto simp: write_storage_def Let_def split: option.splits sum.splits prod.splits)

lemma write_storage_staging:
  assumes "write_storage faults pid attempt path encoded fs = (r, trace)"
    and "wf_dirs faults = None" and "wf_encode faults = None"
  shows "last trace (staging_file pid attempt path) = None"
  using assms staging_name_neq [of pid attempt path]
  by (auto simp: write_storage_def Let_def split: option.splits sum.splits prod.splits)

section \<open>What the bookkeeping means\<close>

text \<open>The remembered state is on disk whenever the flag says so.\<close>

definition persist_inv :: "(json \<Rightarrow> string) \<Rightarrow> file_path \<Rightarrow> persist_state \<times> files \<Rightarrow> bool" where
  "persist_inv encode path pf \<longleftrightarrow>
     (pe_persisted (fst pf) \<longrightarrow> snd pf path = Some (encode (storage_value (pe_state (fst pf)))))"

lemma persist_inv_capture:
  assumes "persist_inv encode path (p, fs)"
  shows "persist_inv encode path (snd (write_if_changed encode faults pid attempt (Some path) captured p fs))"
proof (cases captured)
  case None
  then show ?thesis using assms by (simp add: write_if_changed_def)
next
  case (Some state)
  obtain r trace where w: "write_storage faults pid attempt path (encode (storage_value state)) fs = (r, trace)"
    by fastforce
  show ?thesis
    using assms Some write_storage_last [OF w]
    by (cases r) (auto simp: write_if_changed_def persist_inv_def w)
qed

lemma persist_inv_load:
  assumes "\<And>v. parse (encode v) = Some v" and "persist_inv encode path (p, fs)"
  shows "persist_inv encode path (install_loaded (read_storage parse False path fs) p, fs)"
  using assms by (auto simp: persist_inv_def install_loaded_def read_storage_def storage_round)

text \<open>
  The component over one codec, for a codec that keeps its documented behaviour; without
  one nothing is claimed.
\<close>

definition codec_ok :: "(json \<Rightarrow> string) \<Rightarrow> (string \<Rightarrow> json option) \<Rightarrow> bool" where
  "codec_ok encode parse \<longleftrightarrow> (\<forall>v. parse (encode v) = Some v)"

interpretation persistence: guarded_state "(persist_default, fs)"
    "persist_step encode parse pid path"
    "\<lambda>pf. codec_ok encode parse \<longrightarrow> persist_inv encode path pf"
  for fs encode parse pid path
proof (unfold_locales, goal_cases)
  case 1
  show ?case
    by (simp add: persist_inv_def persist_default_def)
next
  case (2 pf x)
  then show ?case
    by (cases pf; cases x) (auto simp: codec_ok_def persist_inv_capture persist_inv_load)
qed

section \<open>Properties\<close>




text \<open>A codec for the witnesses: a JSON value is printed as its number.\<close>

instance json :: countable
  by countable_datatype

definition number_encode :: "json \<Rightarrow> string" where
  "number_encode v = show_nat (to_nat v)"

definition number_parse :: "string \<Rightarrow> json option" where
  "number_parse s = Some (from_nat (digits_val s))"

lemma number_codec: "number_parse (number_encode v) = Some v"
  by (simp add: number_parse_def number_encode_def digits_val_show_nat)

definition one_origin :: storage_state where
  "one_origin = \<lparr>st_cookies = [], st_origins = [\<lparr>os_origin = ''https://a'', os_entries = [(''k'', ''v'')]\<rparr>]\<rparr>"


text \<open>
  As long as the bookkeeping calls the remembered state persisted, the file holds it:
  after every sequence of captures, readable or not, of writes that succeed or fail at any
  system call, and of loads that read the file and install it with nothing in between.
\<close>

theorem persisted_file_is_current:
  assumes "\<And>v. parse (encode v) = Some v"
  shows "case run_ops (persist_step encode parse pid path) xs (persist_default, fs) of
     (p, fs') \<Rightarrow> \<not> pe_persisted p \<or> fs' path = Some (encode (storage_value (pe_state p)))"
  using persistence.run_inv [where encode = encode and parse = parse and pid = pid and path = path and fs = fs
      and xs = xs] assms
  by (auto simp: codec_ok_def persist_inv_def split: prod.splits)

theorem persisted_file_is_current_witness:
  "case run_ops (persist_step number_encode number_parse 7 (''d'', ''f''))
       [PersistCapture (Some one_origin) no_faults 0, PersistCapture None no_faults 1, PersistLoad]
       (persist_default, Map.empty) of
     (p, fs') \<Rightarrow> \<not> pe_persisted p \<or> fs' (''d'', ''f'') = Some (number_encode (storage_value (pe_state p)))"
  by (rule persisted_file_is_current [OF number_codec])

text \<open>
  The condition on loads is needed. When an action persists a newer state while
  \<open>load_storage\<close> is between its two halves, the load puts the older state back as the
  remembered one with the flag still set: a later capture of that older state is taken for
  unchanged, and the file keeps the newer one.
\<close>

lemma interleaved_load_hides_stale_file:
  assumes "\<And>v. parse (encode v) = Some v" and "older \<noteq> newer"
    and "pe_state p = older" "pe_persisted p" "fs path = Some (encode (storage_value older))"
  shows "\<exists>loaded p1 fs1. loaded = read_storage parse False path fs \<and>
     snd (write_if_changed encode no_faults pid attempt (Some path) (Some newer) p fs) = (p1, fs1) \<and>
     fs1 path = Some (encode (storage_value newer)) \<and>
     write_if_changed encode faults pid attempt' (Some path) (Some older) (install_loaded loaded p1) fs1
       = (Inr (), install_loaded loaded p1, fs1)"
  using assms staging_name_neq [of pid attempt path]
  by (auto simp: write_if_changed_def write_storage_def Let_def no_faults_def publish_staged_def
      publish_loop.simps read_storage_def storage_round install_loaded_def)

end
