(* ===== verification/Session_Feeds.thy ===== *)
theory Session_Feeds
  imports Session_Wait
begin

text \<open>
  The observation feeds of a session, \<open>crates/session/src/observations.rs\<close>: per tracked page
  a bounded console buffer, a bounded buffer of finished requests, and one background task.
  The map is behind one mutex, so each operation is an atomic step; a task is named by the
  token of its spawn, and an aborted task is recorded in \<open>ff_aborted\<close>.
\<close>

section \<open>State and operations\<close>

definition feed_capacity :: nat where
  "feed_capacity = 200"

definition request_capacity :: nat where
  "request_capacity = 100"

record feed =
  fd_entries :: "console_entry list"
  fd_requests :: "request_entry list"
  fd_token :: nat

record feeds =
  ff_feeds :: "page_id \<rightharpoonup> feed"
  ff_next_token :: nat
  ff_aborted :: "nat list"

definition feeds_default :: feeds where
  "feeds_default = \<lparr>ff_feeds = Map.empty, ff_next_token = 0, ff_aborted = []\<rparr>"

definition push_bounded :: "nat \<Rightarrow> 'a \<Rightarrow> 'a list \<Rightarrow> 'a list" where
  "push_bounded capacity x xs = (if length xs \<ge> capacity then tl xs else xs) @ [x]"

text \<open>\<open>spawn\<close> answers the token of the task it started, if it started one.\<close>

definition feed_spawn :: "page_id \<Rightarrow> feeds \<Rightarrow> nat option \<times> feeds" where
  "feed_spawn page f =
     (case ff_feeds f page of
        Some existing \<Rightarrow> (None, f)
      | None \<Rightarrow>
          (Some (ff_next_token f),
           f\<lparr>ff_next_token := ff_next_token f + 1,
             ff_feeds := (ff_feeds f)(page \<mapsto>
               \<lparr>fd_entries = [], fd_requests = [], fd_token = ff_next_token f\<rparr>)\<rparr>))"

definition feed_record :: "page_id \<Rightarrow> console_entry \<Rightarrow> feeds \<Rightarrow> feeds" where
  "feed_record page e f =
     (case ff_feeds f page of
        None \<Rightarrow> f
      | Some d \<Rightarrow> f\<lparr>ff_feeds := (ff_feeds f)(page \<mapsto>
          d\<lparr>fd_entries := push_bounded feed_capacity e (fd_entries d)\<rparr>)\<rparr>)"

definition feed_record_request :: "page_id \<Rightarrow> request_entry \<Rightarrow> feeds \<Rightarrow> feeds" where
  "feed_record_request page e f =
     (case ff_feeds f page of
        None \<Rightarrow> f
      | Some d \<Rightarrow> f\<lparr>ff_feeds := (ff_feeds f)(page \<mapsto>
          d\<lparr>fd_requests := push_bounded request_capacity e (fd_requests d)\<rparr>)\<rparr>)"

definition feed_entries :: "page_id \<Rightarrow> feeds \<Rightarrow> console_entry list" where
  "feed_entries page f = (case ff_feeds f page of None \<Rightarrow> [] | Some d \<Rightarrow> fd_entries d)"

definition feed_requests :: "page_id \<Rightarrow> feeds \<Rightarrow> request_entry list" where
  "feed_requests page f = (case ff_feeds f page of None \<Rightarrow> [] | Some d \<Rightarrow> fd_requests d)"

definition feed_remove :: "page_id \<Rightarrow> feeds \<Rightarrow> feeds" where
  "feed_remove page f =
     (case ff_feeds f page of
        None \<Rightarrow> f
      | Some d \<Rightarrow> f\<lparr>ff_feeds := (ff_feeds f)(page := None), ff_aborted := ff_aborted f @ [fd_token d]\<rparr>)"

definition feed_reap :: "page_id \<Rightarrow> nat \<Rightarrow> feeds \<Rightarrow> feeds" where
  "feed_reap page token f =
     (case ff_feeds f page of
        None \<Rightarrow> f
      | Some d \<Rightarrow> if fd_token d = token then f\<lparr>ff_feeds := (ff_feeds f)(page := None)\<rparr> else f)"

text \<open>The drain aborts the task of every entry; the entries are named by the tokens handed out.\<close>

definition held_by :: "feeds \<Rightarrow> nat \<Rightarrow> bool" where
  "held_by f token \<longleftrightarrow> Some token \<in> map_option fd_token ` range (ff_feeds f)"

definition feed_clear :: "feeds \<Rightarrow> feeds" where
  "feed_clear f =
     f\<lparr>ff_feeds := Map.empty,
       ff_aborted := ff_aborted f @ filter (held_by f) [0..<ff_next_token f]\<rparr>"

section \<open>The background task\<close>

text \<open>
  One turn of the loop of \<open>run_feed\<close>: the entry or the event an observation leaves, and
  whether the dialog it announces is dismissed next.
\<close>

definition feed_turn ::
  "session_id \<Rightarrow> page_id \<Rightarrow> page_observation \<Rightarrow> feeds \<times> 'z sys_scheme \<Rightarrow> bool \<times> feeds \<times> 'z sys_scheme" where
  "feed_turn session page observation fs =
     (case fs of (f, s) \<Rightarrow>
        (case observation of
           DialogOpened kind message \<Rightarrow>
             (True, f, emit session (DialogAutoDismissed page (dialog_name kind) message) s)
         | ConsoleEmitted level content \<Rightarrow>
             (False, feed_record page \<lparr>ce_level = level, ce_text = content\<rparr> f, s)
         | UncaughtException content \<Rightarrow>
             (False, feed_record page \<lparr>ce_level = ErrorLevel, ce_text = content\<rparr> f, s)
         | RequestObserved entry \<Rightarrow> (False, feed_record_request page entry f, s)))"

text \<open>
  The whole task over the observations its stream delivers: \<open>dismiss\<close> is the call to
  \<open>handle_dialog(false, None)\<close>, whose failure is ignored; the stream's end reaps the entry.
  A stream that could not be opened leaves everything as it was.
\<close>

fun feed_loop ::
  "('z sys_scheme \<Rightarrow> 'z sys_scheme) \<Rightarrow> session_id \<Rightarrow> page_id \<Rightarrow> page_observation list \<Rightarrow>
   feeds \<times> 'z sys_scheme \<Rightarrow> feeds \<times> 'z sys_scheme" where
  "feed_loop dismiss session page [] fs = fs"
| "feed_loop dismiss session page (x # xs) fs =
     (case feed_turn session page x fs of (dialog, f, s) \<Rightarrow>
        feed_loop dismiss session page xs (f, if dialog then dismiss s else s))"

definition run_feed ::
  "('z sys_scheme \<Rightarrow> 'z sys_scheme) \<Rightarrow> session_id \<Rightarrow> page_id \<Rightarrow> nat \<Rightarrow>
   engine_error + page_observation list \<Rightarrow> feeds \<times> 'z sys_scheme \<Rightarrow> feeds \<times> 'z sys_scheme" where
  "run_feed dismiss session page token stream fs =
     (case stream of
        Inl e \<Rightarrow> fs
      | Inr xs \<Rightarrow> (case feed_loop dismiss session page xs fs of (f, s) \<Rightarrow> (feed_reap page token f, s)))"

section \<open>The buffers are bounded logs\<close>

lemma push_bounded_keep:
  "0 < n \<Longrightarrow> length xs \<le> n \<Longrightarrow> push_bounded n x xs = keep_last n (xs @ [x])"
  by (cases xs) (auto simp: push_bounded_def keep_last_def Suc_diff_le)

lemma capacities_pos [simp]: "0 < feed_capacity" "0 < request_capacity"
  by (simp_all add: feed_capacity_def request_capacity_def)

interpretation console_buffer: bounded_log "[]" "push_bounded feed_capacity" id feed_capacity
    "\<lambda>xs. length xs \<le> feed_capacity"
  by unfold_locales (simp_all add: push_bounded_keep keep_last_length)

interpretation request_buffer: bounded_log "[]" "push_bounded request_capacity" id request_capacity
    "\<lambda>xs. length xs \<le> request_capacity"
  by unfold_locales (simp_all add: push_bounded_keep keep_last_length)

section \<open>Steps and their specification\<close>

datatype feed_op =
    FeedSpawn page_id
  | FeedRecord page_id console_entry
  | FeedRequest page_id request_entry
  | FeedRemove page_id
  | FeedReap page_id nat
  | FeedClear

fun feed_step :: "feed_op \<Rightarrow> feeds \<Rightarrow> feeds" where
  "feed_step (FeedSpawn page) f = snd (feed_spawn page f)"
| "feed_step (FeedRecord page e) f = feed_record page e f"
| "feed_step (FeedRequest page e) f = feed_record_request page e f"
| "feed_step (FeedRemove page) f = feed_remove page f"
| "feed_step (FeedReap page token) f = feed_reap page token f"
| "feed_step FeedClear f = feed_clear f"

text \<open>The specification keeps everything ever recorded for a page since its feed started.\<close>

fun full_step :: "feed_op \<Rightarrow> feeds \<Rightarrow> feeds" where
  "full_step (FeedRecord page e) f =
     f\<lparr>ff_feeds := (ff_feeds f)(page :=
         map_option (\<lambda>d. d\<lparr>fd_entries := fd_entries d @ [e]\<rparr>) (ff_feeds f page))\<rparr>"
| "full_step (FeedRequest page e) f =
     f\<lparr>ff_feeds := (ff_feeds f)(page :=
         map_option (\<lambda>d. d\<lparr>fd_requests := fd_requests d @ [e]\<rparr>) (ff_feeds f page))\<rparr>"
| "full_step x f = feed_step x f"

definition trim_feed :: "feed \<Rightarrow> feed" where
  "trim_feed d = d\<lparr>fd_entries := keep_last feed_capacity (fd_entries d),
     fd_requests := keep_last request_capacity (fd_requests d)\<rparr>"

definition trim_feeds :: "feeds \<Rightarrow> feeds" where
  "trim_feeds f = f\<lparr>ff_feeds := (\<lambda>page. map_option trim_feed (ff_feeds f page))\<rparr>"

lemma trim_feed_fields [simp]:
  "fd_entries (trim_feed d) = keep_last feed_capacity (fd_entries d)"
  "fd_requests (trim_feed d) = keep_last request_capacity (fd_requests d)"
  "fd_token (trim_feed d) = fd_token d"
  by (simp_all add: trim_feed_def)

lemma trim_feeds_fields [simp]:
  "ff_feeds (trim_feeds f) page = map_option trim_feed (ff_feeds f page)"
  "ff_next_token (trim_feeds f) = ff_next_token f"
  "ff_aborted (trim_feeds f) = ff_aborted f"
  by (simp_all add: trim_feeds_def)

lemma push_bounded_keep_last:
  "0 < n \<Longrightarrow> push_bounded n x (keep_last n xs) = keep_last n (xs @ [x])"
  by (simp add: push_bounded_keep keep_last_length keep_last_push)

lemma held_by_trim [simp]: "held_by (trim_feeds f) = held_by f"
proof -
  have "(map_option fd_token \<circ> map_option trim_feed) d = map_option fd_token d" for d
    by (cases d) simp_all
  then have "map_option fd_token ` range (ff_feeds (trim_feeds f)) = map_option fd_token ` range (ff_feeds f)"
    by (auto simp: image_iff)
  then show ?thesis
    by (simp add: held_by_def fun_eq_iff)
qed

lemma trim_step: "trim_feeds (full_step x f) = feed_step x (trim_feeds f)"
proof (cases x)
  case (FeedSpawn page)
  then show ?thesis
    by (auto simp: feed_spawn_def trim_feeds_def trim_feed_def keep_last_def fun_eq_iff split: option.split)
next
  case (FeedRecord page e)
  then show ?thesis
    by (cases "ff_feeds f page")
      (auto simp: feed_record_def trim_feeds_def trim_feed_def push_bounded_keep_last fun_eq_iff)
next
  case (FeedRequest page e)
  then show ?thesis
    by (cases "ff_feeds f page")
      (auto simp: feed_record_request_def trim_feeds_def trim_feed_def push_bounded_keep_last fun_eq_iff)
next
  case (FeedRemove page)
  then show ?thesis
    by (cases "ff_feeds f page") (auto simp: feed_remove_def trim_feeds_def trim_feed_def fun_eq_iff)
next
  case (FeedReap page token)
  then show ?thesis
    by (cases "ff_feeds f page") (auto simp: feed_reap_def trim_feeds_def trim_feed_def fun_eq_iff)
next
  case FeedClear
  have "held_by (f\<lparr>ff_feeds := \<lambda>page. map_option trim_feed (ff_feeds f page)\<rparr>) = held_by f"
    using held_by_trim [of f] by (simp add: trim_feeds_def)
  then show ?thesis
    using FeedClear by (simp add: feed_clear_def trim_feeds_def)
qed

lemma trim_run: "trim_feeds (run_ops full_step xs f) = run_ops feed_step xs (trim_feeds f)"
  by (induction xs arbitrary: f) (simp_all add: trim_step)

section \<open>Properties\<close>

text \<open>
  C17. Whatever the tasks, the session and the engine interleave, the console and the
  requests a page shows are the newest 200 and the newest 100 of everything recorded for it
  since its feed started: the bounded buffers refine the unbounded record, and they start
  and end with the same tasks.
\<close>

theorem feeds_refine_full_record:
  "feed_entries page (run_ops feed_step xs feeds_default)
     = keep_last 200 (feed_entries page (run_ops full_step xs feeds_default)) \<and>
   feed_requests page (run_ops feed_step xs feeds_default)
     = keep_last 100 (feed_requests page (run_ops full_step xs feeds_default)) \<and>
   map_option fd_token (ff_feeds (run_ops feed_step xs feeds_default) page)
     = map_option fd_token (ff_feeds (run_ops full_step xs feeds_default) page)"
proof -
  have "run_ops feed_step xs feeds_default = trim_feeds (run_ops full_step xs feeds_default)"
    using trim_run [of xs feeds_default] by (simp add: feeds_default_def trim_feeds_def)
  then show ?thesis
    by (cases "ff_feeds (run_ops full_step xs feeds_default) page")
      (simp_all add: feed_entries_def feed_requests_def keep_last_def feed_capacity_def request_capacity_def)
qed

end
