(* ===== verification/Session_Approval.thy ===== *)
theory Session_Approval
  imports Session_Pages Session_Actions Session_Storage Session_Feeds Policy_Broker
begin

text \<open>
  The shared state of one session and its supervision: the audit trail
  (\<open>crates/session/src/audit.rs\<close>) and the review, the parked approval and its ticket
  (\<open>enforce\<close>, \<open>park\<close>, \<open>ParkTicket\<close> of \<open>crates/session/src/session/mod.rs\<close>).

  A \<open>hub\<close> is everything tasks share: clock and backbone, page registry, context, broker,
  feeds, persistence bookkeeping and the files of the state directory. While a call of the
  record \<open>env\<close> is awaited, any part of it may change.
\<close>

section \<open>The shared state and its surroundings\<close>

record ('h, 'c, 'ch) hub = sys +
  hb_pages :: "'h registry"
  hb_context :: 'c
  hb_broker :: "'ch broker"
  hb_feeds :: feeds
  hb_persist :: persist_state
  hb_files :: files
  hb_attempts :: nat

record ('h, 'c, 'ch, 'u, 's) env =
  en_page :: "('h, 's) page_api"
  en_context :: "('c, 'h, 's) context_api"
  en_texts :: texts
  en_urls :: "'u url_api"
  en_oneshot :: "'ch oneshot_api"
  en_await :: "nat \<Rightarrow> duration \<Rightarrow> 's \<Rightarrow> 's"
  en_encode :: "json \<Rightarrow> string"
  en_print_map :: "(string \<rightharpoonup> string) \<Rightarrow> string option"
  en_pid :: nat
  en_write_faults :: "'s \<Rightarrow> write_faults"
  en_audit_fault :: "'s \<Rightarrow> bool"
  en_read_fault :: "'s \<Rightarrow> bool"

record session =
  se_id :: session_id
  se_config :: session_config
  se_policy :: rule_set
  se_state_path :: "file_path option"

definition on_broker ::
  "('ch broker \<Rightarrow> 'ch broker) \<Rightarrow> ('h, 'c, 'ch, 'z) hub_scheme \<Rightarrow> ('h, 'c, 'ch, 'z) hub_scheme" where
  "on_broker f s = s\<lparr>hb_broker := f (hb_broker s)\<rparr>"

definition on_pages ::
  "('h registry \<Rightarrow> 'h registry) \<Rightarrow> ('h, 'c, 'ch, 'z) hub_scheme \<Rightarrow> ('h, 'c, 'ch, 'z) hub_scheme" where
  "on_pages f s = s\<lparr>hb_pages := f (hb_pages s)\<rparr>"

lemma hub_simps [simp]:
  "sy_now (on_broker f s) = sy_now s" "sy_wall (on_broker f s) = sy_wall s"
  "sy_backbone (on_broker f s) = sy_backbone s" "hb_files (on_broker f s) = hb_files s"
  "hb_broker (on_broker f s) = f (hb_broker s)" "hb_pages (on_broker f s) = hb_pages s"
  "sy_backbone (on_pages g s) = sy_backbone s" "hb_pages (on_pages g s) = g (hb_pages s)"
  "hb_files (on_pages g s) = hb_files s" "hb_broker (on_pages g s) = hb_broker s"
  "hb_broker (emit i e s) = hb_broker s" "hb_pages (emit i e s) = hb_pages s"
  "hb_files (emit i e s) = hb_files s"
  by (simp_all add: on_broker_def on_pages_def emit_def)

section \<open>The audit trail\<close>

definition outcome_granted :: string where "outcome_granted = ''granted''"
definition outcome_denied :: string where "outcome_denied = ''denied''"
definition outcome_timed_out :: string where "outcome_timed_out = ''timed_out''"
definition outcome_cancelled :: string where "outcome_cancelled = ''cancelled''"

record audit_entry =
  ae_at :: string
  ae_session :: string
  ae_page :: string
  ae_request_id :: string
  ae_outcome :: string
  ae_waited_ms :: nat
  ae_class :: string
  ae_judged_url :: "string option"
  ae_basis :: string
  ae_effect :: string

definition audit_value :: "audit_entry \<Rightarrow> json" where
  "audit_value e = JObj
     [(''at'', JStr (ae_at e)), (''session'', JStr (ae_session e)), (''page'', JStr (ae_page e)),
      (''request_id'', JStr (ae_request_id e)), (''outcome'', JStr (ae_outcome e)),
      (''waited_ms'', JInt (int (ae_waited_ms e))), (''class'', JStr (ae_class e)),
      (''judged_url'', option_value JStr (ae_judged_url e)), (''basis'', JStr (ae_basis e)),
      (''effect'', JStr (ae_effect e))]"

text \<open>The derived \<open>Debug\<close> of an action, which the trail uses as its description.\<close>

fun debug_list :: "string list \<Rightarrow> string" where
  "debug_list [] = ''''"
| "debug_list [x] = debug_str x"
| "debug_list (x # xs) = debug_str x @ '', '' @ debug_list xs"

definition debug_reference :: "reference \<Rightarrow> string" where
  "debug_reference r = ''Reference('' @ debug_str (ref_str r) @ '')''"

fun debug_direction :: "scroll_direction \<Rightarrow> string" where
  "debug_direction ScrollUp = ''Up''"
| "debug_direction ScrollDown = ''Down''"
| "debug_direction ScrollLeft = ''Left''"
| "debug_direction ScrollRight = ''Right''"

fun debug_action :: "action \<Rightarrow> string" where
  "debug_action (Navigate url) = ''Navigate { url: '' @ debug_str url @ '' }''"
| "debug_action Back = ''Back''"
| "debug_action Forward = ''Forward''"
| "debug_action Reload = ''Reload''"
| "debug_action (Click r) = ''Click { reference: '' @ debug_reference r @ '' }''"
| "debug_action (Hover r) = ''Hover { reference: '' @ debug_reference r @ '' }''"
| "debug_action (Type r typed) =
     ''Type { reference: '' @ debug_reference r @ '', text: '' @ debug_str typed @ '' }''"
| "debug_action (PressKey key) = ''PressKey { key: '' @ debug_str key @ '' }''"
| "debug_action (SelectOption r vals) =
     ''SelectOption { reference: '' @ debug_reference r @ '', values: ['' @ debug_list vals @ ''] }''"
| "debug_action (Scroll r direction amount) =
     ''Scroll { reference: '' @
     (case r of None \<Rightarrow> ''None'' | Some r' \<Rightarrow> ''Some('' @ debug_reference r' @ '')'') @
     '', direction: '' @ debug_direction direction @ '', amount: '' @ show_nat amount @ '' }''"
| "debug_action (SetInputFiles r paths) =
     ''SetInputFiles { reference: '' @ debug_reference r @ '', paths: ['' @ debug_list paths @ ''] }''"

definition effect_summary :: "approval_brief \<Rightarrow> string" where
  "effect_summary brief =
     (case ab_effect brief of
        EffectAction a \<Rightarrow> debug_action a
      | EffectCookies count \<Rightarrow> show_nat count @ '' cookie write(s)'')"

fun basis_text :: "verdict_basis \<Rightarrow> string" where
  "basis_text (BasisRule index url_pattern) =
     (case url_pattern of
        Some p \<Rightarrow> ''rule '' @ show_nat index @ '' ('' @ p @ '')''
      | None \<Rightarrow> ''rule '' @ show_nat index)"
| "basis_text SetDefault = ''set_default''"
| "basis_text MissingUrl = ''missing_url''"

text \<open>\<open>beside_storage\<close>: the sibling of the storage file.\<close>

definition audit_path :: "session \<Rightarrow> file_path option" where
  "audit_path se = map_option (\<lambda>path. (fst path, ''approvals.jsonl'')) (se_state_path se)"

text \<open>One write per record: the whole line or, on a failure, nothing.\<close>

definition append_line :: "file_path \<Rightarrow> string \<Rightarrow> files \<Rightarrow> files" where
  "append_line path line fs = fs(path \<mapsto> unwrap_or (fs path) [] @ line @ [newline])"

definition audit_entry_of ::
  "session \<Rightarrow> page_id \<Rightarrow> string \<Rightarrow> approval_brief \<Rightarrow> string \<Rightarrow> duration \<Rightarrow> string \<Rightarrow> audit_entry" where
  "audit_entry_of se page_id request brief outcome waited now =
     \<lparr>ae_at = now, ae_session = session_str (se_id se), ae_page = page_str page_id,
      ae_request_id = request, ae_outcome = outcome, ae_waited_ms = waited div from_millis 1,
      ae_class = class_name (ab_class brief), ae_judged_url = ab_judged_url brief,
      ae_basis = basis_text (ab_basis brief), ae_effect = effect_summary brief\<rparr>"

definition audit_record ::
  "('h, 'c, 'ch, 'u, ('h, 'c, 'ch, 'z) hub_scheme) env \<Rightarrow> session \<Rightarrow> page_id \<Rightarrow> string \<Rightarrow> approval_brief \<Rightarrow>
   string \<Rightarrow> duration \<Rightarrow> ('h, 'c, 'ch, 'z) hub_scheme \<Rightarrow> ('h, 'c, 'ch, 'z) hub_scheme" where
  "audit_record env se page_id request brief outcome waited s =
     (case audit_path se of
        None \<Rightarrow> s
      | Some path \<Rightarrow>
          (if en_audit_fault env s then s
           else s\<lparr>hb_files := append_line path
                  (en_encode env (audit_value
                     (audit_entry_of se page_id request brief outcome waited (sy_wall s))))
                  (hb_files s)\<rparr>))"

section \<open>The ticket of a parked approval\<close>

record ticket =
  tk_request :: approval_id
  tk_page :: page_id
  tk_brief :: approval_brief
  tk_started :: instant
  tk_outcome :: "approval_outcome option"

fun ticket_label :: "approval_outcome option \<Rightarrow> string" where
  "ticket_label (Some Granted) = outcome_granted"
| "ticket_label (Some OutcomeDenied) = outcome_denied"
| "ticket_label (Some OutcomeTimedOut) = outcome_timed_out"
| "ticket_label None = outcome_cancelled"

text \<open>The drop of the ticket: the resolution is published, then the audit line written.\<close>

definition ticket_drop ::
  "('h, 'c, 'ch, 'u, ('h, 'c, 'ch, 'z) hub_scheme) env \<Rightarrow> session \<Rightarrow> ticket \<Rightarrow>
   ('h, 'c, 'ch, 'z) hub_scheme \<Rightarrow> ('h, 'c, 'ch, 'z) hub_scheme" where
  "ticket_drop env se t s =
     (let s1 = emit (se_id se)
            (ApprovalResolved (approval_str (tk_request t)) (tk_outcome t = Some Granted)) s
      in audit_record env se (tk_page t) (approval_str (tk_request t)) (tk_brief t)
           (ticket_label (tk_outcome t)) (sy_now s1 - tk_started t) s1)"

section \<open>Parking\<close>

datatype park_verdict =
    Proceed
  | PageMoved "string option"

fun action_reference :: "action \<Rightarrow> reference" where
  "action_reference (Click r) = r"
| "action_reference (Hover r) = r"
| "action_reference (Type r typed) = r"
| "action_reference (SelectOption r vals) = r"
| "action_reference (SetInputFiles r paths) = r"
| "action_reference (Scroll (Some r) direction amount) = r"
| "action_reference _ = Reference []"

definition approval_denied :: "approval_effect \<Rightarrow> session_error" where
  "approval_denied effect =
     SeAction (ApprovalDenied
       (case effect of EffectAction a \<Rightarrow> action_reference a | EffectCookies n \<Rightarrow> Reference []))"

text \<open>The question: the broker parks it, the ticket starts, the request is published.\<close>

definition ask ::
  "('h, 'c, 'ch, 'u, ('h, 'c, 'ch, 'z) hub_scheme) env \<Rightarrow> session \<Rightarrow> approval_brief \<Rightarrow> page_id \<Rightarrow>
   ('h, 'c, 'ch, 'z) hub_scheme \<Rightarrow> ticket \<times> nat \<times> ('h, 'c, 'ch, 'z) hub_scheme" where
  "ask env se brief page_id s =
     (case broker_open (en_oneshot env) (hb_broker s) of
        ((i, h), b) \<Rightarrow>
          (\<lparr>tk_request = i, tk_page = page_id, tk_brief = brief, tk_started = sy_now s, tk_outcome = None\<rparr>,
           h,
           emit (se_id se) (ApprovalRequested (approval_str i) page_id brief)
             (s\<lparr>hb_broker := b\<rparr>)))"

text \<open>
  The wait: while it is awaited other tasks run (\<open>en_await\<close>), then the last poll of the
  receiver finds a decision, a sender that is gone or the deadline, and the receiver is
  dropped.
\<close>

definition broker_wait ::
  "('h, 'c, 'ch, 'u, ('h, 'c, 'ch, 'z) hub_scheme) env \<Rightarrow> nat \<Rightarrow> duration \<Rightarrow> ('h, 'c, 'ch, 'z) hub_scheme \<Rightarrow>
   approval_outcome option \<times> ('h, 'c, 'ch, 'z) hub_scheme" where
  "broker_wait env h window s =
     (let s1 = on_broker (wait_observe (en_oneshot env) h True) (en_await env h window s)
      in (Option.bind (bk_channels (hb_broker s1) h) wt_outcome,
          on_broker (wait_reclaim (en_oneshot env) h) s1))"

definition park ::
  "('h, 'c, 'ch, 'u, ('h, 'c, 'ch, 'z) hub_scheme) env \<Rightarrow> session \<Rightarrow> approval_brief \<Rightarrow> approval_effect \<Rightarrow>
   'h \<Rightarrow> page_id \<Rightarrow> ('h, 'c, 'ch, 'z) hub_scheme \<Rightarrow>
   (session_error + park_verdict) \<times> ('h, 'c, 'ch, 'z) hub_scheme" where
  "park env se brief effect page page_id s =
     (case ask env se brief page_id s of (t, h, s1) \<Rightarrow>
        (case broker_wait env h (rs_approval_timeout (se_policy se)) s1 of (outcome, s2) \<Rightarrow>
           (let t' = t\<lparr>tk_outcome := outcome\<rparr> in
            case outcome of
              Some Granted \<Rightarrow>
                (if target_url effect \<noteq> None then (Inr Proceed, ticket_drop env se t' s2)
                 else
                   (case page_url (en_page env) page s2 of (current, s3) \<Rightarrow>
                      (Inr (if judged_at (en_urls env) brief current then Proceed else PageMoved current),
                       ticket_drop env se t' s3)))
            | Some OutcomeDenied \<Rightarrow> (Inl (approval_denied effect), ticket_drop env se t' s2)
            | _ \<Rightarrow> (Inl (SeAction (ApprovalTimedOut (rs_approval_timeout (se_policy se)))),
                    ticket_drop env se t' s2))))"

text \<open>
  The same future dropped while it waits, in a state \<open>s1\<close> other tasks have reached: the
  broker's guard reclaims the slot, then the ticket drops with no answer.
\<close>

definition park_cancelled ::
  "('h, 'c, 'ch, 'u, ('h, 'c, 'ch, 'z) hub_scheme) env \<Rightarrow> session \<Rightarrow> ticket \<Rightarrow> nat \<Rightarrow>
   ('h, 'c, 'ch, 'z) hub_scheme \<Rightarrow> ('h, 'c, 'ch, 'z) hub_scheme" where
  "park_cancelled env se t h s1 =
     ticket_drop env se t (on_broker (wait_reclaim (en_oneshot env) h) s1)"

text \<open>
  The future dropped one await later, while a granted request re-reads the page: the ticket has
  been settled by then, and drops with the human's grant although nothing goes ahead.
\<close>

definition park_abandoned ::
  "('h, 'c, 'ch, 'u, ('h, 'c, 'ch, 'z) hub_scheme) env \<Rightarrow> session \<Rightarrow> ticket \<Rightarrow>
   ('h, 'c, 'ch, 'z) hub_scheme \<Rightarrow> ('h, 'c, 'ch, 'z) hub_scheme" where
  "park_abandoned env se t s3 = ticket_drop env se (t\<lparr>tk_outcome := Some Granted\<rparr>) s3"

text \<open>
  The loop ends when a review allows or denies, or when a parked request ends in anything
  but a grant for a page that has moved; a human who keeps granting while the page keeps
  moving keeps it going.
\<close>

partial_function (option) enforce ::
  "('h, 'c, 'ch, 'u, ('h, 'c, 'ch, 'z) hub_scheme) env \<Rightarrow> session \<Rightarrow> approval_effect \<Rightarrow> 'h \<Rightarrow> page_id \<Rightarrow>
   string option \<Rightarrow> ('h, 'c, 'ch, 'z) hub_scheme \<Rightarrow>
   ((session_error + unit) \<times> ('h, 'c, 'ch, 'z) hub_scheme) option" where
  "enforce env se effect page page_id raw_url s =
     (case review (en_urls env) (se_policy se) effect raw_url of
        Allowed \<Rightarrow> Some (Inr (), s)
      | Denied \<Rightarrow> Some (Inl (approval_denied effect), s)
      | NeedsApproval brief \<Rightarrow>
          (case park env se brief effect page page_id s of (verdict, s1) \<Rightarrow>
             (case verdict of
                Inl e \<Rightarrow> Some (Inl e, s1)
              | Inr next_step \<Rightarrow>
                  (case next_step of
                     Proceed \<Rightarrow> Some (Inr (), s1)
                   | PageMoved current \<Rightarrow> enforce env se effect page page_id current s1))))"

section \<open>What a pass of the gate means\<close>

text \<open>
  A grant for a brief in one run of the gate: from \<open>s\<close> it asked with this very brief, which
  made the ticket \<open>t\<close>; when the wait for that request was over the request's own channel held
  the human's \<^const>\<open>Grant\<close>; and \<open>s2\<close> is the state the wait left.
\<close>

definition granted_brief ::
  "('h, 'c, 'ch, 'u, ('h, 'c, 'ch, 'z) hub_scheme) env \<Rightarrow> session \<Rightarrow> approval_brief \<Rightarrow> page_id \<Rightarrow>
   ('h, 'c, 'ch, 'z) hub_scheme \<Rightarrow> ticket \<Rightarrow> ('h, 'c, 'ch, 'z) hub_scheme \<Rightarrow> bool" where
  "granted_brief env se brief page_id s t s2 \<longleftrightarrow>
     (\<exists>h s1 w.
        ask env se brief page_id s = (t, h, s1) \<and>
        bk_channels (hb_broker (en_await env h (rs_approval_timeout (se_policy se)) s1)) h = Some w \<and>
        (oc_poll (en_oneshot env) (wt_channel w) = Some Grant \<or> wt_outcome w = Some Granted) \<and>
        s2 = snd (broker_wait env h (rs_approval_timeout (se_policy se)) s1))"

text \<open>The ticket of a granted request, dropped: the resolution and its line of the trail.\<close>

definition settled_grant ::
  "('h, 'c, 'ch, 'u, ('h, 'c, 'ch, 'z) hub_scheme) env \<Rightarrow> session \<Rightarrow> ticket \<Rightarrow>
   ('h, 'c, 'ch, 'z) hub_scheme \<Rightarrow> ('h, 'c, 'ch, 'z) hub_scheme" where
  "settled_grant env se t s = ticket_drop env se (t\<lparr>tk_outcome := Some Granted\<rparr>) s"

lemma broker_wait_granted:
  assumes "ask env se brief page_id s = (t, h, s1)"
    and "broker_wait env h (rs_approval_timeout (se_policy se)) s1 = (Some Granted, s2)"
  shows "granted_brief env se brief page_id s t s2"
proof -
  let ?b = "hb_broker (en_await env h (rs_approval_timeout (se_policy se)) s1)"
  from assms(2) obtain w where w: "bk_channels (wait_observe (en_oneshot env) h True ?b) h = Some w"
    "wt_outcome w = Some Granted"
    by (auto simp: broker_wait_def Let_def split: Option.bind_splits)
  have "\<exists>w. bk_channels ?b h = Some w \<and>
      (oc_poll (en_oneshot env) (wt_channel w) = Some Grant \<or> wt_outcome w = Some Granted)"
    using w by (cases rule: wait_observe_cases [where oc = "en_oneshot env" and h = h and t = True and b = ?b])
      (auto simp: wait_outcome_def split: option.splits decision.splits if_splits)
  moreover have "s2 = snd (broker_wait env h (rs_approval_timeout (se_policy se)) s1)"
    by (simp add: assms(2))
  ultimately show ?thesis
    using assms(1) unfolding granted_brief_def by blast
qed

text \<open>
  A park that does not fail, in the states of its own run: granted, and then either the effect
  carries its own target, or the page is read once more, after the wait, and that answer decides.
\<close>

lemma park_cases:
  assumes "park env se brief effect page page_id s = (Inr v, s')"
  obtains (target) t s2 where "granted_brief env se brief page_id s t s2" "target_url effect \<noteq> None"
      "v = Proceed" "s' = settled_grant env se t s2"
  | (still) t s2 current s3 where "granted_brief env se brief page_id s t s2" "target_url effect = None"
      "page_url (en_page env) page s2 = (current, s3)" "judged_at (en_urls env) brief current"
      "v = Proceed" "s' = settled_grant env se t s3"
  | (moved) t s2 current s3 where "granted_brief env se brief page_id s t s2" "target_url effect = None"
      "page_url (en_page env) page s2 = (current, s3)" "\<not> judged_at (en_urls env) brief current"
      "v = PageMoved current" "s' = settled_grant env se t s3"
proof -
  obtain t h s1 where ask: "ask env se brief page_id s = (t, h, s1)"
    by (cases "ask env se brief page_id s") auto
  obtain outcome s2 where wait: "broker_wait env h (rs_approval_timeout (se_policy se)) s1 = (outcome, s2)"
    by fastforce
  obtain current s3 where url: "page_url (en_page env) page s2 = (current, s3)"
    by fastforce
  have granted: "outcome = Some Granted"
    using assms ask wait
    by (auto simp: park_def Let_def split: option.splits approval_outcome.splits)
  then have g: "granted_brief env se brief page_id s t s2"
    using broker_wait_granted [OF ask] wait by simp
  show ?thesis
  proof (cases "target_url effect = None")
    case True
    then show ?thesis
      using assms granted ask wait url still [OF g True url] moved [OF g True url]
      by (auto simp: park_def Let_def settled_grant_def split: if_splits)
  next
    case False
    then show ?thesis
      using assms granted ask wait target [OF g False]
      by (auto simp: park_def Let_def settled_grant_def split: if_splits)
  qed
qed

text \<open>
  The points a run of the gate reaches: the URL and the state it was called with, and, after
  every grant for a page that had moved by the end of the wait, the URL the page answered then
  with that request settled.
\<close>

inductive gate_at ::
  "('h, 'c, 'ch, 'u, ('h, 'c, 'ch, 'z) hub_scheme) env \<Rightarrow> session \<Rightarrow> approval_effect \<Rightarrow> 'h \<Rightarrow> page_id \<Rightarrow>
   string option \<Rightarrow> ('h, 'c, 'ch, 'z) hub_scheme \<Rightarrow> string option \<Rightarrow> ('h, 'c, 'ch, 'z) hub_scheme \<Rightarrow> bool"
  for env se effect page page_id
where
  gate_start: "gate_at env se effect page page_id raw_url s raw_url s"
| gate_moved: "\<lbrakk>review (en_urls env) (se_policy se) effect raw_url = NeedsApproval brief;
     target_url effect = None;
     granted_brief env se brief page_id s t s2;
     page_url (en_page env) page s2 = (current, s3);
     \<not> judged_at (en_urls env) brief current;
     gate_at env se effect page page_id current (settled_grant env se t s3) u s'\<rbrakk>
   \<Longrightarrow> gate_at env se effect page page_id raw_url s u s'"

text \<open>
  A pass from \<open>s\<close> to \<open>s'\<close>: at the last point reached the review allowed the effect, and
  nothing happened; or it asked about exactly this effect at that URL, the answer of this very
  wait was a grant, and the effect carries its own target or the page, read after the wait,
  still canonicalizes to the URL of the brief.
\<close>

definition cleared ::
  "('h, 'c, 'ch, 'u, ('h, 'c, 'ch, 'z) hub_scheme) env \<Rightarrow> session \<Rightarrow> approval_effect \<Rightarrow> 'h \<Rightarrow> page_id \<Rightarrow>
   string option \<Rightarrow> ('h, 'c, 'ch, 'z) hub_scheme \<Rightarrow> ('h, 'c, 'ch, 'z) hub_scheme \<Rightarrow> bool" where
  "cleared env se effect page page_id raw_url s s' \<longleftrightarrow>
     (\<exists>u t. gate_at env se effect page page_id raw_url s u t \<and>
        (review (en_urls env) (se_policy se) effect u = Allowed \<and> s' = t \<or>
         (\<exists>brief tk s2.
            review (en_urls env) (se_policy se) effect u = NeedsApproval brief \<and>
            ab_effect brief = effect \<and>
            ab_judged_url brief = Option.bind (opt_or (target_url effect) u) (canonical_url (en_urls env)) \<and>
            granted_brief env se brief page_id t tk s2 \<and>
            (target_url effect \<noteq> None \<and> s' = settled_grant env se tk s2 \<or>
             (\<exists>current s3. page_url (en_page env) page s2 = (current, s3) \<and>
                judged_at (en_urls env) brief current \<and> s' = settled_grant env se tk s3)))))"

lemma cleared_moved:
  assumes "cleared env se effect page page_id current (settled_grant env se t s3) s'"
    and "review (en_urls env) (se_policy se) effect raw_url = NeedsApproval brief"
    and "target_url effect = None" "granted_brief env se brief page_id s t s2"
    and "page_url (en_page env) page s2 = (current, s3)" "\<not> judged_at (en_urls env) brief current"
  shows "cleared env se effect page page_id raw_url s s'"
  using assms(1) gate_moved [OF assms(2-6)] unfolding cleared_def by (elim exE conjE) blast

lemma cleared_here:
  assumes "review (en_urls env) (se_policy se) effect raw_url = NeedsApproval brief"
    and "park env se brief effect page page_id s = (Inr Proceed, s')"
  shows "cleared env se effect page page_id raw_url s s'"
proof -
  note brief = review_brief [OF assms(1), unfolded judgment_url_def]
  show ?thesis
    using assms(2)
    by (cases rule: park_cases)
       (use gate_start [of env se effect page page_id raw_url s] assms(1) brief in
         \<open>(simp; fail) | (simp add: cleared_def, blast)\<close>)+
qed

lemma enforce_cleared:
  assumes "enforce env se effect page page_id raw_url s = Some rs"
  shows "fst rs = Inr () \<longrightarrow> cleared env se effect page page_id raw_url s (snd rs)"
proof (rule enforce.raw_induct [OF _ assms, where P = "\<lambda>env se effect page page_id raw_url s rs.
       fst rs = Inr () \<longrightarrow> cleared env se effect page page_id raw_url s (snd rs)"], goal_cases)
  case (1 gate env se effect page page_id raw_url s rs)
  show ?case
  proof (cases "review (en_urls env) (se_policy se) effect raw_url")
    case Allowed
    then have "rs = (Inr (), s)" using 1(2) by simp
    then show ?thesis using Allowed gate_start unfolding cleared_def by fastforce
  next
    case Denied
    then show ?thesis using 1(2) by auto
  next
    case (NeedsApproval brief)
    obtain verdict s1 where park: "park env se brief effect page page_id s = (verdict, s1)"
      by fastforce
    show ?thesis
    proof (cases verdict)
      case (Inl e)
      then show ?thesis using 1(2) NeedsApproval park by auto
    next
      case (Inr v)
      note parked = park [unfolded Inr]
      show ?thesis
      proof (cases v)
        case Proceed
        then have "rs = (Inr (), s1)" using 1(2) NeedsApproval park Inr by simp
        then show ?thesis
          using cleared_here [OF NeedsApproval] parked Proceed by simp
      next
        case (PageMoved current)
        have "gate env se effect page page_id current s1 = Some rs"
          using 1(2) NeedsApproval park Inr PageMoved by simp
        from 1(1) [OF this] show ?thesis
          using parked PageMoved cleared_moved [OF _ NeedsApproval]
          by (elim park_cases) auto
      qed
    qed
  qed
qed

section \<open>What a park leaves\<close>

text \<open>The drop of a ticket: one event after everything published so far, one line after the trail.\<close>

lemma ticket_drop_sent:
  "bb_sent (sy_backbone (ticket_drop env se t s)) =
     bb_sent (sy_backbone s) @
     [\<lparr>env_seq = bb_next_seq (sy_backbone s), env_recorded_at = sy_wall s, env_session = se_id se,
       env_event = ApprovalResolved (approval_str (tk_request t)) (tk_outcome t = Some Granted)\<rparr>]"
  by (simp add: ticket_drop_def audit_record_def Let_def emit_def publish_def history_record_def
      bus_publish_def split: option.split)

lemma ticket_drop_audit:
  assumes "audit_path se = Some path" and "\<And>s. \<not> en_audit_fault env s"
  shows "hb_files (ticket_drop env se t s) =
     append_line path
       (en_encode env (audit_value (audit_entry_of se (tk_page t) (approval_str (tk_request t)) (tk_brief t)
          (ticket_label (tk_outcome t)) (sy_now s - tk_started t) (sy_wall s))))
       (hb_files s)"
  using assms by (simp add: ticket_drop_def audit_record_def Let_def)

lemma ask_sent:
  assumes "ask env se brief page_id s = (t, h, s1)"
  shows "bb_sent (sy_backbone s1) =
     bb_sent (sy_backbone s) @
     [\<lparr>env_seq = bb_next_seq (sy_backbone s), env_recorded_at = sy_wall s, env_session = se_id se,
       env_event = ApprovalRequested (approval_str (tk_request t)) page_id brief\<rparr>] \<and>
     tk_page t = page_id \<and> tk_brief t = brief \<and> tk_started t = sy_now s \<and> tk_outcome t = None"
  using assms by (auto simp: ask_def broker_open_def Let_def emit_def publish_def history_record_def
      bus_publish_def)

lemma audit_entry_of_fields [simp]:
  "ae_request_id (audit_entry_of se p request brief label waited now) = request"
  "ae_outcome (audit_entry_of se p request brief label waited now) = label"
  by (simp_all add: audit_entry_of_def)

text \<open>
  A request is settled between two states: the next event resolves it, the next line of the
  trail names it with the label.
\<close>

definition settles ::
  "('h, 'c, 'ch, 'u, ('h, 'c, 'ch, 'z) hub_scheme) env \<Rightarrow> session \<Rightarrow> file_path \<Rightarrow> approval_id \<Rightarrow> bool \<Rightarrow>
   string \<Rightarrow> ('h, 'c, 'ch, 'z) hub_scheme \<Rightarrow> ('h, 'c, 'ch, 'z) hub_scheme \<Rightarrow> bool" where
  "settles env se path request granted label mid s' \<longleftrightarrow>
     (\<exists>v entry.
        bb_sent (sy_backbone s') = bb_sent (sy_backbone mid) @ [v] \<and> env_session v = se_id se \<and>
        env_event v = ApprovalResolved (approval_str request) granted \<and>
        hb_files s' = append_line path (en_encode env (audit_value entry)) (hb_files mid) \<and>
        ae_request_id entry = approval_str request \<and> ae_outcome entry = label)"

lemma ticket_drop_settles:
  assumes "audit_path se = Some path" and "\<And>s. \<not> en_audit_fault env s"
  shows "settles env se path (tk_request t) (tk_outcome t = Some Granted) (ticket_label (tk_outcome t)) s
     (ticket_drop env se t s)"
  unfolding settles_def ticket_drop_sent ticket_drop_audit [of se path env, OF assms]
  by (rule exI [of _ "\<lparr>env_seq = bb_next_seq (sy_backbone s), env_recorded_at = sy_wall s, env_session = se_id se,
       env_event = ApprovalResolved (approval_str (tk_request t)) (tk_outcome t = Some Granted)\<rparr>"],
      rule exI [of _ "audit_entry_of se (tk_page t) (approval_str (tk_request t)) (tk_brief t)
        (ticket_label (tk_outcome t)) (sy_now s - tk_started t) (sy_wall s)"]) simp

text \<open>
  The state in which a park that ends with \<open>outcome\<close> drops its ticket: the one the wait left,
  or, for a grant whose effect has no target of its own, the one after the page was read again.
\<close>

definition drop_point ::
  "('h, 'c, 'ch, 'u, ('h, 'c, 'ch, 'z) hub_scheme) env \<Rightarrow> approval_effect \<Rightarrow> 'h \<Rightarrow>
   approval_outcome option \<Rightarrow> ('h, 'c, 'ch, 'z) hub_scheme \<Rightarrow> ('h, 'c, 'ch, 'z) hub_scheme" where
  "drop_point env effect page outcome s2 =
     (if outcome = Some Granted \<and> target_url effect = None
      then snd (page_url (en_page env) page s2) else s2)"

text \<open>Every way a park ends is one drop of its ticket, there, with the outcome of its own wait.\<close>

lemma park_drops:
  assumes "park env se brief effect page page_id s = (r, s')"
    and "ask env se brief page_id s = (t, h, s1)"
    and "broker_wait env h (rs_approval_timeout (se_policy se)) s1 = (outcome, s2)"
  shows "s' = ticket_drop env se (t\<lparr>tk_outcome := outcome\<rparr>) (drop_point env effect page outcome s2) \<and>
     ((\<exists>v. r = Inr v) \<longleftrightarrow> outcome = Some Granted)"
proof (cases "outcome = Some Granted")
  case True
  then show ?thesis
    using assms by (cases "page_url (en_page env) page s2")
      (auto simp: park_def Let_def drop_point_def split: if_splits)
next
  case False
  then show ?thesis
    using assms by (auto simp: park_def Let_def drop_point_def split: option.splits approval_outcome.splits)
qed

text \<open>A page that does not move, or an effect that carries its own target, is judged at one URL.\<close>

lemma park_settled:
  assumes "review (en_urls env) (se_policy se) effect raw_url = NeedsApproval brief"
    and "target_url effect \<noteq> None \<or> (\<forall>t. fst (page_url (en_page env) page t) = raw_url)"
    and "park env se brief effect page page_id s = (r, s')"
  shows "r \<noteq> Inr (PageMoved u)"
proof
  assume r: "r = Inr (PageMoved u)"
  obtain t h s1 where ask: "ask env se brief page_id s = (t, h, s1)"
    by (cases "ask env se brief page_id s") auto
  obtain outcome s2 where wait: "broker_wait env h (rs_approval_timeout (se_policy se)) s1 = (outcome, s2)"
    by fastforce
  obtain current s3 where url: "page_url (en_page env) page s2 = (current, s3)"
    by fastforce
  have "outcome = Some Granted" "target_url effect = None" "\<not> judged_at (en_urls env) brief current"
    using assms(3) r ask wait url
    by (auto simp: park_def Let_def split: option.splits approval_outcome.splits if_splits)
  moreover have "current = raw_url"
    using assms(2) url \<open>target_url effect = None\<close> by (metis fst_conv)
  ultimately show False
    using review_brief [OF assms(1)] by (simp add: judged_at_def judgment_url_def)
qed

section \<open>Properties\<close>

text \<open>
  C18. The approval gate lets an effect through only with authority, in the states of its own
  run. Starting from the given URL and state it reaches a point, moving on only after a grant
  for a page that had moved by the end of the wait, to the URL the page answered then. At that
  point the review allows the effect and nothing happens; or it asks, with a brief of exactly
  this effect at that URL's canonical form (or its target's), the decision on the channel of
  this run's own request is a grant, and either the effect carries its own target, or the page,
  read in the state the wait left and not before, still canonicalizes to the URL of the brief.
  The gate ends right there, with the drop of that one ticket.
\<close>

theorem gate_passes_only_with_authority:
  assumes "enforce env se effect page page_id raw_url s = Some (Inr (), s')"
  shows "\<exists>u t. gate_at env se effect page page_id raw_url s u t \<and>
     (review (en_urls env) (se_policy se) effect u = Allowed \<and> s' = t \<or>
      (\<exists>brief tk s2.
         review (en_urls env) (se_policy se) effect u = NeedsApproval brief \<and>
         ab_effect brief = effect \<and>
         ab_judged_url brief = Option.bind (opt_or (target_url effect) u) (canonical_url (en_urls env)) \<and>
         granted_brief env se brief page_id t tk s2 \<and>
         (target_url effect \<noteq> None \<and> s' = settled_grant env se tk s2 \<or>
          (\<exists>current s3. page_url (en_page env) page s2 = (current, s3) \<and>
             judged_at (en_urls env) brief current \<and> s' = settled_grant env se tk s3))))"
  using enforce_cleared [OF assms] by (simp add: cleared_def)

text \<open>
  C19. Every question put to a human is settled exactly once, on the backbone and in the
  trail. The request is published when it is asked. When the park is over, by whatever outcome
  its own wait had, exactly one event and one line of the trail were added after the last await
  (the wait, or the second look at the page): the resolution of that request, granted exactly
  when the outcome is a grant, which is exactly when the caller may proceed or look again, and
  a line with that outcome's label. A caller that goes away while it waits, or while the page is
  read again, settles it in the same way, as cancelled or as granted.
\<close>

theorem every_question_is_settled:
  fixes env :: "('h, 'c, 'ch, 'u, ('h, 'c, 'ch, 'z) hub_scheme) env"
  assumes "ask env se brief page_id s = (t, h, s1)"
    and "broker_wait env h (rs_approval_timeout (se_policy se)) s1 = (outcome, s2)"
    and "audit_path se = Some path" and "\<And>s. \<not> en_audit_fault env s"
  shows "(\<exists>v. bb_sent (sy_backbone s1) = bb_sent (sy_backbone s) @ [v] \<and>
       env_session v = se_id se \<and>
       env_event v = ApprovalRequested (approval_str (tk_request t)) page_id brief) \<and>
     (\<exists>r s'. park env se brief effect page page_id s = (r, s') \<and>
       settles env se path (tk_request t) (outcome = Some Granted) (ticket_label outcome)
         (drop_point env effect page outcome s2) s' \<and>
       ((\<exists>next_step. r = Inr next_step) \<longleftrightarrow> outcome = Some Granted)) \<and>
     (\<forall>s2. settles env se path (tk_request t) False outcome_cancelled
         (on_broker (wait_reclaim (en_oneshot env) h) s2) (park_cancelled env se t h s2)) \<and>
     (\<forall>s3. settles env se path (tk_request t) True outcome_granted s3 (park_abandoned env se t s3))"
proof (intro conjI allI)
  note asked = ask_sent [OF assms(1)] and settled = ticket_drop_settles [of se path env, OF assms(3,4)]
  show "\<exists>v. bb_sent (sy_backbone s1) = bb_sent (sy_backbone s) @ [v] \<and> env_session v = se_id se \<and>
       env_event v = ApprovalRequested (approval_str (tk_request t)) page_id brief"
    using asked by auto
  obtain r s' where park: "park env se brief effect page page_id s = (r, s')"
    by fastforce
  have "settles env se path (tk_request t) (outcome = Some Granted) (ticket_label outcome)
      (drop_point env effect page outcome s2) s'"
    using settled [of "t\<lparr>tk_outcome := outcome\<rparr>" "drop_point env effect page outcome s2"]
      park_drops [OF park assms(1,2)] by simp
  then show "\<exists>r s'. park env se brief effect page page_id s = (r, s') \<and>
       settles env se path (tk_request t) (outcome = Some Granted) (ticket_label outcome)
         (drop_point env effect page outcome s2) s' \<and>
       ((\<exists>next_step. r = Inr next_step) \<longleftrightarrow> outcome = Some Granted)"
    using park park_drops [OF park assms(1,2)] by blast
  show "settles env se path (tk_request t) False outcome_cancelled
      (on_broker (wait_reclaim (en_oneshot env) h) s2) (park_cancelled env se t h s2)" for s2
    using settled [of t "on_broker (wait_reclaim (en_oneshot env) h) s2"] asked
    by (simp add: park_cancelled_def)
  show "settles env se path (tk_request t) True outcome_granted s3 (park_abandoned env se t s3)" for s3
    using settled [of "t\<lparr>tk_outcome := Some Granted\<rparr>" s3] by (simp add: park_abandoned_def)
qed

text \<open>
  The gate always answers for a page that stands still, and for a navigation, which
  carries its own target: after at most one question.
\<close>

theorem gate_answers_for_a_still_page:
  assumes "target_url effect \<noteq> None \<or> (\<forall>t. fst (page_url (en_page env) page t) = raw_url)"
  shows "\<exists>r s'. enforce env se effect page page_id raw_url s = Some (r, s') \<and>
     (s' = s \<or> (\<exists>brief verdict. park env se brief effect page page_id s = (verdict, s') \<and>
        (r = Inr () \<longleftrightarrow> verdict = Inr Proceed)))"
proof (cases "review (en_urls env) (se_policy se) effect raw_url")
  case (NeedsApproval brief)
  obtain verdict s1 where park: "park env se brief effect page page_id s = (verdict, s1)"
    by fastforce
  show ?thesis
  proof (cases verdict)
    case (Inl e)
    then show ?thesis
      using NeedsApproval park by (subst enforce.simps) auto
  next
    case (Inr v)
    then have "v = Proceed"
      using park_settled [OF NeedsApproval assms park] by (cases v) auto
    then show ?thesis
      using NeedsApproval park Inr by (subst enforce.simps) auto
  qed
qed (subst enforce.simps, auto)+

section \<open>Witnesses\<close>

text \<open>
  A session over a page that always answers the same URL, with a human who grants every
  request the moment it is parked.
\<close>

type_synonym lone_hub = "(unit, unit, decision option \<times> bool) hub"

definition lone_page :: "(unit, lone_hub) page_api" where
  "lone_page = still_page (JStr ''https://a/'')"

definition lone_context :: "(unit, unit, lone_hub) context_api" where
  "lone_context =
     \<lparr>cx_open_page = (\<lambda>c s. (Inr (PageId ''p'', ()), tick 1 s)),
      cx_close_page = (\<lambda>c i s. (Inr (), tick 1 s)),
      cx_foreign_pages = (\<lambda>c s. (Inr [], tick 1 s)),
      cx_adopt_page = (\<lambda>c i s. (Inl EngTerminated, tick 1 s)),
      cx_set_cookies = (\<lambda>c cs s. (Inr (), tick 1 s)),
      cx_cookies = (\<lambda>c s. (Inr [], tick 1 s)),
      cx_close = (\<lambda>c s. (Inr (), tick 1 s))\<rparr>"

definition lone_env :: "(unit, unit, decision option \<times> bool, string, lone_hub) env" where
  "lone_env =
     \<lparr>en_page = lone_page, en_context = lone_context, en_texts = plain_texts, en_urls = plain_url_api,
      en_oneshot = cell_oneshot,
      en_await = (\<lambda>h window s. on_broker (\<lambda>b. snd (broker_decide cell_oneshot (mint_id h) Grant b)) s),
      en_encode = number_encode, en_print_map = (\<lambda>m. None), en_pid = 7,
      en_write_faults = (\<lambda>s. no_faults), en_audit_fault = (\<lambda>s. False), en_read_fault = (\<lambda>s. False)\<rparr>"

definition asking_session :: session where
  "asking_session =
     \<lparr>se_id = SessionId ''s'', se_config = default_session_config,
      se_policy = rule_set_new [] RequireApproval, se_state_path = Some (''d'', ''s.storage.json'')\<rparr>"

definition fresh_hub :: lone_hub where
  "fresh_hub =
     \<lparr>sy_now = 0, sy_wall = [], sy_backbone = backbone_new, hb_pages = registry_new, hb_context = (),
      hb_broker = broker_new, hb_feeds = feeds_default, hb_persist = persist_default,
      hb_files = Map.empty, hb_attempts = 0\<rparr>"

lemma lone_page_url: "page_url (en_page lone_env) page t = (Some ''https://a/'', tick 1 t)"
  by (simp add: page_url_def lone_env_def lone_page_def still_page_def)

lemma lone_park:
  assumes "review (en_urls lone_env) (se_policy asking_session) effect (Some ''https://a/'') = NeedsApproval brief"
  shows "\<exists>s'. park lone_env asking_session brief effect () (PageId ''p'') fresh_hub = (Inr Proceed, s')"
proof -
  obtain t h s1 where ask: "ask lone_env asking_session brief (PageId ''p'') fresh_hub = (t, h, s1)"
    by (cases "ask lone_env asking_session brief (PageId ''p'') fresh_hub") auto
  have h: "h = 1" "hb_broker s1 = snd (broker_open cell_oneshot broker_new)"
    using ask by (auto simp: ask_def broker_open_def lone_env_def fresh_hub_def broker_new_def Let_def)
  obtain s2 where "broker_wait lone_env h (rs_approval_timeout (se_policy asking_session)) s1 = (Some Granted, s2)"
    by (simp add: broker_wait_def h lone_env_def Let_def on_broker_def broker_ops broker_new_def
        cell_oneshot_def wait_outcome_def)
  then show ?thesis
    using ask lone_page_url review_brief [OF assms] by (auto simp: park_def Let_def judged_at_def judgment_url_def)
qed

theorem gate_answers_for_a_still_page_witness:
  "\<exists>r s'. enforce lone_env asking_session (EffectAction Back) () (PageId ''p'') (Some ''https://a/'') fresh_hub
     = Some (r, s')"
  using gate_answers_for_a_still_page [of "EffectAction Back" lone_env "()" "Some ''https://a/''"
      asking_session "PageId ''p''" fresh_hub]
  by (auto simp: lone_page_url)

lemma lone_review:
  "review (en_urls lone_env) (se_policy asking_session) (EffectAction Back) (Some ''https://a/'') =
     NeedsApproval \<lparr>ab_class = Navigation, ab_judged_url = Some ''https://a/'', ab_basis = SetDefault,
       ab_effect = EffectAction Back\<rparr>"
  by (simp add: review_def lone_env_def plain_url_api_def canonical_url_def asking_session_def
      rule_set_new_def judge_def)

lemma lone_gate:
  "\<exists>s'. enforce lone_env asking_session (EffectAction Back) () (PageId ''p'') (Some ''https://a/'') fresh_hub
     = Some (Inr (), s')"
proof -
  obtain s' where "park lone_env asking_session
      \<lparr>ab_class = Navigation, ab_judged_url = Some ''https://a/'', ab_basis = SetDefault, ab_effect = EffectAction Back\<rparr>
      (EffectAction Back) () (PageId ''p'') fresh_hub = (Inr Proceed, s')"
    using lone_park [OF lone_review] by blast
  then show ?thesis
    by (subst enforce.simps) (simp add: lone_review)
qed

theorem gate_passes_only_with_authority_witness:
  "\<exists>u t brief tk s2. review (en_urls lone_env) (se_policy asking_session) (EffectAction Back) u = NeedsApproval brief \<and>
     gate_at lone_env asking_session (EffectAction Back) () (PageId ''p'') (Some ''https://a/'') fresh_hub u t \<and>
     granted_brief lone_env asking_session brief (PageId ''p'') t tk s2"
proof -
  have "review (en_urls lone_env) (se_policy asking_session) (EffectAction Back) u \<noteq> Allowed" for u
    by (auto simp: review_Allowed_iff asking_session_def rule_set_new_def evaluate_def judge_def)
  with lone_gate gate_passes_only_with_authority [of lone_env asking_session "EffectAction Back" "()"
      "PageId ''p''" "Some ''https://a/''" fresh_hub]
  show ?thesis by blast
qed

theorem every_question_is_settled_witness:
  "\<exists>t h s1 s2 r s'. ask lone_env asking_session
       \<lparr>ab_class = Navigation, ab_judged_url = Some ''https://a/'', ab_basis = SetDefault, ab_effect = EffectAction Back\<rparr>
       (PageId ''p'') fresh_hub = (t, h, s1) \<and>
     settles lone_env asking_session (''d'', ''approvals.jsonl'') (tk_request t) True outcome_granted s2 s'"
proof -
  let ?brief = "\<lparr>ab_class = Navigation, ab_judged_url = Some ''https://a/'', ab_basis = SetDefault,
    ab_effect = EffectAction Back\<rparr>"
  obtain t h s1 where ask: "ask lone_env asking_session ?brief (PageId ''p'') fresh_hub = (t, h, s1)"
    by (cases "ask lone_env asking_session ?brief (PageId ''p'') fresh_hub") auto
  obtain outcome s2 where wait:
    "broker_wait lone_env h (rs_approval_timeout (se_policy asking_session)) s1 = (outcome, s2)"
    by fastforce
  obtain v where "park lone_env asking_session ?brief (EffectAction Back) () (PageId ''p'') fresh_hub = (Inr Proceed, v)"
    using lone_park [OF lone_review] by blast
  moreover have "audit_path asking_session = Some (''d'', ''approvals.jsonl'')" "\<And>s. \<not> en_audit_fault lone_env s"
    by (simp_all add: audit_path_def asking_session_def lone_env_def)
  from every_question_is_settled [OF ask wait this, of "EffectAction Back" "()"]
  have "\<exists>r s'. park lone_env asking_session ?brief (EffectAction Back) () (PageId ''p'') fresh_hub = (r, s') \<and>
      settles lone_env asking_session (''d'', ''approvals.jsonl'') (tk_request t) (outcome = Some Granted)
        (ticket_label outcome) (drop_point lone_env (EffectAction Back) () outcome s2) s' \<and>
      ((\<exists>next_step. r = Inr next_step) \<longleftrightarrow> outcome = Some Granted)"
    by blast
  ultimately have "settles lone_env asking_session (''d'', ''approvals.jsonl'') (tk_request t) True
      outcome_granted (drop_point lone_env (EffectAction Back) () (Some Granted) s2) v"
    by auto
  then show ?thesis
    using ask by blast
qed

end
