(* ===== verification/Session_Ops.thy ===== *)
theory Session_Ops
  imports Session_Approval
begin

text \<open>
  The operations of a session, \<open>crates/session/src/session/mod.rs\<close>: the page an operation
  runs on, actions, observations, tabs, cookies, storage, recovery and close, each as the
  sequence of awaited calls and registry steps of the source over one \<open>hub\<close>.
\<close>

section \<open>Helpers\<close>

definition on_feeds ::
  "(feeds \<Rightarrow> feeds) \<Rightarrow> ('h, 'c, 'ch, 'z) hub_scheme \<Rightarrow> ('h, 'c, 'ch, 'z) hub_scheme" where
  "on_feeds f s = s\<lparr>hb_feeds := f (hb_feeds s)\<rparr>"

definition start_feed :: "page_id \<Rightarrow> ('h, 'c, 'ch, 'z) hub_scheme \<Rightarrow> ('h, 'c, 'ch, 'z) hub_scheme" where
  "start_feed i s = on_feeds (\<lambda>f. snd (feed_spawn i f)) s"

definition session_new ::
  "'c \<Rightarrow> backbone \<Rightarrow> 'ch broker \<Rightarrow> files \<Rightarrow> instant \<Rightarrow> string \<Rightarrow> ('h, 'c, 'ch) hub" where
  "session_new context bb broker fs now wall =
     \<lparr>sy_now = now, sy_wall = wall, sy_backbone = bb, hb_pages = registry_new, hb_context = context,
      hb_broker = broker, hb_feeds = feeds_default, hb_persist = persist_default, hb_files = fs,
      hb_attempts = 0\<rparr>"

definition unknown_page :: "page_id \<Rightarrow> session_error" where
  "unknown_page i =
     SeAction (NotInteractable (Reference (page_str i)) (''no open page with id '' @ quoted (page_str i)))"

fun as_action_error :: "session_id \<Rightarrow> session_error \<Rightarrow> action_error" where
  "as_action_error i (SeAction a) = a"
| "as_action_error i (SeEngine e) =
     (case e of
        EngTerminated \<Rightarrow> EngineTerminated i
      | EngNavigationFailed url cause detail \<Rightarrow> NavigationFailed url cause
      | EngReferenceExpired r \<Rightarrow> ReferenceExpired (Reference r)
      | EngTimeout operation elapsed \<Rightarrow> TimedOut Act elapsed
      | other \<Rightarrow> Internal (show_engine_error other))"
| "as_action_error i (SeCapacity detail) = Internal detail"
| "as_action_error i (SeInvalidId detail) = Internal detail"
| "as_action_error i (SeStorageWrite detail) = Internal detail"
| "as_action_error i (SeStorageRead detail) = Internal detail"
| "as_action_error i (SeInternal detail) = Internal detail"
| "as_action_error i SeNoOpenPage =
     NotInteractable (Reference []) ''the session has no open page to observe''"

section \<open>The page an operation runs on\<close>

definition new_slot :: "page_id \<Rightarrow> string \<Rightarrow> 'h \<Rightarrow> bool \<Rightarrow> 'h page_slot" where
  "new_slot i url handle active =
     \<lparr>ps_id = i, ps_url = url, ps_handle = handle, ps_active = active\<rparr>"

definition ensure_page ::
  "('h, 'c, 'ch, 'u, ('h, 'c, 'ch, 'z) hub_scheme) env \<Rightarrow> session \<Rightarrow> ('h, 'c, 'ch, 'z) hub_scheme \<Rightarrow>
   (session_error + page_id \<times> 'h) \<times> ('h, 'c, 'ch, 'z) hub_scheme" where
  "ensure_page env se s =
     (case active_page (hb_pages s) of
        Some found \<Rightarrow> (Inr found, s)
      | None \<Rightarrow>
          (if \<not> accepts_new_page (hb_pages s) then (Inl (SeEngine EngTerminated), s)
           else
             (let context = hb_context s in
              case cx_open_page (en_context env) context s of
                (Inl e, s1) \<Rightarrow> (Inl (SeEngine e), s1)
              | (Inr (i, handle), s1) \<Rightarrow>
                  (case admit_active (new_slot i [] handle True) (hb_pages s1) of
                     (admitted, r) \<Rightarrow>
                       (if admitted
                        then (Inr (i, handle),
                              emit (se_id se) (PageOpened i) (start_feed i (s1\<lparr>hb_pages := r\<rparr>)))
                        else
                          (let s2 = snd (cx_close_page (en_context env) context i s1)
                           in (ok_or (active_page (hb_pages s2)) (SeEngine EngTerminated), s2)))))))"

section \<open>Storage\<close>

text \<open>
  The guard of the bookkeeping is held from the capture to the write, so the bookkeeping
  itself does not change while the capture is awaited. The staging counter moves when a
  write gets as far as naming its staging file.
\<close>

definition names_staging :: "write_faults \<Rightarrow> file_path option \<Rightarrow> storage_state option \<Rightarrow> persist_state \<Rightarrow> bool" where
  "names_staging faults path captured p \<longleftrightarrow>
     path \<noteq> None \<and> captured \<noteq> None \<and> \<not> (captured = Some (pe_state p) \<and> pe_persisted p) \<and>
     wf_dirs faults = None \<and> wf_encode faults = None"

definition write_storage_if_changed ::
  "('h, 'c, 'ch, 'u, ('h, 'c, 'ch, 'z) hub_scheme) env \<Rightarrow> session \<Rightarrow> ('h, 'c, 'ch, 'z) hub_scheme \<Rightarrow>
   (string + unit) \<times> ('h, 'c, 'ch, 'z) hub_scheme" where
  "write_storage_if_changed env se s =
     (let p = hb_persist s in
      case try_capture (en_page env) (en_context env) (hb_context s) (page_pairs (hb_pages s)) s of
        (captured, s1) \<Rightarrow>
          (let faults = en_write_faults env s1 in
           case write_if_changed (en_encode env) faults (en_pid env) (hb_attempts s1) (se_state_path se)
                  captured p (hb_files s1) of
             (r, p', fs) \<Rightarrow>
               (r, s1\<lparr>hb_persist := p', hb_files := fs,
                      hb_attempts := hb_attempts s1
                        + of_bool (names_staging faults (se_state_path se) captured p)\<rparr>)))"

text \<open>A failure of the best-effort path is printed and dropped.\<close>

definition persist_storage ::
  "('h, 'c, 'ch, 'u, ('h, 'c, 'ch, 'z) hub_scheme) env \<Rightarrow> session \<Rightarrow> ('h, 'c, 'ch, 'z) hub_scheme \<Rightarrow>
   ('h, 'c, 'ch, 'z) hub_scheme" where
  "persist_storage env se s = snd (write_storage_if_changed env se s)"

definition capture_storage ::
  "('h, 'c, 'ch, 'u, ('h, 'c, 'ch, 'z) hub_scheme) env \<Rightarrow> ('h, 'c, 'ch, 'z) hub_scheme \<Rightarrow>
   storage_state \<times> ('h, 'c, 'ch, 'z) hub_scheme" where
  "capture_storage env s =
     capture (en_page env) (en_context env) (hb_context s) (page_pairs (hb_pages s)) s"

definition refresh_url ::
  "('h, 'c, 'ch, 'u, ('h, 'c, 'ch, 'z) hub_scheme) env \<Rightarrow> page_id \<Rightarrow> 'h \<Rightarrow> ('h, 'c, 'ch, 'z) hub_scheme \<Rightarrow>
   ('h, 'c, 'ch, 'z) hub_scheme" where
  "refresh_url env i page s =
     (case page_url (en_page env) page s of
        (None, s1) \<Rightarrow> s1
      | (Some url, s1) \<Rightarrow> on_pages (set_url i url) s1)"

definition no_state_directory :: string where
  "no_state_directory = ''this session has no storage state directory''"

definition save_storage ::
  "('h, 'c, 'ch, 'u, ('h, 'c, 'ch, 'z) hub_scheme) env \<Rightarrow> session \<Rightarrow> ('h, 'c, 'ch, 'z) hub_scheme \<Rightarrow>
   (session_error + unit) \<times> ('h, 'c, 'ch, 'z) hub_scheme" where
  "save_storage env se s =
     (case ensure_page env se s of
        (Inl e, s1) \<Rightarrow> (Inl e, s1)
      | (Inr (i, page), s1) \<Rightarrow>
          (let s2 = refresh_url env i page s1 in
           if se_state_path se = None then (Inl (SeStorageWrite no_state_directory), s2)
           else (case write_storage_if_changed env se s2 of (r, s3) \<Rightarrow> (map_err SeStorageWrite r, s3))))"

definition load_storage ::
  "('h, 'c, 'ch, 'u, ('h, 'c, 'ch, 'z) hub_scheme) env \<Rightarrow> session \<Rightarrow> ('h, 'c, 'ch, 'z) hub_scheme \<Rightarrow>
   (session_error + unit) \<times> ('h, 'c, 'ch, 'z) hub_scheme" where
  "load_storage env se s =
     (case se_state_path se of
        None \<Rightarrow> (Inl (SeStorageRead no_state_directory), s)
      | Some path \<Rightarrow>
          (let state = read_storage (tx_parse (en_texts env)) (en_read_fault env s) path (hb_files s);
               s1 = restore (en_page env) (en_context env) (en_print_map env) state (hb_context s)
                      (page_pairs (hb_pages s)) s
           in (Inr (), s1\<lparr>hb_persist := install_loaded state (hb_persist s1)\<rparr>)))"

section \<open>Actions\<close>

definition action_executor :: "session \<Rightarrow> page_id \<Rightarrow> 'h \<Rightarrow> 'h executor" where
  "action_executor se i page =
     \<lparr>ex_session = se_id se, ex_page_id = i, ex_page = page, ex_config = se_config se\<rparr>"

text \<open>The URL an agent's action is judged at: a navigation's target, else the page it acts on.\<close>

definition policy_url ::
  "('h, 'c, 'ch, 'u, ('h, 'c, 'ch, 'z) hub_scheme) env \<Rightarrow> action \<Rightarrow> 'h \<Rightarrow> ('h, 'c, 'ch, 'z) hub_scheme \<Rightarrow>
   string option \<times> ('h, 'c, 'ch, 'z) hub_scheme" where
  "policy_url env action page s =
     (case action of Navigate url \<Rightarrow> (Some url, s) | _ \<Rightarrow> page_url (en_page env) page s)"

definition supervise ::
  "('h, 'c, 'ch, 'u, ('h, 'c, 'ch, 'z) hub_scheme) env \<Rightarrow> session \<Rightarrow> action \<Rightarrow> origin \<Rightarrow> page_id \<Rightarrow> 'h \<Rightarrow>
   ('h, 'c, 'ch, 'z) hub_scheme \<Rightarrow> ((session_error + unit) \<times> ('h, 'c, 'ch, 'z) hub_scheme) option" where
  "supervise env se action origin i page s =
     (if origin = Agent
      then (case policy_url env action page s of (url, s1) \<Rightarrow>
              enforce env se (EffectAction action) page i url s1)
      else Some (Inr (), s))"

text \<open>From the request on: the action runs, its end is recorded, the bookkeeping refreshed.\<close>

definition perform ::
  "('h, 'c, 'ch, 'u, ('h, 'c, 'ch, 'z) hub_scheme) env \<Rightarrow> session \<Rightarrow> action \<Rightarrow> origin \<Rightarrow> page_id \<Rightarrow> 'h \<Rightarrow>
   ('h, 'c, 'ch, 'z) hub_scheme \<Rightarrow> ((session_error + snapshot) \<times> ('h, 'c, 'ch, 'z) hub_scheme) option" where
  "perform env se action origin i page s =
     (case run_action (en_texts env) (en_page env) (action_executor se i page) action
             (emit (se_id se) (ActionRequested i origin action) s) of
        None \<Rightarrow> None
      | Some (r, s1) \<Rightarrow>
          (let s2 = emit (se_id se)
                 (case r of
                    Inr u \<Rightarrow> ActionCompleted i origin action
                  | Inl e \<Rightarrow> ActionFailed i origin action (as_action_error (se_id se) e)) s1
           in Some (r, persist_storage env se (refresh_url env i page s2))))"

definition execute ::
  "('h, 'c, 'ch, 'u, ('h, 'c, 'ch, 'z) hub_scheme) env \<Rightarrow> session \<Rightarrow> action \<Rightarrow> origin \<Rightarrow>
   ('h, 'c, 'ch, 'z) hub_scheme \<Rightarrow> ((session_error + snapshot) \<times> ('h, 'c, 'ch, 'z) hub_scheme) option" where
  "execute env se action origin s =
     and_then (Some (ensure_page env se s)) (\<lambda>found s1.
       and_then (supervise env se action origin (fst found) (snd found) s1) (\<lambda>u s2.
         perform env se action origin (fst found) (snd found) s2))"

section \<open>Observations\<close>

definition session_snapshot ::
  "('h, 'c, 'ch, 'u, ('h, 'c, 'ch, 'z) hub_scheme) env \<Rightarrow> session \<Rightarrow> ('h, 'c, 'ch, 'z) hub_scheme \<Rightarrow>
   ((session_error + snapshot) \<times> ('h, 'c, 'ch, 'z) hub_scheme) option" where
  "session_snapshot env se s =
     and_then (Some (ensure_page env se s)) (\<lambda>found s1.
       take_snapshot (en_texts env) (en_page env) (snd found) s1)"

definition session_read ::
  "('h, 'c, 'ch, 'u, ('h, 'c, 'ch, 'z) hub_scheme) env \<Rightarrow> session \<Rightarrow> ('h, 'c, 'ch, 'z) hub_scheme \<Rightarrow>
   ((session_error + readout) \<times> ('h, 'c, 'ch, 'z) hub_scheme) option" where
  "session_read env se s =
     and_then (Some (ensure_page env se s)) (\<lambda>found s1.
       read_page (en_texts env) (en_page env) (snd found) s1)"

definition session_screencast ::
  "('h, 'c, 'ch, 'u, ('h, 'c, 'ch, 'z) hub_scheme) env \<Rightarrow> ('h, 'c, 'ch, 'z) hub_scheme \<Rightarrow>
   (session_error + string list) \<times> ('h, 'c, 'ch, 'z) hub_scheme" where
  "session_screencast env s =
     (case active_page (hb_pages s) of
        None \<Rightarrow> (Inl SeNoOpenPage, s)
      | Some (i, page) \<Rightarrow>
          (case pa_start_screencast (en_page env) page s of (r, s1) \<Rightarrow> (map_err SeEngine r, s1)))"

definition session_screenshot ::
  "('h, 'c, 'ch, 'u, ('h, 'c, 'ch, 'z) hub_scheme) env \<Rightarrow> session \<Rightarrow> ('h, 'c, 'ch, 'z) hub_scheme \<Rightarrow>
   (session_error + screenshot) \<times> ('h, 'c, 'ch, 'z) hub_scheme" where
  "session_screenshot env se s =
     (case ensure_page env se s of
        (Inl e, s1) \<Rightarrow> (Inl e, s1)
      | (Inr (i, page), s1) \<Rightarrow>
          (case pa_screenshot (en_page env) page s1 of
             (r, s2) \<Rightarrow> (map_err (\<lambda>e. SeAction (Internal (show_engine_error e))) r, s2)))"

definition session_wait_for ::
  "('h, 'c, 'ch, 'u, ('h, 'c, 'ch, 'z) hub_scheme) env \<Rightarrow> session \<Rightarrow> string \<Rightarrow> duration \<Rightarrow>
   ('h, 'c, 'ch, 'z) hub_scheme \<Rightarrow> ((session_error + snapshot) \<times> ('h, 'c, 'ch, 'z) hub_scheme) option" where
  "session_wait_for env se needle budget s =
     and_then (Some (ensure_page env se s)) (\<lambda>found s1.
       wait_for_text (en_texts env) (en_page env) (se_config se) (snd found) needle budget s1)"

definition active_page_id :: "('h, 'c, 'ch, 'z) hub_scheme \<Rightarrow> page_id option" where
  "active_page_id s = map_option fst (active_page (hb_pages s))"

definition console_messages :: "('h, 'c, 'ch, 'z) hub_scheme \<Rightarrow> console_entry list" where
  "console_messages s =
     (case active_page (hb_pages s) of None \<Rightarrow> [] | Some (i, page) \<Rightarrow> feed_entries i (hb_feeds s))"

definition network_requests :: "('h, 'c, 'ch, 'z) hub_scheme \<Rightarrow> request_entry list" where
  "network_requests s =
     (case active_page (hb_pages s) of None \<Rightarrow> [] | Some (i, page) \<Rightarrow> feed_requests i (hb_feeds s))"

section \<open>Tabs\<close>

fun adopt_surfaces ::
  "('h, 'c, 'ch, 'u, ('h, 'c, 'ch, 'z) hub_scheme) env \<Rightarrow> session \<Rightarrow> 'c \<Rightarrow> foreign_page list \<Rightarrow>
   ('h, 'c, 'ch, 'z) hub_scheme \<Rightarrow> ('h, 'c, 'ch, 'z) hub_scheme" where
  "adopt_surfaces env se context [] s = s"
| "adopt_surfaces env se context (surface # surfaces) s =
     (if tracks (fp_id surface) (hb_pages s) then adopt_surfaces env se context surfaces s
      else
        (case cx_adopt_page (en_context env) context (fp_id surface) s of
           (Inl e, s1) \<Rightarrow> adopt_surfaces env se context surfaces s1
         | (Inr (i, handle), s1) \<Rightarrow>
             (case admit (new_slot i (fp_url surface) handle False) (hb_pages s1) of
                (admitted, r) \<Rightarrow>
                  adopt_surfaces env se context surfaces
                    (if admitted then emit (se_id se) (PageOpened i) (start_feed i (s1\<lparr>hb_pages := r\<rparr>)) else s1))))"

definition sync_foreign_pages ::
  "('h, 'c, 'ch, 'u, ('h, 'c, 'ch, 'z) hub_scheme) env \<Rightarrow> session \<Rightarrow> ('h, 'c, 'ch, 'z) hub_scheme \<Rightarrow>
   ('h, 'c, 'ch, 'z) hub_scheme" where
  "sync_foreign_pages env se s =
     (if \<not> accepts_new_page (hb_pages s) then s
      else
        (let context = hb_context s in
         case cx_foreign_pages (en_context env) context s of
           (Inl e, s1) \<Rightarrow> s1
         | (Inr surfaces, s1) \<Rightarrow> adopt_surfaces env se context surfaces s1))"

definition session_pages ::
  "('h, 'c, 'ch, 'u, ('h, 'c, 'ch, 'z) hub_scheme) env \<Rightarrow> session \<Rightarrow> ('h, 'c, 'ch, 'z) hub_scheme \<Rightarrow>
   page_info list \<times> ('h, 'c, 'ch, 'z) hub_scheme" where
  "session_pages env se s =
     (let s1 = sync_foreign_pages env se s in (list_pages (hb_pages s1), s1))"

definition select_page ::
  "('h, 'c, 'ch, 'u, ('h, 'c, 'ch, 'z) hub_scheme) env \<Rightarrow> session \<Rightarrow> page_id \<Rightarrow> ('h, 'c, 'ch, 'z) hub_scheme \<Rightarrow>
   ((session_error + snapshot) \<times> ('h, 'c, 'ch, 'z) hub_scheme) option" where
  "select_page env se i s =
     (case activate i (hb_pages s) of
        (None, r) \<Rightarrow> Some (Inl (unknown_page i), s\<lparr>hb_pages := r\<rparr>)
      | (Some handle, r) \<Rightarrow>
          take_snapshot (en_texts env) (en_page env) handle
            (emit (se_id se) (PageActivated i) (s\<lparr>hb_pages := r\<rparr>)))"

definition navigate_opened ::
  "('h, 'c, 'ch, 'u, ('h, 'c, 'ch, 'z) hub_scheme) env \<Rightarrow> session \<Rightarrow> page_id \<Rightarrow> 'h \<Rightarrow> string \<Rightarrow>
   ('h, 'c, 'ch, 'z) hub_scheme \<Rightarrow> ((session_error + unit) \<times> ('h, 'c, 'ch, 'z) hub_scheme) option" where
  "navigate_opened env se i handle url s =
     and_then (enforce env se (EffectAction (Navigate url)) handle i (Some url) s) (\<lambda>u s1.
     and_then (engine_call (pa_navigate (en_page env) handle url s1)) (\<lambda>effective s2.
       Some (Inr (),
         persist_storage env se
           (emit (se_id se) (PageNavigated i effective) (on_pages (set_url i effective) s2)))))"

definition open_page ::
  "('h, 'c, 'ch, 'u, ('h, 'c, 'ch, 'z) hub_scheme) env \<Rightarrow> session \<Rightarrow> string option \<Rightarrow>
   ('h, 'c, 'ch, 'z) hub_scheme \<Rightarrow> ((session_error + snapshot) \<times> ('h, 'c, 'ch, 'z) hub_scheme) option" where
  "open_page env se url s =
     (if \<not> accepts_new_page (hb_pages s) then Some (Inl (SeEngine EngTerminated), s)
      else
        (let context = hb_context s in
         case cx_open_page (en_context env) context s of
           (Inl e, s1) \<Rightarrow> Some (Inl (SeEngine e), s1)
         | (Inr (i, handle), s1) \<Rightarrow>
             (case admit (new_slot i [] handle False) (hb_pages s1) of
                (admitted, r) \<Rightarrow>
                  (if \<not> admitted
                   then Some (Inl (SeEngine EngTerminated), snd (cx_close_page (en_context env) context i s1))
                   else
                     (let s2 = emit (se_id se) (PageOpened i)
                            (start_feed i (s1\<lparr>hb_pages := snd (activate i r)\<rparr>))
                      in and_then
                           (case url of
                              None \<Rightarrow> Some (Inr (), s2)
                            | Some u \<Rightarrow> navigate_opened env se i handle u s2)
                           (\<lambda>u s3. take_snapshot (en_texts env) (en_page env) handle s3))))))"

definition set_viewport ::
  "('h, 'c, 'ch, 'u, ('h, 'c, 'ch, 'z) hub_scheme) env \<Rightarrow> session \<Rightarrow> nat \<Rightarrow> nat \<Rightarrow> ('h, 'c, 'ch, 'z) hub_scheme \<Rightarrow>
   ((session_error + snapshot) \<times> ('h, 'c, 'ch, 'z) hub_scheme) option" where
  "set_viewport env se width height s =
     and_then (Some (ensure_page env se s)) (\<lambda>found s1.
     and_then (engine_call (pa_set_viewport (en_page env) (snd found) width height s1)) (\<lambda>u s2.
       take_snapshot (en_texts env) (en_page env) (snd found) s2))"

definition close_page ::
  "('h, 'c, 'ch, 'u, ('h, 'c, 'ch, 'z) hub_scheme) env \<Rightarrow> session \<Rightarrow> page_id \<Rightarrow> ('h, 'c, 'ch, 'z) hub_scheme \<Rightarrow>
   (session_error + string) \<times> ('h, 'c, 'ch, 'z) hub_scheme" where
  "close_page env se i s =
     (if \<not> accepts_new_page (hb_pages s) then (Inl (SeEngine EngTerminated), s)
      else if \<not> tracks i (hb_pages s) then (Inl (unknown_page i), s)
      else
        (case cx_close_page (en_context env) (hb_context s) i s of
           (Inl e, s1) \<Rightarrow> (Inl (SeEngine e), s1)
         | (Inr u, s1) \<Rightarrow>
             (Inr (''closed '' @ page_str i),
              emit (se_id se) (PageClosed i)
                (on_feeds (feed_remove i) (on_pages (\<lambda>r. snd (remove_page i r)) s1)))))"

section \<open>Cookies\<close>

definition session_cookies ::
  "('h, 'c, 'ch, 'u, ('h, 'c, 'ch, 'z) hub_scheme) env \<Rightarrow> ('h, 'c, 'ch, 'z) hub_scheme \<Rightarrow>
   (session_error + cookie list) \<times> ('h, 'c, 'ch, 'z) hub_scheme" where
  "session_cookies env s =
     (case cx_cookies (en_context env) (hb_context s) s of (r, s1) \<Rightarrow> (map_err SeEngine r, s1))"

definition session_set_cookies ::
  "('h, 'c, 'ch, 'u, ('h, 'c, 'ch, 'z) hub_scheme) env \<Rightarrow> session \<Rightarrow> cookie list \<Rightarrow>
   ('h, 'c, 'ch, 'z) hub_scheme \<Rightarrow> ((session_error + unit) \<times> ('h, 'c, 'ch, 'z) hub_scheme) option" where
  "session_set_cookies env se cookies s =
     and_then (Some (ensure_page env se s)) (\<lambda>found s1.
       (case page_url (en_page env) (snd found) s1 of
          (url, s2) \<Rightarrow>
            and_then (enforce env se (EffectCookies (length cookies)) (snd found) (fst found) url s2) (\<lambda>u s3.
            and_then (engine_call (cx_set_cookies (en_context env) (hb_context s3) cookies s3)) (\<lambda>u s4.
              Some (Inr (),
                persist_storage env se
                  (case url of None \<Rightarrow> s4 | Some v \<Rightarrow> on_pages (set_url (fst found) v) s4))))))"

section \<open>Recovery and close\<close>

text \<open>One turn per saved point; the engine may refuse the page, the navigation may fail.\<close>

fun rebuild_pages ::
  "('h, 'c, 'ch, 'u, ('h, 'c, 'ch, 'z) hub_scheme) env \<Rightarrow> session \<Rightarrow> 'c \<Rightarrow> storage_state \<Rightarrow> nat option \<Rightarrow>
   nat \<Rightarrow> recovery_point list \<Rightarrow> ('h, 'c, 'ch, 'z) hub_scheme \<Rightarrow>
   'h page_slot list \<times> ('h, 'c, 'ch, 'z) hub_scheme" where
  "rebuild_pages env se context state active k [] s = ([], s)"
| "rebuild_pages env se context state active k (point # points) s =
     (if blank_url (rp_url point) then rebuild_pages env se context state active (Suc k) points s
      else
        (case cx_open_page (en_context env) context s of
           (Inl e, s1) \<Rightarrow> rebuild_pages env se context state active (Suc k) points s1
         | (Inr (i, handle), s1) \<Rightarrow>
             (let s2 = snd (pa_navigate (en_page env) handle (rp_url point) s1);
                  (url, s3) = page_url (en_page env) handle s2;
                  s4 = restore_origins (en_page env) (en_print_map env) state
                         [(unwrap_or url (rp_url point), handle)] s3;
                  s5 = emit (se_id se) (PageOpened i) (start_feed i s4);
                  (slots, s6) = rebuild_pages env se context state active (Suc k) points s5
              in (new_slot i (rp_url point) handle (active = Some k) # slots, s6))))"

definition recover ::
  "('h, 'c, 'ch, 'u, ('h, 'c, 'ch, 'z) hub_scheme) env \<Rightarrow> session \<Rightarrow> 'c \<Rightarrow> ('h, 'c, 'ch, 'z) hub_scheme \<Rightarrow>
   ('h, 'c, 'ch, 'z) hub_scheme" where
  "recover env se context s =
     (case begin_recovery (hb_pages s) of
        (saved, r) \<Rightarrow>
          (let s1 = on_feeds feed_clear (s\<lparr>hb_pages := r\<rparr>);
               state = pe_state (hb_persist s1);
               s2 = s1\<lparr>hb_context := context\<rparr>;
               s3 = (if st_cookies state = [] then s2
                     else snd (cx_set_cookies (en_context env) context (st_cookies state) s2));
               (restored, s4) = rebuild_pages env se context state (position rp_active saved) 0 saved s3
           in emit (se_id se) EngineRestarted (on_pages (finish_recovery restored) s4)))"

text \<open>The same future dropped in a state \<open>s1\<close> it had reached: the gate opens the registry.\<close>

definition recover_dropped :: "('h, 'c, 'ch, 'z) hub_scheme \<Rightarrow> ('h, 'c, 'ch, 'z) hub_scheme" where
  "recover_dropped s1 = on_pages drop_gate s1"

definition session_close ::
  "('h, 'c, 'ch, 'u, ('h, 'c, 'ch, 'z) hub_scheme) env \<Rightarrow> ('h, 'c, 'ch, 'z) hub_scheme \<Rightarrow>
   ('h, 'c, 'ch, 'z) hub_scheme" where
  "session_close env s =
     on_feeds feed_clear (on_pages clear_pages (snd (cx_close (en_context env) (hb_context s) s)))"

section \<open>Facts about the operations\<close>

lemma rebuild_from_cong:
  "(\<And>k'. k \<le> k' \<Longrightarrow> opened k' = opened' k') \<Longrightarrow>
   rebuild_from active k points opened = rebuild_from active k points opened'"
  by (induction points arbitrary: k) (auto split: option.splits)

lemma rebuild_pages_rebuild:
  "\<exists>opened. fst (rebuild_pages env se context state active k points s) = rebuild_from active k points opened"
proof (induction points arbitrary: k s)
  case Nil
  then show ?case by auto
next
  case (Cons point points)
  have ext: "\<exists>opened. opened k = v \<and> fst (rebuild_pages env se context state active (Suc k) points t)
      = rebuild_from active (Suc k) points opened" for v t
  proof -
    obtain opened where "fst (rebuild_pages env se context state active (Suc k) points t)
        = rebuild_from active (Suc k) points opened"
      using Cons.IH by blast
    then have "fst (rebuild_pages env se context state active (Suc k) points t)
        = rebuild_from active (Suc k) points (opened(k := v))"
      by (simp add: rebuild_from_cong [of "Suc k" "opened(k := v)" opened])
    then show ?thesis
      by (intro exI [of _ "opened(k := v)"]) simp
  qed
  show ?case
  proof (cases "blank_url (rp_url point)")
    case True
    then show ?thesis using Cons.IH by simp
  next
    case False
    obtain answer s1 where opened: "cx_open_page (en_context env) context s = (answer, s1)"
      by fastforce
    show ?thesis
    proof (cases answer)
      case (Inl e)
      obtain f where "f k = None" "fst (rebuild_pages env se context state active (Suc k) points s1)
          = rebuild_from active (Suc k) points f"
        using ext by blast
      then show ?thesis
        using Inl False opened by (intro exI [of _ f]) simp
    next
      case (Inr found)
      obtain i handle where found: "found = (i, handle)"
        by fastforce
      obtain t where "fst (rebuild_pages env se context state active k (point # points) s) =
          new_slot i (rp_url point) handle (active = Some k)
            # fst (rebuild_pages env se context state active (Suc k) points t)"
        using False opened Inr found by (auto simp: Let_def case_prod_beta)
      moreover obtain f where "f k = Some (i, handle)"
        "fst (rebuild_pages env se context state active (Suc k) points t) = rebuild_from active (Suc k) points f"
        using ext by blast
      ultimately show ?thesis
        using False by (intro exI [of _ f]) (simp add: new_slot_def)
    qed
  qed
qed

lemma hub_more_simps [simp]:
  "hb_pages (on_feeds f s) = hb_pages s" "sy_backbone (on_feeds f s) = sy_backbone s"
  "hb_pages (start_feed i s) = hb_pages s" "sy_backbone (start_feed i s) = sy_backbone s"
  by (simp_all add: on_feeds_def start_feed_def)

definition published ::
  "session_id \<Rightarrow> event \<Rightarrow> ('h, 'c, 'ch, 'z) hub_scheme \<Rightarrow> ('h, 'c, 'ch, 'z) hub_scheme \<Rightarrow> bool" where
  "published i e s s' \<longleftrightarrow>
     (\<exists>v. bb_sent (sy_backbone s') = bb_sent (sy_backbone s) @ [v] \<and> env_session v = i \<and> env_event v = e)"

lemma emit_published: "published i e s (emit i e s)"
  by (simp add: published_def emit_def publish_def history_record_def bus_publish_def Let_def)

lemma admit_active_tracks: "admit_active slot r = (True, r') \<Longrightarrow> tracks (ps_id slot) r'"
  by (auto simp: admit_active_def tracks_def split: if_splits)

lemma recover_registry:
  "\<exists>opened r. hb_pages (recover env se context s) =
     finish_recovery (rebuild (fst (begin_recovery (hb_pages s))) opened) r"
proof -
  obtain saved r where b: "begin_recovery (hb_pages s) = (saved, r)"
    by fastforce
  define s1 where "s1 = on_feeds feed_clear (s\<lparr>hb_pages := r\<rparr>)"
  define state where "state = pe_state (hb_persist s1)"
  define s3 where "s3 = (if st_cookies state = [] then s1\<lparr>hb_context := context\<rparr>
    else snd (cx_set_cookies (en_context env) context (st_cookies state) (s1\<lparr>hb_context := context\<rparr>)))"
  obtain restored s4 where re: "rebuild_pages env se context state (position rp_active saved) 0 saved s3 = (restored, s4)"
    by fastforce
  obtain opened where "restored = rebuild saved opened"
    using rebuild_pages_rebuild [of env se "context" state "position rp_active saved" 0 saved s3] re
    by (auto simp: rebuild_def)
  moreover have "hb_pages (recover env se context s) = finish_recovery restored (hb_pages s4)"
    using re by (cases "st_cookies state = []")
      (simp_all add: recover_def b Let_def s1_def [symmetric] state_def [symmetric] s3_def)
  ultimately show ?thesis
    using b by auto
qed

lemma supervise_Agent:
  assumes "supervise env se action Agent i page s = Some (Inr (), s')"
  shows "cleared env se (EffectAction action) page i (fst (policy_url env action page s))
     (snd (policy_url env action page s)) s'"
  using assms enforce_cleared [of env se "EffectAction action" page i]
  by (auto simp: supervise_def split: prod.splits)

lemma rebuild_from_urls:
  "subseq (map ps_url (rebuild_from active k points opened))
     (filter (\<lambda>url. \<not> blank_url url) (map rp_url points))"
  by (induction points arbitrary: k) (auto split: option.split)

lemma rebuild_urls:
  "subseq (map ps_url (rebuild saved opened)) (filter (\<lambda>url. \<not> blank_url url) (map rp_url saved))"
  by (simp add: rebuild_def rebuild_from_urls)

lemma finish_active_count:
  "length (filter ps_active (pr_slots (finish_recovery (rebuild saved opened) r))) =
     (if pr_slots (finish_recovery (rebuild saved opened) r) = [] then 0 else 1)"
  using active_count_rebuild [of saved opened] active_count_0_iff [of "rebuild saved opened"]
  by (cases "rebuild saved opened")
    (auto simp: finish_recovery_def drop_gate_def active_count_def le_Suc_eq)

section \<open>Properties\<close>

text \<open>
  A session never leaks the page it opens for an operation: when the engine opened one,
  either the operation runs on it, registered and announced, or the very next engine call
  closes it, because a concurrent operation registered its page first or a recovery took
  the registry over.
\<close>

theorem opened_page_is_tracked_or_closed:
  assumes "active_page (hb_pages s) = None" and "accepts_new_page (hb_pages s)"
    and "cx_open_page (en_context env) (hb_context s) s = (Inr (i, handle), s1)"
  shows "(\<exists>s2. ensure_page env se s = (Inr (i, handle), emit (se_id se) (PageOpened i) s2) \<and>
       tracks i (hb_pages s2) \<and> sy_backbone s2 = sy_backbone s1) \<or>
     snd (ensure_page env se s) = snd (cx_close_page (en_context env) (hb_context s) i s1) \<and>
     (pr_recovering (hb_pages s1) \<or> list_ex ps_active (pr_slots (hb_pages s1)))"
proof (cases "admit_active (new_slot i [] handle True) (hb_pages s1)")
  case (Pair admitted r)
  show ?thesis
  proof (cases admitted)
    case True
    then have "tracks i r"
      using admit_active_tracks [of "new_slot i [] handle True"] Pair by (auto simp: new_slot_def)
    then show ?thesis
      using assms Pair True
      by (intro disjI1 exI [of _ "start_feed i (s1\<lparr>hb_pages := r\<rparr>)"]) (simp add: ensure_page_def Let_def)
  next
    case False
    then have "pr_recovering (hb_pages s1) \<or> list_ex ps_active (pr_slots (hb_pages s1))"
      using Pair by (auto simp: admit_active_def split: if_splits)
    then show ?thesis
      using assms Pair False by (simp add: ensure_page_def Let_def)
  qed
qed

text \<open>
  C20. Every action is supervised and recorded. One that does not run leaves the state its
  refusal left: no page could be had, or the gate refused. One that runs was requested on
  the backbone just before it ran and its outcome, completed or failed with the error the
  caller gets, was published just after; and an agent's action had authority: from the state
  in which its URL was read, the gate passed it (by an allowing review or a human's grant) and
  left the very state in which the request was published, while a human's needed none.
\<close>

theorem action_supervised_and_recorded:
  assumes "execute env se action origin s = Some (r, s')"
  shows "(\<exists>e. r = Inl e \<and>
       (ensure_page env se s = (Inl e, s') \<or>
        (\<exists>i page s1. ensure_page env se s = (Inr (i, page), s1) \<and> origin = Agent \<and>
           supervise env se action origin i page s1 = Some (Inl e, s')))) \<or>
     (\<exists>i page s1 s2 s3 s4 s5.
        ensure_page env se s = (Inr (i, page), s1) \<and>
        (origin = Agent \<longrightarrow>
           cleared env se (EffectAction action) page i (fst (policy_url env action page s1))
             (snd (policy_url env action page s1)) s2) \<and>
        published (se_id se) (ActionRequested i origin action) s2 s3 \<and>
        run_action (en_texts env) (en_page env) (action_executor se i page) action s3 = Some (r, s4) \<and>
        published (se_id se)
          (case r of
             Inr u \<Rightarrow> ActionCompleted i origin action
           | Inl e \<Rightarrow> ActionFailed i origin action (as_action_error (se_id se) e)) s4 s5 \<and>
        s' = persist_storage env se (refresh_url env i page s5))"
proof (cases "ensure_page env se s")
  case (Pair found s1)
  show ?thesis
  proof (cases found)
    case (Inl e)
    then show ?thesis using assms Pair by (auto simp: execute_def)
  next
    case (Inr p)
    obtain i page where p: "p = (i, page)"
      by fastforce
    from assms Pair Inr p obtain gate s2 where gate: "supervise env se action origin i page s1 = Some (gate, s2)"
      by (auto simp: execute_def and_then_def split: option.splits)
    show ?thesis
    proof (cases gate)
      case (Inl e)
      then have "origin = Agent" "r = Inl e" "s' = s2"
        using assms Pair Inr p gate by (auto simp: execute_def supervise_def split: if_splits)
      then show ?thesis
        using gate Inl Pair Inr p by blast
    next
      case (Inr u)
      have run: "perform env se action origin i page s2 = Some (r, s')"
        using assms Pair \<open>found = Inr p\<close> p gate Inr by (simp add: execute_def)
      have clear: "origin = Agent \<longrightarrow>
          cleared env se (EffectAction action) page i (fst (policy_url env action page s1))
            (snd (policy_url env action page s1)) s2"
        using gate Inr supervise_Agent [of env se action i page s1 s2] by auto
      let ?s3 = "emit (se_id se) (ActionRequested i origin action) s2"
      from run obtain s4 where act: "run_action (en_texts env) (en_page env) (action_executor se i page) action ?s3
          = Some (r, s4)"
        and fin: "s' = persist_storage env se (refresh_url env i page (emit (se_id se)
            (case r of
               Inr u \<Rightarrow> ActionCompleted i origin action
             | Inl e \<Rightarrow> ActionFailed i origin action (as_action_error (se_id se) e)) s4))"
        by (auto simp: perform_def Let_def split: option.splits)
      show ?thesis
        using Pair \<open>found = Inr p\<close> p clear act fin emit_published
        by (intro disjI2 exI conjI) (assumption | blast | simp)+
    qed
  qed
qed

text \<open>
  What a session shows after an engine restart: tabs at old URLs, each at most once and
  in the old order, none at a blank page, nothing else; the registry answers again, and
  exactly one tab is active unless none came back.
\<close>

theorem recovered_session_shows_old_tabs:
  "subseq (map ps_url (pr_slots (hb_pages (recover env se context s))))
     (filter (\<lambda>url. \<not> blank_url url) (map ps_url (pr_slots (hb_pages s)))) \<and>
   accepts_new_page (hb_pages (recover env se context s)) \<and>
   length (filter ps_active (pr_slots (hb_pages (recover env se context s)))) =
     (if pr_slots (hb_pages (recover env se context s)) = [] then 0 else 1)"
proof -
  let ?saved = "fst (begin_recovery (hb_pages s))"
  obtain opened r where r: "hb_pages (recover env se context s) = finish_recovery (rebuild ?saved opened) r"
    using recover_registry [of env se "context" s] by (elim exE)
  have "map ps_url (pr_slots (finish_recovery (rebuild ?saved opened) r)) = map ps_url (rebuild ?saved opened)"
    by (cases "rebuild ?saved opened") (auto simp: finish_recovery_def drop_gate_def)
  moreover have "map rp_url ?saved = map ps_url (pr_slots (hb_pages s))"
    by (simp add: begin_recovery_def)
  ultimately show ?thesis
    unfolding r using rebuild_urls [of ?saved opened] finish_active_count [of ?saved opened r]
    by (simp add: accepts_new_page_def finish_recovery_def drop_gate_def)
qed

section \<open>Witnesses\<close>

theorem opened_page_is_tracked_or_closed_witness:
  "\<exists>s2. ensure_page lone_env asking_session fresh_hub =
     (Inr (PageId ''p'', ()), emit (SessionId ''s'') (PageOpened (PageId ''p'')) s2) \<and> tracks (PageId ''p'') (hb_pages s2)"
proof -
  have "active_page (hb_pages fresh_hub) = None" "accepts_new_page (hb_pages fresh_hub)"
    "cx_open_page (en_context lone_env) (hb_context fresh_hub) fresh_hub = (Inr (PageId ''p'', ()), tick 1 fresh_hub)"
    by (simp_all add: fresh_hub_def active_page_def registry_new_def accepts_new_page_def lone_env_def lone_context_def)
  from opened_page_is_tracked_or_closed [OF this, of asking_session] show ?thesis
    by (auto simp: asking_session_def fresh_hub_def registry_new_def tick_def)
qed

theorem action_supervised_and_recorded_witness:
  "\<exists>r s' s2 s3. execute lone_env asking_session Back Human fresh_hub = Some (r, s') \<and>
     published (SessionId ''s'') (ActionRequested (PageId ''p'') Human Back) s2 (s3 :: lone_hub)"
proof -
  obtain s1 where ensure: "ensure_page lone_env asking_session fresh_hub = (Inr (PageId ''p'', ()), s1)"
    by (simp add: ensure_page_def fresh_hub_def active_page_def registry_new_def accepts_new_page_def
        lone_env_def lone_context_def admit_active_def tick_def)
  have "pa_go_back (en_page lone_env) () s = (Inl EngTerminated, tick 1 s)" for s
    by (simp add: lone_env_def lone_page_def still_page_def)
  then have "\<exists>r s'. execute lone_env asking_session Back Human fresh_hub = Some (r, s')"
    by (simp add: execute_def ensure supervise_def perform_def engine_call_def action_executor_def Let_def)
  then obtain r s' where run: "execute lone_env asking_session Back Human fresh_hub = Some (r, s')"
    by blast
  from action_supervised_and_recorded [OF run] ensure show ?thesis
    using run by (auto simp: asking_session_def)
qed

end
