(* ===== verification/Session_Manager.thy ===== *)
theory Session_Manager
  imports Session_Ops
begin

text \<open>
  The session manager, \<open>crates/session/src/manager.rs\<close>: one engine, many sessions, and the
  recovery task that rebuilds them after an engine replacement. Session objects are numbered
  in the order they are created and outlive their place in the map; an engine context is a
  number, alive while the current engine has it open. Every step is what one task does
  between two awaits on another lock, so a run of steps is an interleaving of session
  requests, closes, engine replacements and recoveries.
\<close>

section \<open>State\<close>

datatype close_phase =
    StillOpen
  | Removed
  | ClosingContext nat
  | ContextClosed
  | Forgotten

datatype recovery_phase =
    NotRecovering
  | ContextCreated nat
  | ContextSwapped

record session_object =
  ob_id :: session_id
  ob_epoch :: nat
  ob_context :: nat
  ob_close :: close_phase
  ob_recovery :: recovery_phase

record manager =
  mg_config :: session_config
  mg_running :: bool
  mg_epoch :: nat
  mg_backbone :: backbone
  mg_objects :: "session_object list"
  mg_sessions :: "(session_id \<times> nat) list"
  mg_live :: "nat list"
  mg_next_context :: nat

definition manager_new :: "session_config \<Rightarrow> manager" where
  "manager_new config =
     \<lparr>mg_config = config, mg_running = False, mg_epoch = 0, mg_backbone = backbone_new, mg_objects = [],
      mg_sessions = [], mg_live = [], mg_next_context = 0\<rparr>"

section \<open>Names\<close>

definition storage_file_name :: "session_id \<Rightarrow> session_error + string" where
  "storage_file_name i =
     (if \<not> is_storage_safe i
      then Inl (SeInvalidId
        (''session id '' @ debug_str (session_str i) @
         '' cannot name a storage file; use letters, digits, dashes, and underscores''))
      else Inr (session_str i @ ''.storage.json''))"

section \<open>Session requests\<close>

text \<open>
  What the world answers to one request: the launch (backend and version, or why it failed),
  the engine of the supervisor, the new context, and the wall clock.
\<close>

record request_answers =
  ra_launch :: "engine_error + string \<times> string"
  ra_engine :: "engine_error + unit"
  ra_context :: "engine_error + unit"
  ra_wall :: string

text \<open>The launch runs under its own lock and re-checks the slot, so it is one step.\<close>

definition ensure_running :: "request_answers \<Rightarrow> session_id \<Rightarrow> manager \<Rightarrow> engine_error option \<times> manager" where
  "ensure_running ra i s =
     (if mg_running s then (None, s)
      else
        (case ra_launch ra of
           Inl e \<Rightarrow> (Some e, s)
         | Inr (backend, version) \<Rightarrow>
             (None, s\<lparr>mg_running := True, mg_epoch := mg_epoch s + 1,
                mg_backbone := publish i (EngineStarted backend version) (ra_wall ra) backbone_new\<rparr>)))"

definition capacity_detail :: "nat \<Rightarrow> string" where
  "capacity_detail n =
     ''this server holds '' @ show_nat n @ '' session(s) already; close one before opening another''"

definition insert_session :: "request_answers \<Rightarrow> session_id \<Rightarrow> manager \<Rightarrow> manager" where
  "insert_session ra i s =
     s\<lparr>mg_objects := mg_objects s @
          [\<lparr>ob_id = i, ob_epoch = mg_epoch s, ob_context = mg_next_context s, ob_close = StillOpen,
            ob_recovery = NotRecovering\<rparr>],
       mg_sessions := mg_sessions s @ [(i, length (mg_objects s))],
       mg_live := mg_live s @ [mg_next_context s],
       mg_next_context := mg_next_context s + 1,
       mg_backbone := publish i SessionStarted (ra_wall ra) (mg_backbone s)\<rparr>"

definition manager_session ::
  "request_answers \<Rightarrow> session_id \<Rightarrow> manager \<Rightarrow> (session_error + nat) \<times> manager" where
  "manager_session ra i s =
     (case storage_file_name i of
        Inl e \<Rightarrow> (Inl e, s)
      | Inr name \<Rightarrow>
          (case ensure_running ra i s of
             (Some e, s1) \<Rightarrow> (Inl (SeEngine e), s1)
           | (None, s1) \<Rightarrow>
               (case map_of (mg_sessions s1) i of
                  Some n \<Rightarrow> (Inr n, s1)
                | None \<Rightarrow>
                    (if length (mg_sessions s1) \<ge> sc_max_sessions (mg_config s1)
                     then (Inl (SeCapacity (capacity_detail (sc_max_sessions (mg_config s1)))), s1)
                     else
                       (case ra_engine ra of
                          Inl e \<Rightarrow> (Inl (SeEngine e), s1)
                        | Inr u \<Rightarrow>
                            (case ra_context ra of
                               Inl e \<Rightarrow> (Inl (SeEngine e), s1)
                             | Inr u \<Rightarrow> (Inr (length (mg_objects s1)), insert_session ra i s1)))))))"

definition get_session :: "session_id \<Rightarrow> manager \<Rightarrow> nat option" where
  "get_session i s = map_of (mg_sessions s) i"

definition session_ids :: "manager \<Rightarrow> session_id list" where
  "session_ids s = map fst (mg_sessions s)"

definition manager_backbone :: "manager \<Rightarrow> backbone option" where
  "manager_backbone s = (if mg_running s then Some (mg_backbone s) else None)"

section \<open>Closing\<close>

definition on_object :: "nat \<Rightarrow> (session_object \<Rightarrow> session_object) \<Rightarrow> manager \<Rightarrow> manager" where
  "on_object n f s =
     (if n < length (mg_objects s) then s\<lparr>mg_objects := (mg_objects s)[n := f (mg_objects s ! n)]\<rparr> else s)"

definition drop_context :: "nat \<Rightarrow> manager \<Rightarrow> manager" where
  "drop_context c s = s\<lparr>mg_live := removeAll c (mg_live s)\<rparr>"

text \<open>An object publishes on and forgets in the backbone it was created with.\<close>

definition object_backbone :: "nat \<Rightarrow> (session_id \<Rightarrow> backbone \<Rightarrow> backbone) \<Rightarrow> manager \<Rightarrow> manager" where
  "object_backbone n f s =
     (if n < length (mg_objects s) \<and> ob_epoch (mg_objects s ! n) = mg_epoch s
      then s\<lparr>mg_backbone := f (ob_id (mg_objects s ! n)) (mg_backbone s)\<rparr> else s)"

text \<open>
  \<open>close_session\<close> in its steps: the map entry goes under the lock; outside it the session's
  current context is read, then closed; the last event is published and the ring forgotten.
\<close>

definition close_remove :: "session_id \<Rightarrow> manager \<Rightarrow> manager" where
  "close_remove i s =
     (case map_of (mg_sessions s) i of
        None \<Rightarrow> s
      | Some n \<Rightarrow>
          on_object n (\<lambda>o'. o'\<lparr>ob_close := Removed\<rparr>)
            (s\<lparr>mg_sessions := filter (\<lambda>e. fst e \<noteq> i) (mg_sessions s)\<rparr>))"

definition close_read :: "nat \<Rightarrow> manager \<Rightarrow> manager" where
  "close_read n s =
     on_object n (\<lambda>o'. if ob_close o' = Removed then o'\<lparr>ob_close := ClosingContext (ob_context o')\<rparr> else o') s"

definition close_context :: "nat \<Rightarrow> manager \<Rightarrow> manager" where
  "close_context n s =
     (if n < length (mg_objects s) then
        (case ob_close (mg_objects s ! n) of
           ClosingContext c \<Rightarrow> drop_context c (on_object n (\<lambda>o'. o'\<lparr>ob_close := ContextClosed\<rparr>) s)
         | _ \<Rightarrow> s)
      else s)"

definition close_forget :: "string \<Rightarrow> nat \<Rightarrow> manager \<Rightarrow> manager" where
  "close_forget now n s =
     (if n < length (mg_objects s) \<and> ob_close (mg_objects s ! n) = ContextClosed
      then object_backbone n (\<lambda>i b. forget i (publish i SessionClosed now b))
             (on_object n (\<lambda>o'. o'\<lparr>ob_close := Forgotten\<rparr>) s)
      else s)"

definition manager_shutdown :: "manager \<Rightarrow> manager" where
  "manager_shutdown s = s\<lparr>mg_running := False, mg_sessions := [], mg_live := []\<rparr>"

section \<open>Recovery\<close>

definition recovery_rounds :: nat where
  "recovery_rounds = 3"

fun recovery_retry_delay :: "nat \<Rightarrow> duration" where
  "recovery_retry_delay 0 = 0"
| "recovery_retry_delay (Suc 0) = from_millis 500"
| "recovery_retry_delay (Suc (Suc n)) = from_secs 1"

definition session_is_open :: "session_id \<Rightarrow> manager \<Rightarrow> bool" where
  "session_is_open i s \<longleftrightarrow> map_of (mg_sessions s) i \<noteq> None"

text \<open>A replaced engine takes every context of the old one with it.\<close>

definition engine_replaced :: "manager \<Rightarrow> manager" where
  "engine_replaced s = s\<lparr>mg_live := []\<rparr>"

text \<open>
  The membership check and the context for the rebuild. A watcher asks its own supervisor, so
  an object of an engine that was shut down gets no context.
\<close>

definition recover_create :: "nat \<Rightarrow> manager \<Rightarrow> manager" where
  "recover_create n s =
     (if n < length (mg_objects s) \<and> mg_running s \<and> ob_epoch (mg_objects s ! n) = mg_epoch s \<and>
         session_is_open (ob_id (mg_objects s ! n)) s \<and> ob_recovery (mg_objects s ! n) = NotRecovering
      then (on_object n (\<lambda>o'. o'\<lparr>ob_recovery := ContextCreated (mg_next_context s)\<rparr>) s)
             \<lparr>mg_live := mg_live s @ [mg_next_context s], mg_next_context := mg_next_context s + 1\<rparr>
      else s)"

text \<open>\<open>Session::recover\<close> installs the context and publishes.\<close>

definition recover_swap :: "string \<Rightarrow> nat \<Rightarrow> manager \<Rightarrow> manager" where
  "recover_swap now n s =
     (if n < length (mg_objects s) then
        (case ob_recovery (mg_objects s ! n) of
           ContextCreated c \<Rightarrow>
             object_backbone n (\<lambda>i b. publish i EngineRestarted now b)
               (on_object n (\<lambda>o'. o'\<lparr>ob_context := c, ob_recovery := ContextSwapped\<rparr>) s)
         | _ \<Rightarrow> s)
      else s)"

text \<open>The second membership check: a session closed meanwhile is closed again and forgotten.\<close>

definition recover_finish :: "nat \<Rightarrow> manager \<Rightarrow> manager" where
  "recover_finish n s =
     (if n < length (mg_objects s) \<and> ob_recovery (mg_objects s ! n) = ContextSwapped
      then
        (let s1 = on_object n (\<lambda>o'. o'\<lparr>ob_recovery := NotRecovering\<rparr>) s;
             o' = mg_objects s ! n
         in if session_is_open (ob_id o') s then s1
            else object_backbone n forget (drop_context (ob_context o') s1))
      else s)"

text \<open>
  One recovery pass when no other task interleaves: the rounds of the watcher over the sessions
  it snapshotted. \<open>up r\<close> says whether the supervisor has an engine in round \<open>r\<close>, \<open>creates r n\<close>
  whether it gives session object \<open>n\<close> a context. The pass answers the pauses it slept and the
  objects it gave up on.
\<close>

definition rebuild :: "string \<Rightarrow> nat \<Rightarrow> manager \<Rightarrow> manager" where
  "rebuild now n s = recover_finish n (recover_swap now n (recover_create n s))"

fun recovery_round :: "(nat \<Rightarrow> bool) \<Rightarrow> string \<Rightarrow> nat list \<Rightarrow> manager \<Rightarrow> nat list \<times> manager" where
  "recovery_round creates now [] s = ([], s)"
| "recovery_round creates now (n # ns) s =
     (if \<not> session_is_open (ob_id (mg_objects s ! n)) s then recovery_round creates now ns s
      else if creates n then recovery_round creates now ns (rebuild now n s)
      else (let (failed, t) = recovery_round creates now ns s in (n # failed, t)))"

fun recovery_loop ::
  "(nat \<Rightarrow> bool) \<Rightarrow> (nat \<Rightarrow> nat \<Rightarrow> bool) \<Rightarrow> string \<Rightarrow> nat \<Rightarrow> nat \<Rightarrow> nat list \<Rightarrow> manager \<Rightarrow>
     duration list \<times> nat list \<times> manager" where
  "recovery_loop up creates now 0 r remaining s = ([], remaining, s)"
| "recovery_loop up creates now (Suc rounds) r remaining s =
     (if \<not> up r then ([recovery_retry_delay r], remaining, s)
      else
        (let (failed, t) = recovery_round (creates r) now remaining s
         in if failed = [] then ([recovery_retry_delay r], [], t)
            else (let (pauses, rest) = recovery_loop up creates now rounds (r + 1) failed t
                  in (recovery_retry_delay r # pauses, rest))))"

definition recovery_pass ::
  "(nat \<Rightarrow> bool) \<Rightarrow> (nat \<Rightarrow> nat \<Rightarrow> bool) \<Rightarrow> string \<Rightarrow> manager \<Rightarrow> duration list \<times> nat list \<times> manager" where
  "recovery_pass up creates now s =
     (if \<not> mg_running s \<or> mg_sessions s = [] then ([], [], s)
      else recovery_loop up creates now recovery_rounds 0 (map snd (mg_sessions s)) s)"

section \<open>Runs\<close>

datatype manager_op =
    MSession request_answers session_id
  | MCloseRemove session_id
  | MCloseRead nat
  | MCloseContext nat
  | MCloseForget string nat
  | MEngineReplaced
  | MRecoverCreate nat
  | MRecoverSwap string nat
  | MRecoverFinish nat
  | MShutdown

fun manager_step :: "manager_op \<Rightarrow> manager \<Rightarrow> manager" where
  "manager_step (MSession ra i) s = snd (manager_session ra i s)"
| "manager_step (MCloseRemove i) s = close_remove i s"
| "manager_step (MCloseRead n) s = close_read n s"
| "manager_step (MCloseContext n) s = close_context n s"
| "manager_step (MCloseForget now n) s = close_forget now n s"
| "manager_step MEngineReplaced s = engine_replaced s"
| "manager_step (MRecoverCreate n) s = recover_create n s"
| "manager_step (MRecoverSwap now n) s = recover_swap now n s"
| "manager_step (MRecoverFinish n) s = recover_finish n s"
| "manager_step MShutdown s = manager_shutdown s"

text \<open>An object with a close or a rebuild under way.\<close>

definition busy :: "session_object \<Rightarrow> bool" where
  "busy x \<longleftrightarrow> ob_recovery x \<noteq> NotRecovering \<or> ob_close x = Removed \<or>
     (\<exists>c. ob_close x = ClosingContext c)"

lemma busy_code [code]:
  "busy x \<longleftrightarrow> ob_recovery x \<noteq> NotRecovering \<or>
     (case ob_close x of Removed \<Rightarrow> True | ClosingContext c \<Rightarrow> True | _ \<Rightarrow> False)"
  by (auto simp: busy_def split: close_phase.splits)

text \<open>The map names this object, or nothing, for its id.\<close>

definition still_its_id :: "nat \<Rightarrow> manager \<Rightarrow> bool" where
  "still_its_id n s \<longleftrightarrow> map_of (mg_sessions s) (ob_id (mg_objects s ! n)) \<in> {None, Some n}"

text \<open>
  The schedules under which nothing leaks: an id is not requested again while an earlier object
  of that id is busy, a rebuild starts for the object the map still names, and it replaces a
  context that died with its engine.
\<close>

fun calm_step :: "manager_op \<Rightarrow> manager \<Rightarrow> bool" where
  "calm_step (MSession ra i) s \<longleftrightarrow>
     map_of (mg_sessions s) i \<noteq> None \<or> list_all (\<lambda>x. ob_id x = i \<longrightarrow> \<not> busy x) (mg_objects s)"
| "calm_step (MRecoverCreate n) s \<longleftrightarrow> n < length (mg_objects s) \<and> still_its_id n s"
| "calm_step (MRecoverSwap now n) s \<longleftrightarrow>
     n < length (mg_objects s) \<and> ob_context (mg_objects s ! n) \<notin> set (mg_live s)"
| "calm_step x s \<longleftrightarrow> True"

fun calm :: "manager_op list \<Rightarrow> manager \<Rightarrow> bool" where
  "calm [] s \<longleftrightarrow> True"
| "calm (x # xs) s \<longleftrightarrow> calm_step x s \<and> calm xs (manager_step x s)"

definition quiet :: "manager \<Rightarrow> bool" where
  "quiet s \<longleftrightarrow> list_all (\<lambda>x. \<not> busy x) (mg_objects s)"

section \<open>The session map\<close>

definition entry_ok :: "manager \<Rightarrow> session_id \<times> nat \<Rightarrow> bool" where
  "entry_ok s e \<longleftrightarrow>
     is_storage_safe (fst e) \<and> snd e < length (mg_objects s) \<and>
     ob_id (mg_objects s ! snd e) = fst e \<and> ob_close (mg_objects s ! snd e) = StillOpen \<and>
     ob_epoch (mg_objects s ! snd e) = mg_epoch s"

definition map_ok :: "manager \<Rightarrow> bool" where
  "map_ok s \<longleftrightarrow>
     distinct (map fst (mg_sessions s)) \<and> (\<forall>e \<in> set (mg_sessions s). entry_ok s e) \<and>
     length (mg_sessions s) \<le> sc_max_sessions (mg_config s) \<and>
     (\<not> mg_running s \<longrightarrow> mg_sessions s = [])"

lemma map_ok_new: "map_ok (manager_new c)"
  by (simp add: map_ok_def manager_new_def)

text \<open>A session request either leaves the objects and the map alone or inserts one fresh entry.\<close>

lemma ensure_running_frame:
  assumes "ensure_running ra i s = (r, s1)"
  shows "mg_objects s1 = mg_objects s" "mg_sessions s1 = mg_sessions s" "mg_config s1 = mg_config s"
        "mg_live s1 = mg_live s" "mg_next_context s1 = mg_next_context s"
        "r = None \<Longrightarrow> mg_running s1" "mg_running s \<Longrightarrow> s1 = s" "r \<noteq> None \<Longrightarrow> s1 = s"
        "mg_epoch s1 = mg_epoch s \<or> \<not> mg_running s"
  using assms by (auto simp: ensure_running_def split: if_splits sum.splits prod.splits)

lemma manager_session_cases:
  obtains (same) r where "manager_session ra i s = (r, s)"
  | (started) r s1 where "manager_session ra i s = (r, s1)" "ensure_running ra i s = (None, s1)"
  | (inserted) s1 where "ensure_running ra i s = (None, s1)"
      "manager_session ra i s = (Inr (length (mg_objects s1)), insert_session ra i s1)"
      "is_storage_safe i" "map_of (mg_sessions s1) i = None"
      "length (mg_sessions s1) < sc_max_sessions (mg_config s1)"
proof (cases "storage_file_name i")
  case (Inl e)
  then show thesis by (intro same) (simp add: manager_session_def)
next
  case (Inr name)
  then have safe: "is_storage_safe i"
    by (simp add: storage_file_name_def split: if_splits)
  obtain r s1 where er: "ensure_running ra i s = (r, s1)" by fastforce
  show thesis
  proof (cases r)
    case (Some e)
    then show thesis
      using er Inr ensure_running_frame(8) [OF er] by (intro same) (simp add: manager_session_def)
  next
    case None
    note unf = manager_session_def Inr er None
    show thesis
    proof (cases "map_of (mg_sessions s1) i")
      case (Some n)
      then show thesis using er None by (intro started) (simp_all add: unf)
    next
      case fresh: None
      show thesis
      proof (cases "length (mg_sessions s1) \<ge> sc_max_sessions (mg_config s1)")
        case True
        then show thesis using er None fresh by (intro started) (simp_all add: unf)
      next
        case False
        show thesis
        proof (cases "ra_engine ra")
          case (Inl e)
          then show thesis using er None fresh False by (intro started) (simp_all add: unf)
        next
          case engine: (Inr u)
          show thesis
          proof (cases "ra_context ra")
            case (Inl e)
            then show thesis using er None fresh False engine by (intro started) (simp_all add: unf)
          next
            case (Inr u)
            then show thesis
              using er None fresh False engine safe by (intro inserted) (simp_all add: unf not_le)
          qed
        qed
      qed
    qed
  qed
qed

lemma on_object_simps [simp]:
  "mg_objects (on_object n f s) = (mg_objects s)[n := f (mg_objects s ! n)]"
  "mg_sessions (on_object n f s) = mg_sessions s" "mg_config (on_object n f s) = mg_config s"
  "mg_running (on_object n f s) = mg_running s" "mg_epoch (on_object n f s) = mg_epoch s"
  "mg_live (on_object n f s) = mg_live s" "mg_next_context (on_object n f s) = mg_next_context s"
  "mg_backbone (on_object n f s) = mg_backbone s"
  by (auto simp: on_object_def list_update_beyond)

lemma nth_update_if: "m < length xs \<Longrightarrow> xs[n := x] ! m = (if n = m then x else xs ! m)"
  by (cases "n < length xs") (auto simp: nth_list_update list_update_beyond)

lemma object_backbone_simps [simp]:
  "mg_objects (object_backbone n f s) = mg_objects s"
  "mg_sessions (object_backbone n f s) = mg_sessions s" "mg_config (object_backbone n f s) = mg_config s"
  "mg_running (object_backbone n f s) = mg_running s" "mg_epoch (object_backbone n f s) = mg_epoch s"
  "mg_live (object_backbone n f s) = mg_live s" "mg_next_context (object_backbone n f s) = mg_next_context s"
  by (auto simp: object_backbone_def)

lemma drop_context_simps [simp]:
  "mg_objects (drop_context c s) = mg_objects s"
  "mg_sessions (drop_context c s) = mg_sessions s" "mg_config (drop_context c s) = mg_config s"
  "mg_running (drop_context c s) = mg_running s" "mg_epoch (drop_context c s) = mg_epoch s"
  "mg_live (drop_context c s) = removeAll c (mg_live s)"
  "mg_next_context (drop_context c s) = mg_next_context s" "mg_backbone (drop_context c s) = mg_backbone s"
  by (auto simp: drop_context_def)

lemmas close_defs = close_read_def close_context_def close_forget_def engine_replaced_def
  recover_create_def recover_swap_def recover_finish_def Let_def

text \<open>What every step but a request, a removal and a shutdown does to the objects and the map.\<close>

definition advances :: "manager \<Rightarrow> manager \<Rightarrow> bool" where
  "advances s t \<longleftrightarrow>
     mg_sessions t = mg_sessions s \<and> mg_config t = mg_config s \<and> mg_running t = mg_running s \<and>
     mg_epoch t = mg_epoch s \<and> length (mg_objects t) = length (mg_objects s) \<and>
     (\<forall>n < length (mg_objects s). ob_id (mg_objects t ! n) = ob_id (mg_objects s ! n) \<and>
        ob_epoch (mg_objects t ! n) = ob_epoch (mg_objects s ! n) \<and>
        (ob_close (mg_objects s ! n) = StillOpen \<longrightarrow> ob_close (mg_objects t ! n) = StillOpen))"

lemma advances_steps:
  "advances s (close_read n s)" "advances s (close_context n s)" "advances s (close_forget now n s)"
  "advances s (engine_replaced s)" "advances s (recover_create n s)" "advances s (recover_swap now n s)"
  "advances s (recover_finish n s)"
  by (auto simp: advances_def close_defs nth_update_if split: close_phase.split recovery_phase.split)

lemma map_ok_advances: "map_ok s \<Longrightarrow> advances s t \<Longrightarrow> map_ok t"
  by (fastforce simp: map_ok_def advances_def entry_ok_def)

lemma map_ok_insert:
  assumes "map_ok s" "is_storage_safe i" "map_of (mg_sessions s) i = None"
    "length (mg_sessions s) < sc_max_sessions (mg_config s)" "mg_running s"
  shows "map_ok (insert_session ra i s)"
  using assms by (auto simp: map_ok_def insert_session_def entry_ok_def nth_append map_of_eq_None_iff)

lemma map_ok_started:
  assumes "map_ok s" "ensure_running ra i s = (None, s1)"
  shows "map_ok s1"
  using assms(1) ensure_running_frame [OF assms(2)]
  by (cases "mg_running s") (simp_all add: map_ok_def entry_ok_def)

lemma map_ok_session:
  assumes "map_ok s"
  shows "map_ok (snd (manager_session ra i s))"
proof (cases rule: manager_session_cases [of ra i s])
  case (inserted s1)
  then show ?thesis
    using map_ok_insert [OF map_ok_started [OF assms inserted(1)]] ensure_running_frame(6) [OF inserted(1)]
    by simp
qed (auto simp: assms intro: map_ok_started [OF assms])

lemma map_ok_entry: "map_ok s \<Longrightarrow> e \<in> set (mg_sessions s) \<Longrightarrow> entry_ok s e"
  by (simp add: map_ok_def)

lemma map_ok_idle: "map_ok s \<Longrightarrow> \<not> mg_running s \<Longrightarrow> mg_sessions s = []"
  by (simp add: map_ok_def)

lemma map_ok_remove:
  assumes ok: "map_ok s"
  shows "map_ok (close_remove i s)"
proof (cases "map_of (mg_sessions s) i")
  case (Some n)
  then have "(i, n) \<in> set (mg_sessions s)" by (rule map_of_SomeD)
  moreover have "m \<noteq> n" if "(j, m) \<in> set (mg_sessions s)" "j \<noteq> i" for j m
    using map_ok_entry [OF ok that(1)] map_ok_entry [OF ok calculation] that(2) by (auto simp: entry_ok_def)
  ultimately show ?thesis
    using ok Some
    by (fastforce simp: map_ok_def close_remove_def entry_ok_def nth_list_update
          intro: le_trans [OF length_filter_le] distinct_map_filter)
qed (simp add: close_remove_def ok)

lemma map_ok_step: "map_ok s \<Longrightarrow> map_ok (manager_step x s)"
proof (cases x)
  case MShutdown
  then show "map_ok s \<Longrightarrow> ?thesis" by (simp add: manager_shutdown_def map_ok_def)
qed (simp_all add: map_ok_session map_ok_remove map_ok_advances [OF _ advances_steps(1)]
       map_ok_advances [OF _ advances_steps(2)] map_ok_advances [OF _ advances_steps(3)]
       map_ok_advances [OF _ advances_steps(4)] map_ok_advances [OF _ advances_steps(5)]
       map_ok_advances [OF _ advances_steps(6)] map_ok_advances [OF _ advances_steps(7)])

interpretation session_map: guarded_state "manager_new c" manager_step map_ok
  by unfold_locales (simp_all add: map_ok_new map_ok_step)

lemma config_step: "mg_config (manager_step x s) = mg_config s"
proof (cases x)
  case (MSession ra i)
  then show ?thesis
    by (cases rule: manager_session_cases [of ra i s])
       (auto simp: ensure_running_frame insert_session_def)
qed (auto simp: close_remove_def manager_shutdown_def close_defs
       split: option.split close_phase.split recovery_phase.split)

lemma config_run: "mg_config (run_ops manager_step xs s) = mg_config s"
  by (induction xs arbitrary: s) (simp_all add: config_step)

lemma storage_file_name_inject:
  "storage_file_name i = Inr f \<Longrightarrow> storage_file_name j = Inr f \<Longrightarrow> i = j"
  by (cases i; cases j) (auto simp: storage_file_name_def split: if_splits)

lemma storage_file_name_flat:
  "is_storage_safe i \<Longrightarrow> \<exists>f. storage_file_name i = Inr f \<and> CHR ''/'' \<notin> set f \<and> backslash \<notin> set f"
  using storage_safe_bytes by (fastforce simp: storage_file_name_def)

section \<open>Every live context has an owner\<close>

definition holds :: "manager \<Rightarrow> nat \<Rightarrow> nat \<Rightarrow> bool" where
  "holds s n c \<longleftrightarrow>
     n < length (mg_objects s) \<and>
     (let x = mg_objects s ! n
      in ob_recovery x = ContextCreated c \<or> ob_close x = ClosingContext c \<or>
         ob_context x = c \<and>
           ((ob_id x, n) \<in> set (mg_sessions s) \<or> ob_close x = Removed \<or> ob_recovery x = ContextSwapped))"

definition live_held :: "manager \<Rightarrow> bool" where
  "live_held s \<longleftrightarrow> (\<forall>c \<in> set (mg_live s). \<exists>n. holds s n c)"

definition live_fresh :: "manager \<Rightarrow> bool" where
  "live_fresh s \<longleftrightarrow> distinct (mg_live s) \<and> (\<forall>c \<in> set (mg_live s). c < mg_next_context s)"

definition ids_kept :: "manager \<Rightarrow> bool" where
  "ids_kept s \<longleftrightarrow> (\<forall>n < length (mg_objects s). busy (mg_objects s ! n) \<longrightarrow> still_its_id n s)"

definition owned_ok :: "manager \<Rightarrow> bool" where
  "owned_ok s \<longleftrightarrow> map_ok s \<and> live_fresh s \<and> live_held s \<and> ids_kept s"

lemma owned_ok_new: "owned_ok (manager_new c)"
  by (simp add: owned_ok_def map_ok_new live_fresh_def live_held_def ids_kept_def)
     (simp add: manager_new_def)

lemma live_held_mono:
  assumes "live_held s" "set (mg_live t) \<subseteq> set (mg_live s)"
    "\<And>n c. c \<in> set (mg_live t) \<Longrightarrow> holds s n c \<Longrightarrow> holds t n c"
  shows "live_held t"
  using assms by (meson live_held_def subsetD)

lemma live_fresh_step: "live_fresh s \<Longrightarrow> live_fresh (manager_step x s)"
proof (cases x)
  case (MSession ra i)
  then show "live_fresh s \<Longrightarrow> ?thesis"
    by (cases rule: manager_session_cases [of ra i s])
       (auto simp: live_fresh_def ensure_running_frame insert_session_def less_Suc_eq)
qed (auto simp: live_fresh_def close_remove_def manager_shutdown_def close_defs less_Suc_eq distinct_removeAll
       split: option.split close_phase.split recovery_phase.split)

text \<open>Steps that leave the map alone.\<close>

lemma ids_kept_frame:
  assumes "ids_kept s" "mg_sessions t = mg_sessions s" "length (mg_objects t) = length (mg_objects s)"
    "\<And>n. n < length (mg_objects s) \<Longrightarrow> ob_id (mg_objects t ! n) = ob_id (mg_objects s ! n)"
    "\<And>n. n < length (mg_objects s) \<Longrightarrow> busy (mg_objects t ! n) \<Longrightarrow>
         busy (mg_objects s ! n) \<or> still_its_id n s"
  shows "ids_kept t"
  using assms by (simp add: ids_kept_def still_its_id_def) metis

lemma ids_kept_small:
  assumes "ids_kept s"
  shows "ids_kept (close_read n s)" "ids_kept (close_context n s)" "ids_kept (close_forget now n s)"
    "ids_kept (engine_replaced s)" "ids_kept (recover_swap now n s)" "ids_kept (recover_finish n s)"
    "still_its_id n s \<Longrightarrow> ids_kept (recover_create n s)"
  by (rule ids_kept_frame [OF assms];
      auto simp: close_defs nth_update_if busy_def split: close_phase.splits recovery_phase.splits if_splits)+

lemma live_held_small:
  assumes "live_held s"
  shows "live_held (close_read n s)" "live_held (close_context n s)" "live_held (close_forget now n s)"
    "live_held (engine_replaced s)"
    "ob_context (mg_objects s ! n) \<notin> set (mg_live s) \<Longrightarrow> live_held (recover_swap now n s)"
  by (rule live_held_mono [OF assms];
      auto simp: close_defs holds_def nth_update_if split: close_phase.splits recovery_phase.splits if_splits)+

lemma holds_create:
  assumes "holds s m c"
  shows "holds (recover_create n s) m c"
  using assms by (auto simp: holds_def recover_create_def nth_update_if Let_def)

lemma live_held_create:
  assumes "live_held s" shows "live_held (recover_create n s)"
proof (cases "recover_create n s = s")
  case False
  then have "holds (recover_create n s) n (mg_next_context s)" and
    "mg_live (recover_create n s) = mg_live s @ [mg_next_context s]"
    by (auto simp: holds_def recover_create_def nth_update_if split: if_split_asm)
  then show ?thesis
    using assms holds_create [of s] by (fastforce simp: live_held_def)
qed (simp add: assms)

lemma live_held_finish:
  assumes "map_ok s" "live_held s" "ids_kept s"
  shows "live_held (recover_finish n s)"
proof (rule live_held_mono [OF assms(2)])
  show "set (mg_live (recover_finish n s)) \<subseteq> set (mg_live s)"
    by (auto simp: recover_finish_def Let_def)
next
  fix m c assume live: "c \<in> set (mg_live (recover_finish n s))" and held: "holds s m c"
  have "(ob_id (mg_objects s ! n), n) \<in> set (mg_sessions s)"
    if "n < length (mg_objects s)" "ob_recovery (mg_objects s ! n) = ContextSwapped"
      "session_is_open (ob_id (mg_objects s ! n)) s"
    using assms(3) that map_of_SomeD
    by (fastforce simp: ids_kept_def still_its_id_def busy_def session_is_open_def)
  then show "holds (recover_finish n s) m c"
    using live held by (auto simp: holds_def recover_finish_def nth_update_if Let_def split: if_splits)
qed

lemma remove_entry:
  assumes "map_ok s" "map_of (mg_sessions s) i = Some n"
  shows "(i, n) \<in> set (mg_sessions s)" "n < length (mg_objects s)" "ob_id (mg_objects s ! n) = i"
    "ob_close (mg_objects s ! n) = StillOpen"
    "(j, m) \<in> set (mg_sessions s) \<Longrightarrow> j = i \<longleftrightarrow> m = n"
proof -
  show e: "(i, n) \<in> set (mg_sessions s)" using assms(2) by (rule map_of_SomeD)
  show "n < length (mg_objects s)" "ob_id (mg_objects s ! n) = i" "ob_close (mg_objects s ! n) = StillOpen"
    using map_ok_entry [OF assms(1) e] by (auto simp: entry_ok_def)
  show "j = i \<longleftrightarrow> m = n" if "(j, m) \<in> set (mg_sessions s)"
    using map_ok_entry [OF assms(1) that] map_ok_entry [OF assms(1) e] that e assms(1)
    by (auto simp: entry_ok_def map_ok_def dest: eq_key_imp_eq_value)
qed

lemma live_held_remove:
  assumes "map_ok s" "live_held s"
  shows "live_held (close_remove i s)"
proof (cases "map_of (mg_sessions s) i")
  case (Some n)
  note e = remove_entry [OF assms(1) Some]
  show ?thesis
  proof (rule live_held_mono [OF assms(2)])
    show "set (mg_live (close_remove i s)) \<subseteq> set (mg_live s)"
      by (simp add: close_remove_def Some)
    fix m c assume "holds s m c"
    then show "holds (close_remove i s) m c"
      using e by (auto simp: holds_def close_remove_def Some nth_update_if Let_def)
  qed
qed (simp add: close_remove_def assms)

lemma ids_kept_remove:
  assumes "map_ok s" "ids_kept s"
  shows "ids_kept (close_remove i s)"
proof (cases "map_of (mg_sessions s) i")
  case (Some n)
  note e = remove_entry [OF assms(1) Some]
  show ?thesis
    using assms(2) e(2,3)
    by (auto simp: ids_kept_def still_its_id_def close_remove_def Some nth_update_if map_of_filter_key)
qed (simp add: close_remove_def assms)

lemma holds_insert:
  assumes "holds s m c" "map_of (mg_sessions s) i = None"
  shows "holds (insert_session ra i s) m c"
  using assms by (auto simp: holds_def insert_session_def nth_append Let_def)

lemma live_held_insert:
  assumes "live_held s" "map_of (mg_sessions s) i = None"
  shows "live_held (insert_session ra i s)"
proof -
  have "holds (insert_session ra i s) (length (mg_objects s)) (mg_next_context s)"
    by (simp add: holds_def insert_session_def)
  moreover have "mg_live (insert_session ra i s) = mg_live s @ [mg_next_context s]"
    by (simp add: insert_session_def)
  ultimately show ?thesis
    using assms holds_insert [of s _ _ i ra] by (fastforce simp: live_held_def)
qed

lemma ids_kept_insert:
  assumes "ids_kept s" "map_of (mg_sessions s) i = None" "\<forall>x \<in> set (mg_objects s). ob_id x = i \<longrightarrow> \<not> busy x"
  shows "ids_kept (insert_session ra i s)"
  using assms
  by (auto simp: ids_kept_def still_its_id_def insert_session_def nth_append less_Suc_eq busy_def
        map_add_def split: option.split)

lemma owned_ok_frame:
  assumes "owned_ok s" "map_ok t" "mg_objects t = mg_objects s" "mg_sessions t = mg_sessions s"
    "mg_live t = mg_live s" "mg_next_context t = mg_next_context s"
  shows "owned_ok t"
  using assms by (simp add: owned_ok_def live_fresh_def live_held_def holds_def ids_kept_def still_its_id_def)

lemma owned_ok_session:
  assumes "owned_ok s" "calm_step (MSession ra i) s"
  shows "owned_ok (snd (manager_session ra i s))"
proof (cases rule: manager_session_cases [of ra i s])
  case (started r s1)
  have "map_ok s1" using assms(1) map_ok_started [OF _ started(2)] by (simp add: owned_ok_def)
  then show ?thesis
    using owned_ok_frame [OF assms(1)] ensure_running_frame [OF started(2)] started(1) by simp
next
  case (inserted s1)
  note f = ensure_running_frame [OF inserted(1)]
  have "map_ok s1" using assms(1) map_ok_started [OF _ inserted(1)] by (simp add: owned_ok_def)
  then have "owned_ok s1"
    using owned_ok_frame [OF assms(1)] f by simp
  moreover have "map_ok (snd (manager_session ra i s))" "live_fresh (snd (manager_session ra i s))"
    using assms(1) live_fresh_step [of s "MSession ra i"] by (simp_all add: owned_ok_def map_ok_session)
  ultimately show ?thesis
    using assms(2) inserted f live_held_insert [of s1 i ra] ids_kept_insert [of s1 i ra]
    by (simp add: owned_ok_def list_all_iff)
qed (simp add: assms)

lemma owned_ok_step: "owned_ok s \<Longrightarrow> calm_step x s \<Longrightarrow> owned_ok (manager_step x s)"
proof (cases x)
  case MShutdown
  then show "owned_ok s \<Longrightarrow> ?thesis"
    using map_ok_step [of s MShutdown]
    by (simp add: owned_ok_def manager_shutdown_def live_fresh_def live_held_def ids_kept_def still_its_id_def)
next
  case (MSession ra i)
  then show "owned_ok s \<Longrightarrow> calm_step x s \<Longrightarrow> ?thesis" using owned_ok_session by simp
qed (use map_ok_step [of s x] live_fresh_step [of s x] in
  \<open>simp_all add: owned_ok_def ids_kept_small live_held_small live_held_create live_held_finish
     live_held_remove ids_kept_remove\<close>)

definition calm_manager_step :: "manager_op \<Rightarrow> manager \<Rightarrow> manager" where
  "calm_manager_step x s = (if calm_step x s then manager_step x s else s)"

interpretation context_ledger: guarded_state "manager_new c" calm_manager_step owned_ok
  by unfold_locales (simp_all add: owned_ok_new calm_manager_step_def owned_ok_step)

lemma calm_run_steps: "calm xs s \<Longrightarrow> run_ops manager_step xs s = run_ops calm_manager_step xs s"
  by (induction xs arbitrary: s) (auto simp: calm_manager_step_def)

lemma quiet_live:
  assumes "owned_ok s" "quiet s"
  shows "set (mg_live s) \<subseteq> (\<lambda>e. ob_context (mg_objects s ! snd e)) ` set (mg_sessions s)"
proof
  fix c assume "c \<in> set (mg_live s)"
  then obtain n where "holds s n c" using assms(1) by (auto simp: owned_ok_def live_held_def)
  moreover from this have "\<not> busy (mg_objects s ! n)"
    using assms(2) by (simp add: quiet_def list_all_length holds_def)
  ultimately show "c \<in> (\<lambda>e. ob_context (mg_objects s ! snd e)) ` set (mg_sessions s)"
    by (force simp: holds_def busy_def Let_def)
qed

lemma quiet_live_length:
  assumes "owned_ok s" "quiet s"
  shows "length (mg_live s) \<le> length (mg_sessions s)"
proof -
  have "length (mg_live s) = card (set (mg_live s))"
    using assms(1) by (simp add: owned_ok_def live_fresh_def distinct_card)
  also have "\<dots> \<le> card ((\<lambda>e. ob_context (mg_objects s ! snd e)) ` set (mg_sessions s))"
    using quiet_live [OF assms] by (rule card_mono [rotated]) simp
  also have "\<dots> \<le> length (mg_sessions s)"
    by (rule le_trans [OF card_image_le]) (simp_all add: card_length)
  finally show ?thesis .
qed

section \<open>What a recovery pass leaves\<close>

text \<open>A session the map names, with no rebuild under way.\<close>

definition settled :: "manager \<Rightarrow> nat \<Rightarrow> bool" where
  "settled s n \<longleftrightarrow>
     n < length (mg_objects s) \<and> mg_running s \<and> ob_epoch (mg_objects s ! n) = mg_epoch s \<and>
     map_of (mg_sessions s) (ob_id (mg_objects s ! n)) \<noteq> None \<and>
     ob_recovery (mg_objects s ! n) = NotRecovering"

lemma settled_record:
  "ob_recovery x = NotRecovering \<Longrightarrow>
     x\<lparr>ob_context := c, ob_recovery := NotRecovering\<rparr> = x\<lparr>ob_context := c\<rparr>"
  by (cases x) simp

lemma rebuild_simps:
  assumes "settled s n"
  shows "mg_objects (rebuild now n s) =
           (mg_objects s)[n := (mg_objects s ! n)\<lparr>ob_context := mg_next_context s\<rparr>]"
    "mg_sessions (rebuild now n s) = mg_sessions s" "mg_running (rebuild now n s) = mg_running s"
    "mg_epoch (rebuild now n s) = mg_epoch s" "mg_live (rebuild now n s) = mg_live s @ [mg_next_context s]"
    "mg_next_context (rebuild now n s) = mg_next_context s + 1"
  using assms
  by (auto simp: settled_def rebuild_def recover_create_def recover_swap_def recover_finish_def
        session_is_open_def Let_def settled_record)

text \<open>What a stretch of recovery does: it touches only the objects of \<open>done\<close>, and gives each a fresh live context.\<close>

definition rebuilt :: "nat set \<Rightarrow> manager \<Rightarrow> manager \<Rightarrow> bool" where
  "rebuilt ns s t \<longleftrightarrow>
     mg_sessions t = mg_sessions s \<and> mg_running t = mg_running s \<and> mg_epoch t = mg_epoch s \<and>
     length (mg_objects t) = length (mg_objects s) \<and> mg_next_context s \<le> mg_next_context t \<and>
     set (mg_live s) \<subseteq> set (mg_live t) \<and>
     (\<forall>n < length (mg_objects s). n \<notin> ns \<longrightarrow> mg_objects t ! n = mg_objects s ! n) \<and>
     (\<forall>n < length (mg_objects s). n \<in> ns \<longrightarrow>
        (\<exists>c. mg_objects t ! n = (mg_objects s ! n)\<lparr>ob_context := c\<rparr> \<and>
           mg_next_context s \<le> c \<and> c \<in> set (mg_live t)))"

lemma rebuiltD:
  assumes "rebuilt A s t"
  shows "mg_sessions t = mg_sessions s"
    "n < length (mg_objects s) \<Longrightarrow> n \<notin> A \<Longrightarrow> mg_objects t ! n = mg_objects s ! n"
    "n < length (mg_objects s) \<Longrightarrow> n \<in> A \<Longrightarrow>
      \<exists>c. mg_objects t ! n = (mg_objects s ! n)\<lparr>ob_context := c\<rparr> \<and>
         mg_next_context s \<le> c \<and> c \<in> set (mg_live t)"
  using assms unfolding rebuilt_def by (metis, metis, metis)

lemma rebuilt_refl: "rebuilt {} s s"
  by (simp add: rebuilt_def)

lemma rebuilt_trans:
  assumes "rebuilt A s t" "rebuilt B t u"
  shows "rebuilt (A \<union> B) s u"
proof -
  have "\<exists>c. mg_objects u ! n = (mg_objects s ! n)\<lparr>ob_context := c\<rparr> \<and>
           mg_next_context s \<le> c \<and> c \<in> set (mg_live u)"
    if n: "n < length (mg_objects s)" "n \<in> A \<union> B" for n
  proof (cases "n \<in> B")
    case True
    then obtain c where c: "mg_objects u ! n = (mg_objects t ! n)\<lparr>ob_context := c\<rparr>"
        "mg_next_context t \<le> c" "c \<in> set (mg_live u)"
      using assms n by (auto simp: rebuilt_def)
    moreover have "(mg_objects t ! n)\<lparr>ob_context := c\<rparr> = (mg_objects s ! n)\<lparr>ob_context := c\<rparr>"
      using assms(1) n(1) by (cases "n \<in> A") (auto simp: rebuilt_def)
    moreover have "mg_next_context s \<le> mg_next_context t" using assms(1) by (simp add: rebuilt_def)
    ultimately show ?thesis by (metis le_trans)
  next
    case False
    then have "n \<in> A" "mg_objects u ! n = mg_objects t ! n" "set (mg_live t) \<subseteq> set (mg_live u)"
      using assms n by (simp_all add: rebuilt_def)
    moreover obtain c where "mg_objects t ! n = (mg_objects s ! n)\<lparr>ob_context := c\<rparr>"
        "mg_next_context s \<le> c" "c \<in> set (mg_live t)"
      using assms(1) n(1) calculation(1) unfolding rebuilt_def by blast
    ultimately show ?thesis by (intro exI [of _ c]) auto
  qed
  moreover have "mg_objects u ! n = mg_objects s ! n" if "n < length (mg_objects s)" "n \<notin> A \<union> B" for n
    using assms that by (simp add: rebuilt_def)
  moreover have "mg_sessions u = mg_sessions s" "mg_running u = mg_running s" "mg_epoch u = mg_epoch s"
    "length (mg_objects u) = length (mg_objects s)" "mg_next_context s \<le> mg_next_context u"
    "set (mg_live s) \<subseteq> set (mg_live u)"
    using assms unfolding rebuilt_def by (metis, metis, metis, metis, metis le_trans, metis subset_trans)
  ultimately show ?thesis unfolding rebuilt_def by blast
qed

lemma rebuilt_one:
  assumes "settled s n"
  shows "rebuilt {n} s (rebuild now n s)"
proof -
  have "\<exists>c. mg_objects (rebuild now n s) ! n = (mg_objects s ! n)\<lparr>ob_context := c\<rparr> \<and>
           mg_next_context s \<le> c \<and> c \<in> set (mg_live (rebuild now n s))"
    using assms by (intro exI [of _ "mg_next_context s"]) (simp add: rebuild_simps settled_def)
  then show ?thesis
    by (auto simp: rebuilt_def rebuild_simps [OF assms] nth_update_if)
qed

lemma rebuilt_settled: "rebuilt A s t \<Longrightarrow> settled s n \<Longrightarrow> settled t n"
  by (cases "n \<in> A") (auto simp: rebuilt_def settled_def)

lemma recovery_round_effect:
  assumes "\<forall>n \<in> set ns. settled s n" "recovery_round creates now ns s = (failed, t)"
  shows "failed = filter (\<lambda>n. \<not> creates n) ns \<and> rebuilt (set (filter creates ns)) s t"
  using assms
proof (induction ns arbitrary: s failed)
  case Nil
  then show ?case by (simp add: rebuilt_refl)
next
  case (Cons n ns)
  have n: "settled s n" "session_is_open (ob_id (mg_objects s ! n)) s"
    using Cons.prems(1) by (auto simp: settled_def session_is_open_def)
  show ?case
  proof (cases "creates n")
    case True
    note one = rebuilt_one [OF n(1), of now]
    have "failed = filter (\<lambda>n. \<not> creates n) ns \<and>
          rebuilt (set (filter creates ns)) (rebuild now n s) t"
      using Cons.prems n True rebuilt_settled [OF one] by (intro Cons.IH) auto
    then show ?thesis using True rebuilt_trans [OF one] by auto
  next
    case False
    then show ?thesis
      using Cons.prems n Cons.IH [of s] by (auto split: prod.splits)
  qed
qed

lemma recovery_loop_effect:
  assumes "\<forall>n \<in> set ns. settled s n"
    "recovery_loop up creates now rounds r ns s = (pauses, left, t)"
  shows "length pauses \<le> rounds \<and> pauses = map recovery_retry_delay [r..<r + length pauses] \<and>
     set left \<subseteq> set ns \<and> rebuilt (set ns - set left) s t \<and>
     ((\<forall>k. r \<le> k \<and> k < r + rounds \<longrightarrow> up k) \<longrightarrow>
       (\<forall>n \<in> set left. \<forall>k. r \<le> k \<and> k < r + rounds \<longrightarrow> \<not> creates k n))"
  using assms
proof (induction rounds arbitrary: r ns s pauses left t)
  case 0
  then show ?case by (auto simp: rebuilt_refl)
next
  case (Suc rounds)
  show ?case
  proof (cases "up r")
    case False
    then show ?thesis using Suc.prems by (auto simp: rebuilt_refl)
  next
    case True
    obtain failed u where ru: "recovery_round (creates r) now ns s = (failed, u)" by fastforce
    note eff = recovery_round_effect [OF Suc.prems(1) ru]
    show ?thesis
    proof (cases "failed = []")
      case finished: True
      then have "set (filter (creates r) ns) = set ns"
        using eff by (auto simp: filter_empty_conv)
      then show ?thesis using Suc.prems True ru finished eff by auto
    next
      case more: False
      obtain ps l v where rec: "recovery_loop up creates now rounds (r + 1) failed u = (ps, l, v)"
        by (metis prod_cases3)
      have st: "\<forall>n \<in> set failed. settled u n"
        using eff Suc.prems(1) rebuilt_settled by auto
      note ih = Suc.IH [OF st rec]
      have split: "set (filter (creates r) ns) \<union> (set failed - set l) = set ns - set l"
        using eff ih by auto
      have res: "pauses = recovery_retry_delay r # ps" "left = l" "t = v"
        using Suc.prems(2) True ru more rec by auto
      have "rebuilt (set ns - set left) s t"
        using rebuilt_trans [of "set (filter (creates r) ns)" s u "set failed - set l" v] eff ih split res
        by simp
      moreover have "pauses = map recovery_retry_delay [r..<r + length pauses]"
      proof -
        have "[r..<r + length pauses] = r # [r + 1..<(r + 1) + length ps]"
          using res by (subst upt_conv_Cons) (simp_all del: upt_Suc)
        then show ?thesis using ih res by (metis list.simps(9))
      qed
      moreover have "\<not> creates k n"
        if "\<forall>k. r \<le> k \<and> k < r + Suc rounds \<longrightarrow> up k" "n \<in> set left" "r \<le> k" "k < r + Suc rounds" for k n
      proof (cases "k = r")
        case True
        then show ?thesis using that(2) ih eff res by auto
      next
        case False
        then show ?thesis using that ih res by auto
      qed
      ultimately show ?thesis using ih res eff by auto
    qed
  qed
qed

section \<open>Concrete runs\<close>

definition granted :: request_answers where
  "granted =
     \<lparr>ra_launch = Inr (''cdp'', ''1''), ra_engine = Inr (), ra_context = Inr (), ra_wall = ''now''\<rparr>"

definition restart_run :: "manager_op list" where
  "restart_run =
     [MSession granted (SessionId ''a''), MSession granted (SessionId ''b''), MEngineReplaced,
      MRecoverCreate 0, MRecoverSwap ''now'' 0, MRecoverFinish 0, MCloseRemove (SessionId ''b''),
      MRecoverCreate 1, MCloseRead 1, MCloseContext 1, MCloseForget ''now'' 1]"

definition reopened_run :: "manager_op list" where
  "reopened_run =
     [MSession granted (SessionId ''a''), MEngineReplaced, MRecoverCreate 0,
      MCloseRemove (SessionId ''a''), MCloseRead 0, MCloseContext 0, MCloseForget ''now'' 0,
      MSession granted (SessionId ''a''), MRecoverSwap ''now'' 0, MRecoverFinish 0]"

definition late_session_run :: "manager_op list" where
  "late_session_run =
     [MEngineReplaced, MSession granted (SessionId ''a''), MRecoverCreate 0, MRecoverSwap ''now'' 0,
      MRecoverFinish 0]"

definition two_dead_sessions :: manager where
  "two_dead_sessions =
     run_ops manager_step
       [MSession granted (SessionId ''a''), MSession granted (SessionId ''b''), MEngineReplaced]
       (manager_new default_session_config)"

lemma granted_simps [simp]:
  "ra_launch granted = Inr (''cdp'', ''1'')" "ra_engine granted = Inr ()" "ra_context granted = Inr ()"
  by (simp_all add: granted_def)

lemma letter_names [simp]:
  "storage_file_name (SessionId ''a'') = Inr ''a.storage.json''"
  "storage_file_name (SessionId ''b'') = Inr ''b.storage.json''"
  by (simp_all add: storage_file_name_def is_storage_safe_def max_id_bytes_def Let_def)

lemma default_room [simp]: "sc_max_sessions default_session_config = 8"
  by (simp add: default_session_config_def)

lemmas manager_eval = manager_session_def ensure_running_def insert_session_def close_remove_def close_defs
  manager_new_def object_backbone_def on_object_def drop_context_def session_is_open_def
  still_its_id_def busy_def quiet_def

lemma restart_run_calm:
  "calm restart_run (manager_new default_session_config)"
  "quiet (run_ops manager_step restart_run (manager_new default_session_config))"
  by (simp_all add: restart_run_def manager_eval)

text \<open>
  Off the calm schedules contexts do leak. The membership check of a rebuild goes by the id, so
  a session closed and opened again under its id meanwhile hides that the rebuilt object is
  closed: context 1 stays open with nothing left to close it.
\<close>

lemma reopened_id_hides_a_closed_session:
  "quiet (run_ops manager_step reopened_run (manager_new default_session_config)) \<and>
   mg_live (run_ops manager_step reopened_run (manager_new default_session_config)) = [1, 2] \<and>
   map (\<lambda>e. ob_context (mg_objects (run_ops manager_step reopened_run
       (manager_new default_session_config)) ! snd e))
     (mg_sessions (run_ops manager_step reopened_run (manager_new default_session_config))) = [2]"
  by (simp add: reopened_run_def manager_eval)

text \<open>
  A session created on the new engine before the watcher takes its snapshot is rebuilt like the
  others, and its first, live context is replaced without being closed.
\<close>

lemma recovery_abandons_a_live_context:
  "quiet (run_ops manager_step late_session_run (manager_new default_session_config)) \<and>
   mg_live (run_ops manager_step late_session_run (manager_new default_session_config)) = [0, 1] \<and>
   map (\<lambda>e. ob_context (mg_objects (run_ops manager_step late_session_run
       (manager_new default_session_config)) ! snd e))
     (mg_sessions (run_ops manager_step late_session_run (manager_new default_session_config))) = [1]"
  by (simp add: late_session_run_def manager_eval)

lemma two_dead_sessions_ok: "map_ok two_dead_sessions" "quiet two_dead_sessions"
  by (simp_all add: two_dead_sessions_def manager_eval map_ok_def entry_ok_def is_storage_safe_def max_id_bytes_def)

lemma two_dead_sessions_pass:
  "\<exists>t. recovery_pass (\<lambda>r. True) (\<lambda>r n. n = 0 \<or> r = 1) ''now'' two_dead_sessions =
     ([0, from_millis 500], [], t)"
  by (simp add: recovery_pass_def two_dead_sessions_def manager_eval recovery_rounds_def numeral_3_eq_3
       numeral_2_eq_2 rebuild_def)

section \<open>Properties\<close>

text \<open>
  C21. In every interleaving of requests, closes, engine replacements, recoveries and
  shutdowns: the map never holds more sessions than configured, one per id; every id in it
  names a storage file of its own, a flat file name that cannot leave the state directory; and
  every entry leads to an open session of that id.
\<close>
theorem open_sessions_bounded_and_named:
  fixes c :: session_config and xs :: "manager_op list"
  defines "s \<equiv> run_ops manager_step xs (manager_new c)"
  shows "length (session_ids s) \<le> sc_max_sessions c \<and>
         distinct (map storage_file_name (session_ids s)) \<and>
         (\<forall>i \<in> set (session_ids s). \<exists>f n.
            storage_file_name i = Inr f \<and> CHR ''/'' \<notin> set f \<and> backslash \<notin> set f \<and>
            get_session i s = Some n \<and> n < length (mg_objects s) \<and>
            ob_id (mg_objects s ! n) = i \<and> ob_close (mg_objects s ! n) = StillOpen)"
proof (intro conjI ballI)
  have ok: "map_ok s" unfolding s_def by (rule session_map.run_inv)
  then show "length (session_ids s) \<le> sc_max_sessions c"
    by (simp add: map_ok_def session_ids_def s_def config_run) (simp add: manager_new_def)
  have safe: "is_storage_safe i" if "i \<in> set (session_ids s)" for i
    using that ok by (auto simp: session_ids_def map_ok_def entry_ok_def)
  have "inj_on storage_file_name (set (session_ids s))"
    by (intro inj_onI) (metis safe storage_file_name_flat storage_file_name_inject)
  moreover have "distinct (session_ids s)" using ok by (simp add: map_ok_def session_ids_def)
  ultimately show "distinct (map storage_file_name (session_ids s))" by (simp add: distinct_map)
  fix i assume i: "i \<in> set (session_ids s)"
  then obtain n where n: "get_session i s = Some n"
    unfolding get_session_def session_ids_def by (metis map_of_eq_None_iff option.exhaust set_map)
  then show "\<exists>f n. storage_file_name i = Inr f \<and> CHR ''/'' \<notin> set f \<and> backslash \<notin> set f \<and>
      get_session i s = Some n \<and> n < length (mg_objects s) \<and>
      ob_id (mg_objects s ! n) = i \<and> ob_close (mg_objects s ! n) = StillOpen"
    using storage_file_name_flat [OF safe [OF i]] remove_entry [OF ok n [unfolded get_session_def]] by blast
qed

theorem open_sessions_bounded_and_named_witness:
  "length (session_ids (run_ops manager_step restart_run (manager_new default_session_config))) \<le> 8 \<and>
   (\<exists>n. get_session (SessionId ''a'')
      (run_ops manager_step restart_run (manager_new default_session_config)) = Some n)"
proof -
  have "SessionId ''a'' \<in>
      set (session_ids (run_ops manager_step restart_run (manager_new default_session_config)))"
    by (simp add: session_ids_def restart_run_def manager_eval)
  then show ?thesis
    using open_sessions_bounded_and_named [where c = default_session_config and xs = restart_run] by auto
qed

text \<open>
  A refused session request leaves no trace but a started engine: an error changes no
  session, no object and no context, and an id that cannot name a storage file is refused before
  anything starts. A granted request answers an open session of that id, and asking for it again
  answers the same one and changes nothing.
\<close>
theorem session_request_all_or_nothing:
  "case manager_session ra i s of
     (Inl e, t) \<Rightarrow>
       mg_sessions t = mg_sessions s \<and> mg_objects t = mg_objects s \<and> mg_live t = mg_live s \<and>
       (is_storage_safe i \<or> (t = s \<and> (\<exists>d. e = SeInvalidId d)))
   | (Inr n, t) \<Rightarrow>
       is_storage_safe i \<and> get_session i t = Some n \<and> mg_running t \<and>
       manager_session ra' i t = (Inr n, t) \<and>
       (get_session i s = None \<or> get_session i s = Some n \<and> mg_objects t = mg_objects s)"
proof -
  obtain r t where rt: "manager_session ra i s = (r, t)" by fastforce
  show ?thesis
  proof (cases r)
    case (Inl e)
    then show ?thesis
      using rt
      by (auto simp: manager_session_def storage_file_name_def dest: ensure_running_frame
            split: if_splits sum.splits prod.splits option.splits)
  next
    case (Inr n)
    have again: "manager_session ra' i t = (Inr n, t)"
      if "is_storage_safe i" "map_of (mg_sessions t) i = Some n" "mg_running t"
      using that by (simp add: manager_session_def storage_file_name_def ensure_running_def)
    have "is_storage_safe i \<and> map_of (mg_sessions t) i = Some n \<and> mg_running t \<and>
        (map_of (mg_sessions s) i = None \<or>
         map_of (mg_sessions s) i = Some n \<and> mg_objects t = mg_objects s)"
      using rt Inr
      by (auto simp: manager_session_def storage_file_name_def insert_session_def map_add_def
            dest: ensure_running_frame split: if_splits sum.splits prod.splits option.splits)
    then show ?thesis using rt Inr again by (simp add: get_session_def)
  qed
qed



lemma recovery_pass_cases:
  assumes "map_ok s" "recovery_pass up creates now s = (pauses, left, t)"
  obtains (idle) "mg_sessions s = []" "pauses = []" "left = []" "t = s"
    | (run) "mg_running s"
        "recovery_loop up creates now recovery_rounds 0 (map snd (mg_sessions s)) s = (pauses, left, t)"
proof (cases "\<not> mg_running s \<or> mg_sessions s = []")
  case True
  then have "mg_sessions s = []" using map_ok_idle [OF assms(1)] by blast
  then have "recovery_pass up creates now s = ([], [], s)" by (simp add: recovery_pass_def)
  then show thesis using assms(2) idle \<open>mg_sessions s = []\<close> by (metis prod.inject)
next
  case False
  then have "recovery_pass up creates now s =
      recovery_loop up creates now recovery_rounds 0 (map snd (mg_sessions s)) s"
    by (simp add: recovery_pass_def)
  then show thesis using assms(2) run False by metis
qed

lemma listed_sessions_settled:
  assumes "map_ok s" "quiet s" "mg_running s" "n \<in> set (map snd (mg_sessions s))"
  shows "n < length (mg_objects s) \<and> settled s n"
proof -
  obtain i where i: "(i, n) \<in> set (mg_sessions s)" using assms(4) by auto
  have "entry_ok s (i, n)" using map_ok_entry [OF assms(1) i] .
  moreover have "\<not> busy (mg_objects s ! n)"
    using calculation assms(2) by (simp add: entry_ok_def quiet_def list_all_length)
  moreover have "map_of (mg_sessions s) i \<noteq> None" using i by (metis weak_map_of_SomeI option.distinct(1))
  ultimately show ?thesis using assms(3) by (auto simp: entry_ok_def settled_def busy_def)
qed

lemma recovery_pauses_short:
  assumes "m \<le> 3"
  shows "sum_list (map recovery_retry_delay [0..<m]) \<le> from_millis 1500"
proof -
  have "m = 0 \<or> m = 1 \<or> m = 2 \<or> m = 3" using assms by arith
  then show ?thesis
    by (elim disjE; simp add: numeral_2_eq_2 numeral_3_eq_3 upt_rec from_millis_def from_secs_def)
qed

text \<open>
  C23. One recovery pass, undisturbed: it tries at most three rounds with the pauses zero, half
  a second and one second; every session of the snapshot it did not give up on runs on a fresh
  live context, the others keep their objects as they were; the map and the engine stay; and no
  session is given up on that the engine, up in every round, would have given a context in one.
\<close>
theorem recovery_pass_bounded_and_complete:
  assumes "map_ok s" "quiet s" "recovery_pass up creates now s = (pauses, left, t)"
  shows "length pauses \<le> 3 \<and> sum_list pauses \<le> from_millis 1500 \<and>
     mg_sessions t = mg_sessions s \<and> set left \<subseteq> set (map snd (mg_sessions s)) \<and>
     (\<forall>n \<in> set (map snd (mg_sessions s)) - set left. \<exists>c.
        mg_objects t ! n = (mg_objects s ! n)\<lparr>ob_context := c\<rparr> \<and>
        mg_next_context s \<le> c \<and> c \<in> set (mg_live t)) \<and>
     (\<forall>n \<in> set left. mg_objects t ! n = mg_objects s ! n) \<and>
     ((\<forall>k<3. up k) \<longrightarrow> (\<forall>n \<in> set left. \<forall>k<3. \<not> creates k n))"
proof -
  let ?ns = "map snd (mg_sessions s)"
  from assms(1,3) show ?thesis
  proof (cases rule: recovery_pass_cases)
    case run
    note inside = listed_sessions_settled [OF assms(1,2) run(1)]
    then have "\<forall>n \<in> set ?ns. settled s n" by blast
    note eff = recovery_loop_effect [OF this run(2)]
    have len: "length pauses \<le> 3" using eff by (simp add: recovery_rounds_def)
    have "pauses = map recovery_retry_delay [0..<length pauses]" using eff by simp
    then have "sum_list pauses \<le> from_millis 1500" using recovery_pauses_short [OF len] by metis
    moreover have "(\<forall>k<3. up k) \<longrightarrow> (\<forall>n \<in> set left. \<forall>k<3. \<not> creates k n)"
      using eff by (simp add: recovery_rounds_def)
    moreover have rb: "rebuilt (set ?ns - set left) s t" using eff by (elim conjE)
    moreover have left: "set left \<subseteq> set ?ns" using eff by (elim conjE)
    moreover have "mg_objects t ! n = mg_objects s ! n" if "n \<in> set left" for n
      using rebuiltD(2) [OF rb] inside left that by blast
    moreover have "\<exists>c. mg_objects t ! n = (mg_objects s ! n)\<lparr>ob_context := c\<rparr> \<and>
        mg_next_context s \<le> c \<and> c \<in> set (mg_live t)" if "n \<in> set ?ns - set left" for n
      using rebuiltD(3) [OF rb] inside that by blast
    ultimately show ?thesis
      using len rebuiltD(1) [OF rb] by blast
  qed auto
qed

theorem recovery_pass_bounded_and_complete_witness:
  "\<exists>t. recovery_pass (\<lambda>r. True) (\<lambda>r n. n = 0 \<or> r = 1) ''now'' two_dead_sessions =
     ([0, from_millis 500], [], t) \<and> mg_sessions t = mg_sessions two_dead_sessions"
  using two_dead_sessions_pass recovery_pass_bounded_and_complete [OF two_dead_sessions_ok] by metis

end
