(* ===== verification/Dashboard_Auth.thy ===== *)
theory Dashboard_Auth
  imports Prelude "HOL-Library.Word"
begin

unbundle bit_operations_syntax

text \<open>
  The endpoint gate of the dashboard, \<open>crates/dashboard/src/auth.rs\<close>: the \<open>Host\<close> and
  \<open>Origin\<close> checks, the token from the query or a cookie with its comparison over machine
  words, and the hardening headers of every response. A header map is the list of its entries,
  names in lower case; strings are byte strings.
\<close>

section \<open>Headers\<close>

type_synonym headers = "(string \<times> string) list"

definition header_get :: "string \<Rightarrow> headers \<Rightarrow> string option" where
  "header_get name hs = map_of hs name"

definition header_get_all :: "string \<Rightarrow> headers \<Rightarrow> string list" where
  "header_get_all name hs = map snd (filter (\<lambda>h. fst h = name) hs)"

definition header_insert :: "string \<Rightarrow> string \<Rightarrow> headers \<Rightarrow> headers" where
  "header_insert name v hs = filter (\<lambda>h. fst h \<noteq> name) hs @ [(name, v)]"

text \<open>\<open>HeaderValue::to_str\<close>: visible ASCII and tabs only.\<close>

definition visible_ascii :: "char \<Rightarrow> bool" where
  "visible_ascii c \<longleftrightarrow> (32 \<le> (of_char c :: nat) \<and> (of_char c :: nat) < 127) \<or> (of_char c :: nat) = 9"

definition to_str :: "string \<Rightarrow> string option" where
  "to_str v = (if list_all visible_ascii v then Some v else None)"

section \<open>Host and origin\<close>

definition loopback_name :: "string \<Rightarrow> bool" where
  "loopback_name name \<longleftrightarrow>
     name = ''127.0.0.1'' \<or> eq_ignore_ascii_case name ''localhost'' \<or> name = ''::1''"

definition split_authority :: "string \<Rightarrow> (string \<times> nat option) option" where
  "split_authority authority =
     (case strip_prefix ''['' authority of
        Some rest \<Rightarrow>
          (case split_once (CHR '']'') rest of
             None \<Rightarrow> None
           | Some (host, after) \<Rightarrow>
               (case strip_prefix '':'' after of
                  None \<Rightarrow> Some (host, None)
                | Some port \<Rightarrow>
                    (if port = [] then Some (host, None)
                     else (case parse_uint u16_max port of None \<Rightarrow> None | Some p \<Rightarrow> Some (host, Some p)))))
      | None \<Rightarrow>
          (case rsplit_once (CHR '':'') authority of
             Some (host, port) \<Rightarrow>
               (case parse_uint u16_max port of None \<Rightarrow> None | Some p \<Rightarrow> Some (host, Some p))
           | None \<Rightarrow> Some (authority, None)))"

definition effective_port :: "string \<Rightarrow> nat option \<Rightarrow> nat option" where
  "effective_port scheme port =
     opt_or port (if scheme = ''http'' then Some 80 else if scheme = ''https'' then Some 443 else None)"

definition host_allowed :: "headers \<Rightarrow> bool" where
  "host_allowed hs =
     (case Option.bind (header_get ''host'' hs) to_str of
        None \<Rightarrow> False
      | Some host \<Rightarrow>
          (case split_authority host of None \<Rightarrow> False | Some (name, port) \<Rightarrow> loopback_name name))"

definition origin_allowed :: "headers \<Rightarrow> nat \<Rightarrow> bool" where
  "origin_allowed hs bound_port =
     (case Option.bind (header_get ''origin'' hs) to_str of
        None \<Rightarrow> True
      | Some origin \<Rightarrow>
          (case split_once_str ''://'' origin of
             None \<Rightarrow> False
           | Some (scheme, authority) \<Rightarrow>
               (case split_authority authority of
                  None \<Rightarrow> False
                | Some (name, port) \<Rightarrow>
                    loopback_name name \<and> effective_port scheme port = Some bound_port)))"

section \<open>The token\<close>

definition token_cookie :: string where
  "token_cookie = ''rutter_token''"

definition cookie_tokens :: "headers \<Rightarrow> string list" where
  "cookie_tokens hs =
     List.map_filter (\<lambda>part. strip_prefix (token_cookie @ ''='') (trim part))
       (concat (map (split_on (\<lambda>c. c = CHR '';''))
         (List.map_filter to_str (header_get_all ''cookie'' hs))))"

definition cookie_safe :: "string \<Rightarrow> bool" where
  "cookie_safe token = list_all (\<lambda>c. is_alphanumeric c \<or> c \<in> set ''-_.~'') token"

definition token_cookie_header :: "string \<Rightarrow> string option" where
  "token_cookie_header token =
     (if \<not> cookie_safe token then None
      else Some (token_cookie @ ''='' @ token @ ''; Path=/; HttpOnly; SameSite=Strict''))"

text \<open>
  The comparison over machine words: the length difference is cut to 32 bits, and every byte
  position up to the longer length is or-ed in, a missing byte read as zero.
\<close>

definition byte_at :: "string \<Rightarrow> nat \<Rightarrow> 8 word" where
  "byte_at s i = (if i < length s then word_of_nat (of_char (s ! i)) else 0)"

definition constant_time_eq :: "string \<Rightarrow> string \<Rightarrow> bool" where
  "constant_time_eq a b =
     (let diff = ucast ((word_of_nat (length a) :: 64 word) XOR word_of_nat (length b)) :: 32 word
      in foldl (\<lambda>d i. d OR ucast (byte_at a i XOR byte_at b i)) diff [0..<max (length a) (length b)] = 0)"

definition token_ok :: "string \<Rightarrow> headers \<Rightarrow> string option \<Rightarrow> bool" where
  "token_ok token hs provided =
     (case provided of
        Some p \<Rightarrow> constant_time_eq p token
      | None \<Rightarrow> list_ex (\<lambda>t. constant_time_eq t token) (cookie_tokens hs))"

type_synonym query = "(string \<times> string) list"

definition access_allowed :: "string \<Rightarrow> nat \<Rightarrow> headers \<Rightarrow> query \<Rightarrow> bool" where
  "access_allowed token port hs q \<longleftrightarrow>
     host_allowed hs \<and> origin_allowed hs port \<and> token_ok token hs (map_of q ''token'')"

section \<open>Hardening\<close>

definition hardening_headers :: headers where
  "hardening_headers =
     [(''cache-control'', ''no-store''), (''referrer-policy'', ''no-referrer''),
      (''x-content-type-options'', ''nosniff''), (''x-frame-options'', ''DENY''),
      (''content-security-policy'', ''frame-ancestors '' @ [CHR 0x27] @ ''none'' @ [CHR 0x27])]"

definition harden :: "headers \<Rightarrow> headers" where
  "harden hs = foldl (\<lambda>acc (name, v). header_insert name v acc) hs hardening_headers"

section \<open>The comparison is equality\<close>

lemma or_fold_zero:
  "foldl (\<lambda>d i. d OR f i) (d :: 'w :: len word) is = 0 \<longleftrightarrow> d = 0 \<and> (\<forall>i \<in> set is. f i = 0)"
  by (induction "is" arbitrary: d) (auto simp: or_eq_0_iff)

lemma ucast_byte_zero: "(ucast (w :: 8 word) :: 32 word) = 0 \<longleftrightarrow> w = 0"
  by transfer simp

lemma xor_zero_iff: "(a :: 'w :: len word) XOR b = 0 \<longleftrightarrow> a = b"
  by (metis xor.assoc xor.left_neutral xor.right_neutral xor_self_eq)

lemma cut_lengths:
  "ucast ((word_of_nat m :: 64 word) XOR word_of_nat n) = (word_of_nat m XOR word_of_nat n :: 32 word)"
  by transfer (simp add: take_bit_xor)

lemma byte_of_char_inject:
  "(word_of_nat (of_char c) :: 8 word) = word_of_nat (of_char d) \<longleftrightarrow> c = d"
  by (simp add: word_of_nat_eq_iff take_bit_eq_mod of_char_mod_256)

lemma constant_time_eq_iff:
  assumes "length a < 2 ^ 32" "length b < 2 ^ 32"
  shows "constant_time_eq a b \<longleftrightarrow> a = b"
proof -
  have lengths: "(word_of_nat (length a) :: 32 word) = word_of_nat (length b) \<longleftrightarrow> length a = length b"
    using assms by (simp add: word_of_nat_eq_iff take_bit_nat_eq_self)
  have "constant_time_eq a b \<longleftrightarrow>
      length a = length b \<and> (\<forall>i < max (length a) (length b). byte_at a i = byte_at b i)"
    by (simp add: constant_time_eq_def or_fold_zero ucast_byte_zero xor_zero_iff cut_lengths lengths Ball_def)
  also have "\<dots> \<longleftrightarrow> a = b"
    by (auto simp: list_eq_iff_nth_eq byte_at_def byte_of_char_inject)
  finally show ?thesis .
qed

text \<open>The cut to 32 bits is the only gap: lengths that differ by a multiple of \<open>2 ^ 32\<close> do not show.\<close>

lemma map_filter_mem: "x \<in> set (List.map_filter f xs) \<longleftrightarrow> (\<exists>y \<in> set xs. f y = Some x)"
  by (induction xs) (auto simp: List.map_filter_simps split: option.splits)

section \<open>What an authority names\<close>

text \<open>
  The readings of an authority: the bare name, the name with a port, and a bracketed name, whose
  tail counts as a port only after a colon and is not looked at otherwise.
\<close>

definition names :: "string \<Rightarrow> nat option \<Rightarrow> string \<Rightarrow> bool" where
  "names name port a \<longleftrightarrow>
     a = name \<and> port = None \<or>
     (\<exists>digits. a = name @ '':'' @ digits \<and> parse_uint u16_max digits = port \<and> port \<noteq> None) \<or>
     (\<exists>tail. a = ''['' @ name @ '']'' @ tail \<and>
        (port = None \<and> (tail = '':'' \<or> \<not> prefix '':'' tail) \<or>
         (\<exists>digits. tail = '':'' @ digits \<and> parse_uint u16_max digits = port \<and> port \<noteq> None)))"

lemma split_authority_names:
  assumes "split_authority a = Some (name, port)"
  shows "names name port a"
proof (cases "strip_prefix ''['' a")
  case (Some rest)
  then have a: "a = ''['' @ rest" by (simp add: strip_prefix_Some_iff)
  from assms Some obtain after where r: "split_once (CHR '']'') rest = Some (name, after)"
    and p: "(case strip_prefix '':'' after of None \<Rightarrow> Some (name, None)
        | Some port \<Rightarrow> if port = [] then Some (name, None)
            else (case parse_uint u16_max port of None \<Rightarrow> None | Some p \<Rightarrow> Some (name, Some p))) = Some (name, port)"
    by (auto simp: split_authority_def split: option.splits if_splits)
  have "rest = name @ '']'' @ after" using split_once_Some [OF r] by simp
  moreover have "port = None \<and> (after = '':'' \<or> \<not> prefix '':'' after) \<or>
      (\<exists>digits. after = '':'' @ digits \<and> parse_uint u16_max digits = port \<and> port \<noteq> None)"
    using p by (auto simp: strip_prefix_def prefix_def split: if_splits option.splits dest: sym)
  ultimately show ?thesis unfolding names_def a by auto
next
  case None
  then show ?thesis
    using assms rsplit_once_Some [of "CHR '':''" a]
    by (fastforce simp: split_authority_def names_def split: option.splits prod.splits)
qed

text \<open>
  The loopback authorities the gate takes, as a grammar of their own: a loopback name without a
  colon; a loopback name, a colon and a port (the bare IPv6 address included); or a loopback name
  in brackets, followed by a port, by a lone colon, or by any text that does not start with a
  colon.
\<close>

definition loopback_authority :: "string \<Rightarrow> nat option \<Rightarrow> bool" where
  "loopback_authority a port \<longleftrightarrow>
     (\<exists>name. loopback_name name \<and>
        (a = name \<and> CHR '':'' \<notin> set name \<and> port = None \<or>
         (\<exists>digits p. a = name @ '':'' @ digits \<and> parse_uint u16_max digits = Some p \<and> port = Some p) \<or>
         (\<exists>tail. a = ''['' @ name @ '']'' @ tail \<and> port = None \<and> (tail = '':'' \<or> \<not> prefix '':'' tail)) \<or>
         (\<exists>digits p. a = ''['' @ name @ '']:'' @ digits \<and> parse_uint u16_max digits = Some p \<and>
            port = Some p)))"

lemma loopback_name_chars:
  assumes "loopback_name name"
  shows "name \<noteq> []" "CHR ''['' \<notin> set name" "CHR '']'' \<notin> set name"
proof -
  have "ascii_lower c \<in> set ''localhost''" if "c \<in> set name" "eq_ignore_ascii_case name ''localhost''" for c
  proof -
    have "map ascii_lower name = ''localhost''"
      using that(2) by (simp add: eq_ignore_ascii_case_def ascii_lower_def is_upper_def)
    then show ?thesis using that(1) by (metis imageI set_map)
  qed
  moreover have "ascii_lower (CHR ''['') = CHR ''[''" "ascii_lower (CHR '']'') = CHR '']''"
    by (simp_all add: ascii_lower_def is_upper_def)
  ultimately show "CHR ''['' \<notin> set name" "CHR '']'' \<notin> set name"
    using assms by (fastforce simp: loopback_name_def)+
  show "name \<noteq> []"
    using assms by (auto simp: loopback_name_def eq_ignore_ascii_case_def)
qed

lemma bare_authority: "loopback_name name \<Longrightarrow> strip_prefix ''['' (name @ rest) = None"
  using loopback_name_chars [of name] by (cases name) (auto simp: strip_prefix_def)

lemma digits_no_colon: "parse_uint mx digits = Some p \<Longrightarrow> CHR '':'' \<notin> set digits"
  using parse_uint_bytes by (fastforce simp: is_digit_def)

lemma bracketed_authority:
  assumes "loopback_name name"
  shows "split_authority (''['' @ name @ '']'' @ tail) =
     (case strip_prefix '':'' tail of
        None \<Rightarrow> Some (name, None)
      | Some port \<Rightarrow>
          (if port = [] then Some (name, None)
           else (case parse_uint u16_max port of None \<Rightarrow> None | Some p \<Rightarrow> Some (name, Some p))))"
  using split_once_append [OF loopback_name_chars(3) [OF assms], of tail]
  by (simp add: split_authority_def strip_prefix_def)

lemma loopback_authority_iff:
  "loopback_authority a port \<longleftrightarrow> (\<exists>name. split_authority a = Some (name, port) \<and> loopback_name name)"
proof
  assume "loopback_authority a port"
  then obtain name where name: "loopback_name name" and
    "a = name \<and> CHR '':'' \<notin> set name \<and> port = None \<or>
     (\<exists>digits p. a = name @ '':'' @ digits \<and> parse_uint u16_max digits = Some p \<and> port = Some p) \<or>
     (\<exists>tail. a = ''['' @ name @ '']'' @ tail \<and> port = None \<and> (tail = '':'' \<or> \<not> prefix '':'' tail)) \<or>
     (\<exists>digits p. a = ''['' @ name @ '']:'' @ digits \<and> parse_uint u16_max digits = Some p \<and> port = Some p)"
    by (auto simp: loopback_authority_def)
  then consider (bare) "a = name" "CHR '':'' \<notin> set name" "port = None"
    | (port) digits p where "a = name @ '':'' @ digits" "parse_uint u16_max digits = Some p" "port = Some p"
    | (brackets) tail where "a = ''['' @ name @ '']'' @ tail" "port = None" "tail = '':'' \<or> \<not> prefix '':'' tail"
    | (ported) digits p where "a = ''['' @ name @ '']:'' @ digits" "parse_uint u16_max digits = Some p" "port = Some p"
    by blast
  then have "split_authority a = Some (name, port)"
  proof cases
    case bare
    then show ?thesis
      using bare_authority [OF name, of "[]"] by (simp add: split_authority_def rsplit_once_None_iff [THEN iffD2])
  next
    case port
    then show ?thesis
      using bare_authority [OF name, of "'':'' @ digits"]
        rsplit_once_append [OF digits_no_colon [OF port(2)], of name]
      by (simp add: split_authority_def)
  next
    case brackets
    then show ?thesis
      using bracketed_authority [OF name, of tail] by (auto simp: strip_prefix_def)
  next
    case ported
    then show ?thesis
      using bracketed_authority [OF name, of "'':'' @ digits"] parse_uint_not_Nil [OF ported(2)]
      by (simp add: strip_prefix_def)
  qed
  with name show "\<exists>name. split_authority a = Some (name, port) \<and> loopback_name name"
    by blast
next
  assume "\<exists>name. split_authority a = Some (name, port) \<and> loopback_name name"
  then obtain name where split: "split_authority a = Some (name, port)" and name: "loopback_name name"
    by blast
  from split_authority_names [OF split] consider (bare) "a = name" "port = None"
    | (port) digits where "a = name @ '':'' @ digits" "parse_uint u16_max digits = port" "port \<noteq> None"
    | (brackets) tail where "a = ''['' @ name @ '']'' @ tail" "port = None" "tail = '':'' \<or> \<not> prefix '':'' tail"
    | (ported) digits where "a = ''['' @ name @ '']:'' @ digits" "parse_uint u16_max digits = port" "port \<noteq> None"
    by (auto simp: names_def)
  then show "loopback_authority a port"
    unfolding loopback_authority_def
  proof cases
    case bare
    have "CHR '':'' \<notin> set name"
    proof
      assume "CHR '':'' \<in> set name"
      then have "rsplit_once (CHR '':'') name \<noteq> None" by (simp add: rsplit_once_None_iff)
      then show False
        using split bare bare_authority [OF name, of "[]"]
        by (auto simp: split_authority_def split: option.splits)
    qed
    with bare name show "\<exists>name. loopback_name name \<and>
        (a = name \<and> CHR '':'' \<notin> set name \<and> port = None \<or>
         (\<exists>digits p. a = name @ '':'' @ digits \<and> parse_uint u16_max digits = Some p \<and> port = Some p) \<or>
         (\<exists>tail. a = ''['' @ name @ '']'' @ tail \<and> port = None \<and> (tail = '':'' \<or> \<not> prefix '':'' tail)) \<or>
         (\<exists>digits p. a = ''['' @ name @ '']:'' @ digits \<and> parse_uint u16_max digits = Some p \<and>
            port = Some p))" by blast
  qed (use name in \<open>blast+\<close>)
qed

lemma cookie_token_text:
  assumes "t \<in> set (cookie_tokens hs)"
  shows "\<exists>cookie part. (''cookie'', cookie) \<in> set hs \<and> part \<in> set (split_on (\<lambda>c. c = CHR '';'') cookie) \<and>
           trim part = token_cookie @ ''='' @ t"
proof -
  obtain cookie part where c: "cookie \<in> set (List.map_filter to_str (header_get_all ''cookie'' hs))"
    and part: "part \<in> set (split_on (\<lambda>c. c = CHR '';'') cookie)"
    and t: "strip_prefix (token_cookie @ ''='') (trim part) = Some t"
    using assms unfolding cookie_tokens_def by (auto simp: map_filter_mem)
  have "(''cookie'', cookie) \<in> set hs"
    using c by (auto simp: map_filter_mem header_get_all_def to_str_def split: if_splits)
  then show ?thesis using part t by (auto simp: strip_prefix_Some_iff)
qed

text \<open>Bounds under which the comparison is equality: no header, no query value reaches four gibibytes.\<close>

definition sane_lengths :: "string \<Rightarrow> headers \<Rightarrow> query \<Rightarrow> bool" where
  "sane_lengths token hs q \<longleftrightarrow>
     length token < 2 ^ 32 \<and> (\<forall>t \<in> set (cookie_tokens hs). length t < 2 ^ 32) \<and>
     (\<forall>e \<in> set q. length (snd e) < 2 ^ 32)"

lemma map_of_mem: "map_of q k = Some v \<Longrightarrow> \<exists>e \<in> set q. snd e = v"
  by (metis map_of_SomeD snd_conv)

lemma token_ok_iff:
  assumes "sane_lengths token hs q"
  shows "token_ok token hs (map_of q ''token'') \<longleftrightarrow>
     map_of q ''token'' = Some token \<or> map_of q ''token'' = None \<and> token \<in> set (cookie_tokens hs)"
proof (cases "map_of q ''token''")
  case None
  then show ?thesis
    using assms by (auto simp: token_ok_def list_ex_iff sane_lengths_def constant_time_eq_iff)
next
  case (Some p)
  then have "length p < 2 ^ 32" using assms map_of_mem by (fastforce simp: sane_lengths_def)
  then show ?thesis using assms Some by (auto simp: token_ok_def sane_lengths_def constant_time_eq_iff)
qed

section \<open>Properties\<close>

text \<open>
  C30. What opens the gate, exactly. The \<open>Host\<close> is visible ASCII and a loopback authority:
  a loopback name without a colon, one with a port, or a bracketed one, whose tail need not be a
  port and is then not looked at. There is no \<open>Origin\<close>, or one that is not visible ASCII
  (which the gate treats as absent), or one of the form \<open>scheme://authority\<close> with a loopback
  authority whose port, or its scheme's default, is the port the server owns. And the request
  presents the launch token itself: in the query, or, with no token there, in one of its
  cookies, so that a planted cookie neither opens the gate nor hides the real one.
\<close>
theorem gate_opens_exactly_to_the_operator:
  assumes "sane_lengths token hs q"
  shows "access_allowed token port hs q \<longleftrightarrow>
     (\<exists>host p. header_get ''host'' hs = Some host \<and> list_all visible_ascii host \<and>
        loopback_authority host p) \<and>
     (case header_get ''origin'' hs of
        None \<Rightarrow> True
      | Some origin \<Rightarrow>
          list_ex (\<lambda>c. \<not> visible_ascii c) origin \<or>
          (\<exists>scheme authority p. split_once_str ''://'' origin = Some (scheme, authority) \<and>
             loopback_authority authority p \<and>
             (p = Some port \<or>
              p = None \<and> (scheme = ''http'' \<and> port = 80 \<or> scheme = ''https'' \<and> port = 443)))) \<and>
     (map_of q ''token'' = Some token \<or>
      map_of q ''token'' = None \<and> token \<in> set (cookie_tokens hs))"
proof -
  have host: "host_allowed hs \<longleftrightarrow> (\<exists>host p. header_get ''host'' hs = Some host \<and>
      list_all visible_ascii host \<and> loopback_authority host p)"
    by (auto simp: host_allowed_def to_str_def loopback_authority_iff
          split: Option.bind_split option.splits if_splits)
  have port: "effective_port scheme p = Some port \<longleftrightarrow> p = Some port \<or>
      p = None \<and> (scheme = ''http'' \<and> port = 80 \<or> scheme = ''https'' \<and> port = 443)" for scheme p
    by (cases p) (auto simp: effective_port_def)
  have unreadable: "list_ex (\<lambda>c. \<not> visible_ascii c) v \<longleftrightarrow> \<not> list_all visible_ascii v" for v
    by (auto simp: list_all_iff list_ex_iff)
  have "origin_allowed hs port \<longleftrightarrow>
      (case header_get ''origin'' hs of
        None \<Rightarrow> True
      | Some origin \<Rightarrow>
          list_ex (\<lambda>c. \<not> visible_ascii c) origin \<or>
          (\<exists>scheme authority p. split_once_str ''://'' origin = Some (scheme, authority) \<and>
             loopback_authority authority p \<and> effective_port scheme p = Some port))"
    unfolding unreadable
    by (auto simp: origin_allowed_def to_str_def loopback_authority_iff
          split: Option.bind_split option.splits if_splits)
  then show ?thesis
    unfolding access_allowed_def host token_ok_iff [OF assms] port by blast
qed

lemma planted_cookies:
  "cookie_tokens [(''host'', ''localhost:8080''), (''cookie'', ''rutter_token=x; rutter_token=k'')] = [''x'', ''k'']"
  by (simp add: cookie_tokens_def map_filter_simps header_get_all_def to_str_def visible_ascii_def
        token_cookie_def strip_prefix_def trim_def trim_start_def trim_end_def white_space_def)

theorem gate_opens_exactly_to_the_operator_witness:
  "access_allowed ''k'' 8080
     [(''host'', ''localhost:8080''), (''cookie'', ''rutter_token=x; rutter_token=k'')] []"
proof -
  have "sane_lengths ''k'' [(''host'', ''localhost:8080''), (''cookie'', ''rutter_token=x; rutter_token=k'')] []"
    by (simp add: sane_lengths_def planted_cookies)
  moreover have "loopback_authority ''localhost:8080'' (Some 8080)"
    unfolding loopback_authority_iff
    by (simp add: split_authority_def strip_prefix_def rsplit_once_def parse_uint_def is_digit_def
          digits_val_def digit_val_def u16_max_def loopback_name_def eq_ignore_ascii_case_def)
  ultimately show ?thesis
    by (subst gate_opens_exactly_to_the_operator)
       (auto simp: planted_cookies header_get_def visible_ascii_def)
qed

text \<open>The tail of a bracketed authority is not looked at, so a foreign name can follow it.\<close>

lemma bracketed_authority_ignores_its_tail:
  "\<not> prefix '':'' tail \<Longrightarrow> split_authority (''[::1]'' @ tail) = Some (''::1'', None)"
  by (cases tail) (simp_all add: split_authority_def strip_prefix_def)

lemma bracketed_host_passes:
  "host_allowed [(''host'', ''[::1].evil.example'')]"
  by (simp add: host_allowed_def header_get_def to_str_def visible_ascii_def split_authority_def
        strip_prefix_def loopback_name_def)

end
