(* ===== verification/Dashboard_Server.thy ===== *)
theory Dashboard_Server
  imports Dashboard_Auth Policy_Broker
begin

text \<open>
  The dashboard server, \<open>crates/dashboard/src/lib.rs\<close>: the launch token, the hand-off of the
  access URL, the routes behind the gate and the decision they carry. The router, the JSON
  parser, the terminal check and the socket are outside: \<open>axum\<close> hands a handler its headers,
  query and body, which appear as a request; a parse is an argument.
\<close>

section \<open>The launch token\<close>

definition token_digits :: nat where
  "token_digits = 16"

text \<open>The override of the environment, or the 64-bit hash of time and process under a random key.\<close>

definition generate_token :: "string option \<Rightarrow> 64 word \<Rightarrow> string" where
  "generate_token env_token digest =
     (case env_token of
        Some token \<Rightarrow> if token \<noteq> [] then token else hex_pad token_digits (unat digest)
      | None \<Rightarrow> hex_pad token_digits (unat digest))"

section \<open>The hand-off of the access URL\<close>

record private_file =
  pf_mode :: nat
  pf_text :: string

type_synonym private_files = "string \<rightharpoonup> private_file"

text \<open>What may go wrong at each file operation, with the error's text.\<close>

record file_faults =
  ff_mkdir :: "string option"
  ff_remove :: "string option"
  ff_open :: "string option"
  ff_write :: "(string \<times> nat) option"

definition owner_only :: nat where
  "owner_only = 384"

definition write_private ::
  "file_faults \<Rightarrow> string \<Rightarrow> string \<Rightarrow> string \<Rightarrow> private_files \<Rightarrow> string option \<times> private_files" where
  "write_private ff dir path contents fs =
     (case ff_mkdir ff of
        Some e \<Rightarrow> (Some (''cannot create '' @ dir @ '': '' @ e), fs)
      | None \<Rightarrow>
          (case (fs path, ff_remove ff) of
             (Some old, Some e) \<Rightarrow> (Some (''cannot replace '' @ path @ '': '' @ e), fs)
           | _ \<Rightarrow>
               (let fs1 = fs(path := None)
                in case ff_open ff of
                     Some e \<Rightarrow> (Some (''cannot write '' @ path @ '': '' @ e), fs1)
                   | None \<Rightarrow>
                       (case ff_write ff of
                          Some (e, n) \<Rightarrow>
                            (Some (''cannot write '' @ path @ '': '' @ e),
                             fs1(path \<mapsto> \<lparr>pf_mode = owner_only, pf_text = take n (contents @ [newline])\<rparr>))
                        | None \<Rightarrow>
                            (None, fs1(path \<mapsto> \<lparr>pf_mode = owner_only, pf_text = contents @ [newline]\<rparr>))))))"

definition access_url :: "nat \<Rightarrow> string \<Rightarrow> string" where
  "access_url bound_port token = ''http://127.0.0.1:'' @ show_nat bound_port @ ''/?token='' @ token"

definition access_path :: "string \<Rightarrow> nat \<Rightarrow> string" where
  "access_path dir bound_port = dir @ ''/dashboard-access-'' @ show_nat bound_port @ ''.url''"

definition hand_off ::
  "file_faults \<Rightarrow> bool \<Rightarrow> string option \<Rightarrow> nat \<Rightarrow> string \<Rightarrow> private_files \<Rightarrow>
     (string + string) \<times> private_files" where
  "hand_off ff terminal access_dir bound_port token fs =
     (if terminal then (Inr (''open '' @ access_url bound_port token), fs)
      else
        (case access_dir of
           None \<Rightarrow> (Inl ''stderr is no terminal and no access hand-off path was configured'', fs)
         | Some dir \<Rightarrow>
             (case write_private ff dir (access_path dir bound_port) (access_url bound_port token) fs of
                (Some e, fs1) \<Rightarrow> (Inl e, fs1)
              | (None, fs1) \<Rightarrow>
                  (Inr (''access URL in '' @ access_path dir bound_port @
                        ''; open it from a terminal you control''), fs1))))"

record dashboard_server =
  ds_token :: string
  ds_port :: nat
  ds_access_dir :: "string option"

definition dashboard_new :: "string option \<Rightarrow> 64 word \<Rightarrow> nat \<Rightarrow> string option \<Rightarrow> dashboard_server" where
  "dashboard_new env_token digest port access_dir =
     \<lparr>ds_token = generate_token env_token digest, ds_port = port, ds_access_dir = access_dir\<rparr>"

text \<open>
  \<open>bind\<close>: the listener first, then the hand-off with the port it settled on. The answer is the
  gate's state (token and port) with the line printed on stderr.
\<close>

definition dashboard_bind ::
  "string + nat \<Rightarrow> file_faults \<Rightarrow> bool \<Rightarrow> dashboard_server \<Rightarrow> private_files \<Rightarrow>
     (string + (string \<times> nat) \<times> string) \<times> private_files" where
  "dashboard_bind listener ff terminal d fs =
     (case listener of
        Inl e \<Rightarrow> (Inl (''cannot bind 127.0.0.1:'' @ show_nat (ds_port d) @ '': '' @ e), fs)
      | Inr bound_port \<Rightarrow>
          (case hand_off ff terminal (ds_access_dir d) bound_port (ds_token d) fs of
             (Inl e, fs1) \<Rightarrow> (Inl e, fs1)
           | (Inr line, fs1) \<Rightarrow>
               (Inr ((ds_token d, bound_port),
                     ''rutter: dashboard on http://127.0.0.1:'' @ show_nat bound_port @ '' '' @
                     [CHR 0xE2, CHR 0x80, CHR 0x94] @ '' '' @ line), fs1)))"

section \<open>Decisions\<close>

definition parse_decision :: "json \<Rightarrow> (approval_id \<times> decision) option" where
  "parse_decision body =
     Option.bind (Option.bind (json_get body ''request_id'') as_str) (\<lambda>request_id.
       Option.bind (Option.bind (json_get body ''grant'') as_bool) (\<lambda>granted.
         Some (ApprovalId request_id, if granted then Grant else Refuse)))"

section \<open>Routes\<close>

datatype route = RIndex | RAppJs | RI18n | RWs | RDecisions | RPending | RUnknown

record request =
  rq_route :: route
  rq_headers :: headers
  rq_query :: query
  rq_body :: string

record response =
  rs_status :: nat
  rs_headers :: headers
  rs_body :: string
  rs_socket :: bool

record static_files =
  sf_index :: string
  sf_app :: string
  sf_i18n :: string

definition bare :: "nat \<Rightarrow> response" where
  "bare status = \<lparr>rs_status = status, rs_headers = [], rs_body = [], rs_socket = False\<rparr>"

definition page_answer :: "string \<Rightarrow> string \<Rightarrow> response" where
  "page_answer kind body =
     \<lparr>rs_status = 200, rs_headers = [(''content-type'', kind)], rs_body = body, rs_socket = False\<rparr>"

definition index_route :: "static_files \<Rightarrow> string \<Rightarrow> response" where
  "index_route files token =
     (let r = page_answer ''text/html; charset=utf-8'' (sf_index files)
      in case token_cookie_header token of
           None \<Rightarrow> r
         | Some cookie \<Rightarrow> r\<lparr>rs_headers := header_insert ''set-cookie'' cookie (rs_headers r)\<rparr>)"

definition decide_route ::
  "'ch oneshot_api \<Rightarrow> (string \<Rightarrow> json option) \<Rightarrow> string \<Rightarrow> 'ch broker \<Rightarrow> response \<times> 'ch broker" where
  "decide_route oc parse body b =
     (case Option.bind (parse body) parse_decision of
        None \<Rightarrow> (bare 400, b)
      | Some (request_id, d) \<Rightarrow>
          (case broker_decide oc request_id d b of
             (accepted, b1) \<Rightarrow> (bare (if accepted then 200 else 404), b1)))"

definition pending_route :: "'ch broker \<Rightarrow> response" where
  "pending_route b =
     page_answer ''text/plain; charset=utf-8''
       (''{'' @ quoted ''pending'' @ '':'' @ show_nat (pending_count b) @ ''}'' @ [newline])"

definition gated_route ::
  "'ch oneshot_api \<Rightarrow> (string \<Rightarrow> json option) \<Rightarrow> static_files \<Rightarrow> string \<Rightarrow> request \<Rightarrow> 'ch broker \<Rightarrow>
     response \<times> 'ch broker" where
  "gated_route oc parse files token rq b =
     (case rq_route rq of
        RIndex \<Rightarrow> (index_route files token, b)
      | RAppJs \<Rightarrow> (page_answer ''application/javascript'' (sf_app files), b)
      | RI18n \<Rightarrow> (page_answer ''application/json'' (sf_i18n files), b)
      | RWs \<Rightarrow> (\<lparr>rs_status = 101, rs_headers = [], rs_body = [], rs_socket = True\<rparr>, b)
      | RDecisions \<Rightarrow> decide_route oc parse (rq_body rq) b
      | RPending \<Rightarrow> (pending_route b, b)
      | RUnknown \<Rightarrow> (bare 404, b))"

definition respond ::
  "'ch oneshot_api \<Rightarrow> (string \<Rightarrow> json option) \<Rightarrow> static_files \<Rightarrow> string \<Rightarrow> nat \<Rightarrow> request \<Rightarrow> 'ch broker \<Rightarrow>
     response \<times> 'ch broker" where
  "respond oc parse files token port rq b =
     (if rq_route rq = RUnknown then (bare 404, b)
      else if \<not> access_allowed token port (rq_headers rq) (rq_query rq) then (bare 403, b)
      else gated_route oc parse files token rq b)"

text \<open>The layer around every route.\<close>

definition harden_responses :: "response \<Rightarrow> response" where
  "harden_responses r = r\<lparr>rs_headers := harden (rs_headers r)\<rparr>"

definition dashboard_serve ::
  "'ch oneshot_api \<Rightarrow> (string \<Rightarrow> json option) \<Rightarrow> static_files \<Rightarrow> string \<Rightarrow> nat \<Rightarrow> request \<Rightarrow> 'ch broker \<Rightarrow>
     response \<times> 'ch broker" where
  "dashboard_serve oc parse files token port rq b =
     (case respond oc parse files token port rq b of (r, b1) \<Rightarrow> (harden_responses r, b1))"

section \<open>Lemmas\<close>

lemma header_insert_once:
  "header_get_all name (header_insert name v hs) = [v]"
  "name' \<noteq> name \<Longrightarrow> header_get_all name' (header_insert name v hs) = header_get_all name' hs"
  by (auto simp: header_get_all_def header_insert_def filter_empty_conv intro!: arg_cong [of _ _ "map snd"] filter_cong)

lemma harden_headers: "list_all (\<lambda>(name, v). header_get_all name (harden hs) = [v]) hardening_headers"
  by (simp add: harden_def hardening_headers_def header_insert_once)

lemma respond_refused:
  "\<not> access_allowed token port (rq_headers rq) (rq_query rq) \<Longrightarrow>
     respond oc parse files token port rq b = (bare (if rq_route rq = RUnknown then 404 else 403), b)"
  by (simp add: respond_def)

lemma respond_broker:
  assumes "respond oc parse files token port rq b = (r, b1)"
  shows "b1 = b \<or> rq_route rq = RDecisions \<and>
     (\<exists>i d. Option.bind (parse (rq_body rq)) parse_decision = Some (i, d) \<and>
        b1 = snd (broker_decide oc i d b) \<and> rs_status r = (if fst (broker_decide oc i d b) then 200 else 404))"
proof (cases "rq_route rq = RDecisions \<and> access_allowed token port (rq_headers rq) (rq_query rq) \<and>
    Option.bind (parse (rq_body rq)) parse_decision \<noteq> None")
  case True
  then obtain i d where "Option.bind (parse (rq_body rq)) parse_decision = Some (i, d)" by auto
  then show ?thesis
    using assms True by (auto simp: respond_def gated_route_def decide_route_def bare_def split: prod.splits)
next
  case False
  then show ?thesis
    using assms
    by (auto simp: respond_def gated_route_def decide_route_def split: if_splits route.splits option.splits)
qed

lemma owner_only_url:
  assumes "write_private ff dir path contents fs = (e, fs1)"
  shows "fs1 \<in> {fs, fs(path := None)} \<union>
     (\<lambda>t. fs(path \<mapsto> \<lparr>pf_mode = owner_only, pf_text = t\<rparr>)) ` {t. prefix t (contents @ [newline])}"
proof -
  have "fs1 = fs \<or> fs1 = fs(path := None) \<or>
      (\<exists>n. fs1 = fs(path := None, path \<mapsto> \<lparr>pf_mode = owner_only, pf_text = take n (contents @ [newline])\<rparr>))
      \<or> fs1 = fs(path := None, path \<mapsto> \<lparr>pf_mode = owner_only, pf_text = contents @ [newline]\<rparr>)"
    using assms unfolding write_private_def Let_def by (simp split: option.splits prod.splits) blast+
  moreover have "prefix (take n (contents @ [newline])) (contents @ [newline])" for n
    by (rule take_is_prefix)
  ultimately show ?thesis by (auto simp del: take_append)
qed

lemma write_private_text_free:
  "fst (write_private ff dir path c1 fs) = fst (write_private ff dir path c2 fs)"
  by (auto simp: write_private_def Let_def split: option.splits prod.splits)

lemma trim_by_id: "(\<And>w. w \<in> set ws \<Longrightarrow> \<not> prefix w s) \<Longrightarrow> trim_by ws n s = s"
proof -
  assume "\<And>w. w \<in> set ws \<Longrightarrow> \<not> prefix w s"
  then have "find (\<lambda>w. prefix w s) ws = None" by (simp add: find_None_iff)
  then show ?thesis by (cases n) simp_all
qed

lemma trim_id:
  assumes "s \<noteq> []" "hd s \<notin> hd ` set white_space" "List.last s \<notin> List.last ` set white_space"
  shows "trim s = s"
proof -
  have full: "w \<noteq> []" if "w \<in> set white_space" for w
    using that by (auto simp: white_space_def)
  have "\<not> prefix w s" if "w \<in> set white_space" for w
    using that full [OF that] assms(1,2) by (auto simp: prefix_def)
  moreover have "\<not> prefix w (rev s)" if w: "w \<in> set (map rev white_space)" for w
  proof
    assume "prefix w (rev s)"
    then obtain r where "rev s = w @ r" by (auto simp: prefix_def)
    with w obtain v where v: "v \<in> set white_space" "rev s = rev v @ r" by auto
    from arg_cong [OF v(2), of rev] have "s = rev r @ v" by simp
    then show False using assms(3) v(1) full [OF v(1)] by auto
  qed
  ultimately have "trim_by white_space (length s) s = s"
      "trim_by (map rev white_space) (length s) (rev s) = rev s"
    by (blast intro: trim_by_id)+
  then show ?thesis by (simp add: trim_def trim_start_def trim_end_def)
qed

lemma cookie_safe_byte:
  "cookie_safe token \<Longrightarrow> c \<in> set token \<Longrightarrow>
     c \<noteq> CHR '';'' \<and> visible_ascii c \<and> c \<notin> hd ` set white_space \<and> c \<notin> List.last ` set white_space"
  by (auto simp: cookie_safe_def list_all_iff is_alphanumeric_def is_digit_def is_upper_def is_lower_def
        visible_ascii_def white_space_def)

text \<open>The cookie a browser sends back after the first visit.\<close>

lemma cookie_tokens_own:
  assumes "cookie_safe token"
  shows "cookie_tokens [(''cookie'', token_cookie @ ''='' @ token)] = [token]"
proof -
  let ?c = "token_cookie @ ''='' @ token"
  have name: "cookie_safe ''rutter_token''" by (simp add: cookie_safe_def is_alphanumeric_def is_lower_def)
  have "list_all visible_ascii ?c"
    using cookie_safe_byte [OF assms] cookie_safe_byte [OF name]
    by (auto simp: list_all_iff token_cookie_def visible_ascii_def)
  moreover have "split_on (\<lambda>c. c = CHR '';'') ?c = [?c]"
    using cookie_safe_byte [OF assms] by (intro split_on_none) (auto simp: token_cookie_def)
  moreover have "trim ?c = ?c"
  proof (rule trim_id)
    show "hd ?c \<notin> hd ` set white_space" by (auto simp: token_cookie_def white_space_def)
    show "List.last ?c \<notin> List.last ` set white_space"
      using cookie_safe_byte [OF assms, of "List.last token"]
      by (cases "token = []") (auto simp: white_space_def)
  qed (simp add: token_cookie_def)
  ultimately show ?thesis
    by (simp add: cookie_tokens_def header_get_all_def to_str_def map_filter_simps strip_prefix_def)
qed

lemma generated_shape:
  "length (generate_token None digest) = 16" "list_all is_alphanumeric (generate_token None digest)"
  using hex_pad_shape [of 16 "unat digest"] by (simp_all add: generate_token_def token_digits_def)

section \<open>Properties\<close>

text \<open>
  C31. Every route stands behind the gate and every answer is hardened: whatever the request,
  the response carries each hardening header exactly once. A request the gate refuses gets an
  empty refusal, opens no socket and reaches no approval; one it admits changes the broker only
  by the decision its body spells, and the status says whether that decision was taken.
\<close>
theorem every_route_gated_and_hardened:
  "case dashboard_serve oc parse files token port rq b of (r, b1) \<Rightarrow>
     list_all (\<lambda>(name, v). header_get_all name (rs_headers r) = [v]) hardening_headers \<and>
     (if access_allowed token port (rq_headers rq) (rq_query rq)
      then b1 = b \<or> rq_route rq = RDecisions \<and>
        (\<exists>i d. Option.bind (parse (rq_body rq)) parse_decision = Some (i, d) \<and>
           b1 = snd (broker_decide oc i d b) \<and>
           rs_status r = (if fst (broker_decide oc i d b) then 200 else 404))
      else b1 = b \<and> rs_status r \<in> {403, 404} \<and> rs_body r = [] \<and> rs_socket r = False)"
proof -
  obtain r b1 where r: "respond oc parse files token port rq b = (r, b1)" by fastforce
  show ?thesis
  proof (cases "access_allowed token port (rq_headers rq) (rq_query rq)")
    case True
    then show ?thesis
      using respond_broker [OF r] harden_headers by (simp add: dashboard_serve_def r harden_responses_def)
  next
    case False
    then show ?thesis
      using r harden_headers by (auto simp: dashboard_serve_def harden_responses_def respond_refused bare_def)
  qed
qed

text \<open>
  The token never leaves through a pipe: without a terminal the line printed is the same
  whatever the token, and all that changes on disk is the hand-off file of the bound port, which
  is removed or holds a part of the URL under a mode only its owner can read.
\<close>
theorem piped_hand_off_hides_the_token:
  "fst (hand_off ff False access_dir bound_port token1 fs) =
     fst (hand_off ff False access_dir bound_port token2 fs) \<and>
   (case access_dir of
      None \<Rightarrow> snd (hand_off ff False access_dir bound_port token1 fs) = fs
    | Some dir \<Rightarrow>
        snd (hand_off ff False access_dir bound_port token1 fs) \<in>
          {fs, fs(access_path dir bound_port := None)} \<union>
          (\<lambda>t. fs(access_path dir bound_port \<mapsto> \<lparr>pf_mode = owner_only, pf_text = t\<rparr>)) `
            {t. prefix t (access_url bound_port token1 @ [newline])})"
proof (cases access_dir)
  case None
  then show ?thesis by (simp add: hand_off_def)
next
  case (Some dir)
  let ?w = "\<lambda>token. write_private ff dir (access_path dir bound_port) (access_url bound_port token) fs"
  have "fst (?w token1) = fst (?w token2)" by (rule write_private_text_free)
  moreover have "snd (hand_off ff False access_dir bound_port token1 fs) = snd (?w token1)"
    using Some by (simp add: hand_off_def split: prod.split option.split)
  ultimately show ?thesis
    using Some owner_only_url [of ff dir "access_path dir bound_port" "access_url bound_port token1" fs]
    by (cases "?w token1"; cases "?w token2") (simp add: hand_off_def split: option.split)
qed

text \<open>
  C32. A generated token is sixteen hexadecimal digits and distinct for distinct digests, so it
  fits a cookie: the answer to the first visit carries it, and the cookie a browser sends back
  then is read as exactly that token.
\<close>
theorem generated_token_survives_the_cookie:
  fixes digest :: "64 word"
  defines "token \<equiv> generate_token None digest"
  shows "length token = 16 \<and> cookie_safe token \<and>
     (generate_token None digest' = token \<longleftrightarrow> digest' = digest) \<and>
     token_cookie_header token =
       Some (token_cookie @ ''='' @ token @ ''; Path=/; HttpOnly; SameSite=Strict'') \<and>
     cookie_tokens [(''cookie'', token_cookie @ ''='' @ token)] = [token]"
proof -
  have safe: "cookie_safe token"
    using generated_shape(2) [of digest] by (auto simp: token_def cookie_safe_def list_all_iff)
  have "unat d < 16 ^ 16" for d :: "64 word"
    by (rule less_le_trans [OF unsigned_less]) simp
  then have "generate_token None digest' = token \<longleftrightarrow> digest' = digest"
    by (simp add: token_def generate_token_def token_digits_def hex_pad_inject word_unat_eq_iff)
  then show ?thesis
    using safe generated_shape(1) [of digest] cookie_tokens_own [OF safe]
    by (simp add: token_cookie_header_def token_def)
qed

end
