(* ===== verification/Dashboard_Feed.thy ===== *)
theory Dashboard_Feed
  imports Dashboard_Server Events
begin

text \<open>
  One dashboard WebSocket, \<open>crates/dashboard/src/ws.rs\<close>: replay first, then live events, with
  screencast frames, decisions and the liveness ping on the same socket. The select loop is a run
  over the inputs it picks; a write that fails or exceeds its budget ends the connection, and
  which ones do is an argument. Each ring of a replay is read at a moment of its own, so a replay
  is a list of sessions with the backbone their ring was read from.
\<close>

datatype ws_message =
    WsNote
  | WsEvent envelope
  | WsFrame string
  | WsReply json
  | WsPing

record 'st ws_conn =
  wc_out :: "ws_message list"
  wc_sent_up_to :: "nat option"
  wc_stream :: "'st option"
  wc_awaiting_pong :: bool

definition write_timeout :: duration where
  "write_timeout = from_secs 30"

definition default_keepalive :: duration where
  "default_keepalive = from_secs 20"

section \<open>Writes\<close>

definition send_within :: "(nat \<Rightarrow> bool) \<Rightarrow> ws_message \<Rightarrow> 'st ws_conn \<Rightarrow> bool \<times> 'st ws_conn" where
  "send_within ok m c =
     (if ok (length (wc_out c)) then (True, c\<lparr>wc_out := wc_out c @ [m]\<rparr>) else (False, c))"

fun send_batch :: "(nat \<Rightarrow> bool) \<Rightarrow> envelope list \<Rightarrow> 'st ws_conn \<Rightarrow> bool \<times> 'st ws_conn" where
  "send_batch ok [] c = (True, c)"
| "send_batch ok (v # vs) c =
     (case send_within ok (WsEvent v) c of
        (False, c1) \<Rightarrow> (False, c1)
      | (True, c1) \<Rightarrow> send_batch ok vs c1)"

section \<open>Replay and live events\<close>

type_synonym ring_reads = "(session_id \<times> backbone) list"

definition history_batch :: "ring_reads \<Rightarrow> nat option \<Rightarrow> envelope list" where
  "history_batch reads after = sort_key env_seq (concat (map (\<lambda>(i, b). replay_after i after b) reads))"

definition drain_history ::
  "(nat \<Rightarrow> bool) \<Rightarrow> ring_reads \<Rightarrow> nat option \<Rightarrow> 'st ws_conn \<Rightarrow> bool \<times> 'st ws_conn" where
  "drain_history ok reads after c =
     (let batch = history_batch reads after
      in case send_batch ok batch c of
           (False, c1) \<Rightarrow> (False, c1)
         | (True, c1) \<Rightarrow>
             (True, c1\<lparr>wc_sent_up_to := (if batch = [] then after else Some (env_seq (List.last batch)))\<rparr>))"

datatype live =
    LiveEvent envelope
  | LiveLagged ring_reads
  | LiveClosed

fun forward_live_event :: "(nat \<Rightarrow> bool) \<Rightarrow> live \<Rightarrow> 'st ws_conn \<Rightarrow> bool \<times> 'st ws_conn" where
  "forward_live_event ok (LiveEvent v) c =
     (if (case wc_sent_up_to c of None \<Rightarrow> False | Some seen \<Rightarrow> env_seq v \<le> seen) then (True, c)
      else
        (case send_within ok (WsEvent v) c of
           (False, c1) \<Rightarrow> (False, c1)
         | (True, c1) \<Rightarrow> (True, c1\<lparr>wc_sent_up_to := Some (env_seq v)\<rparr>)))"
| "forward_live_event ok (LiveLagged reads) c = drain_history ok reads (wc_sent_up_to c) c"
| "forward_live_event ok LiveClosed c = (False, c)"

section \<open>Screencast\<close>

definition screencast_stopped :: json where
  "screencast_stopped =
     JObj [(''reason'', JStr ''capture ended''), (''type'', JStr ''screencast-stopped'')]"

definition forward_screencast_frame ::
  "(nat \<Rightarrow> bool) \<Rightarrow> string option \<Rightarrow> 'st ws_conn \<Rightarrow> bool \<times> 'st ws_conn" where
  "forward_screencast_frame ok jpeg c =
     (case jpeg of
        None \<Rightarrow>
          (case send_within ok (WsReply screencast_stopped) c of
             (False, c1) \<Rightarrow> (False, c1)
           | (True, c1) \<Rightarrow> (True, c1\<lparr>wc_stream := None\<rparr>))
      | Some bytes \<Rightarrow> send_within ok (WsFrame bytes) c)"

definition screencast_ack :: "string option \<Rightarrow> bool \<Rightarrow> json" where
  "screencast_ack reason started =
     JObj ((case reason of None \<Rightarrow> [] | Some r \<Rightarrow> [(''reason'', JStr r)]) @
           [(''started'', JBool started), (''type'', JStr ''screencast-ack'')])"

text \<open>\<open>answer\<close> is what the manager and the session say: no such session, a refusal, a stream.\<close>

definition screencast_control ::
  "(session_id \<Rightarrow> (string + 'st) option) \<Rightarrow> json option \<Rightarrow> 'st option \<times> json" where
  "screencast_control answer req =
     (if Option.bind (Option.bind req (\<lambda>v. json_get v ''on'')) as_bool \<noteq> Some True
      then (None, screencast_ack None False)
      else
        (case Option.bind (Option.bind req (\<lambda>v. json_get v ''session'')) as_str of
           None \<Rightarrow> (None, screencast_ack (Some ''the request names no session'') False)
         | Some i \<Rightarrow>
             (case answer (SessionId i) of
                None \<Rightarrow> (None, screencast_ack (Some ''no such session'') False)
              | Some (Inl e) \<Rightarrow> (None, screencast_ack (Some e) False)
              | Some (Inr st) \<Rightarrow> (Some st, screencast_ack None True))))"

section \<open>Inbound frames\<close>

definition decision_ack :: "approval_id \<Rightarrow> bool \<Rightarrow> json" where
  "decision_ack i accepted =
     JObj [(''accepted'', JBool accepted), (''request_id'', JStr (approval_str i)),
           (''type'', JStr ''decision-ack'')]"

definition message_type :: "json option \<Rightarrow> string option" where
  "message_type v = Option.bind (Option.bind v (\<lambda>j. json_get j ''type'')) as_str"

definition handle_decision ::
  "'ch oneshot_api \<Rightarrow> json option \<Rightarrow> 'ch broker \<Rightarrow> json option \<times> 'ch broker" where
  "handle_decision oc parsed b =
     (if message_type parsed \<noteq> Some ''decision'' then (None, b)
      else
        (case Option.bind parsed parse_decision of
           None \<Rightarrow> (None, b)
         | Some (i, d) \<Rightarrow>
             (case broker_decide oc i d b of (accepted, b1) \<Rightarrow> (Some (decision_ack i accepted), b1))))"

definition handle_text_message ::
  "'ch oneshot_api \<Rightarrow> (nat \<Rightarrow> bool) \<Rightarrow> (session_id \<Rightarrow> (string + 'st) option) \<Rightarrow> json option \<Rightarrow>
     'st ws_conn \<times> 'ch broker \<Rightarrow> bool \<times> 'st ws_conn \<times> 'ch broker" where
  "handle_text_message oc ok answer parsed cb =
     (case cb of
        (c, b) \<Rightarrow>
          (if message_type parsed = Some ''screencast'' then
             (case screencast_control answer parsed of
                (stream, ack) \<Rightarrow>
                  (case send_within ok (WsReply ack) (c\<lparr>wc_stream := stream\<rparr>) of (alive, c1) \<Rightarrow> (alive, c1, b)))
           else if message_type parsed = Some ''subscribe'' then (True, c, b)
           else
             (case handle_decision oc parsed b of
                (None, b1) \<Rightarrow> (True, c, b1)
              | (Some reply, b1) \<Rightarrow>
                  (case send_within ok (WsReply reply) c of (alive, c1) \<Rightarrow> (alive, c1, b1)))))"

definition keepalive_tick :: "(nat \<Rightarrow> bool) \<Rightarrow> 'st ws_conn \<Rightarrow> bool \<times> 'st ws_conn" where
  "keepalive_tick ok c =
     (if wc_awaiting_pong c then (False, c)
      else
        (case send_within ok WsPing c of
           (False, c1) \<Rightarrow> (False, c1)
         | (True, c1) \<Rightarrow> (True, c1\<lparr>wc_awaiting_pong := True\<rparr>)))"

section \<open>The loop\<close>

text \<open>What the select loop may pick; a frame of a capture only while one runs.\<close>

datatype 'st ws_input =
    InLive live
  | InFrame "string option"
  | InText "json option" "session_id \<Rightarrow> (string + 'st) option"
  | InPong
  | InOther
  | InGone
  | InTick

fun ws_step ::
  "'ch oneshot_api \<Rightarrow> (nat \<Rightarrow> bool) \<Rightarrow> 'st ws_input \<Rightarrow> 'st ws_conn \<times> 'ch broker \<Rightarrow>
     bool \<times> 'st ws_conn \<times> 'ch broker" where
  "ws_step oc ok (InLive l) (c, b) = (case forward_live_event ok l c of (alive, c1) \<Rightarrow> (alive, c1, b))"
| "ws_step oc ok (InFrame jpeg) (c, b) =
     (if wc_stream c = None then (True, c, b)
      else (case forward_screencast_frame ok jpeg c of (alive, c1) \<Rightarrow> (alive, c1, b)))"
| "ws_step oc ok (InText parsed answer) (c, b) = handle_text_message oc ok answer parsed (c, b)"
| "ws_step oc ok InPong (c, b) = (True, c\<lparr>wc_awaiting_pong := False\<rparr>, b)"
| "ws_step oc ok InOther (c, b) = (True, c, b)"
| "ws_step oc ok InGone (c, b) = (False, c, b)"
| "ws_step oc ok InTick (c, b) = (case keepalive_tick ok c of (alive, c1) \<Rightarrow> (alive, c1, b))"

fun ws_run ::
  "'ch oneshot_api \<Rightarrow> (nat \<Rightarrow> bool) \<Rightarrow> 'st ws_input list \<Rightarrow> 'st ws_conn \<times> 'ch broker \<Rightarrow>
     bool \<times> 'st ws_conn \<times> 'ch broker" where
  "ws_run oc ok [] cb = (True, cb)"
| "ws_run oc ok (x # xs) cb =
     (case ws_step oc ok x cb of
        (False, cb1) \<Rightarrow> (False, cb1)
      | (True, cb1) \<Rightarrow> ws_run oc ok xs cb1)"

definition ws_conn_new :: "'st ws_conn" where
  "ws_conn_new = \<lparr>wc_out = [], wc_sent_up_to = None, wc_stream = None, wc_awaiting_pong = False\<rparr>"

text \<open>\<open>reads\<close> is absent while no engine has started.\<close>

definition ws_loop ::
  "'ch oneshot_api \<Rightarrow> (nat \<Rightarrow> bool) \<Rightarrow> ring_reads option \<Rightarrow> 'st ws_input list \<Rightarrow> 'ch broker \<Rightarrow>
     bool \<times> 'st ws_conn \<times> 'ch broker" where
  "ws_loop oc ok reads xs b =
     (case reads of
        None \<Rightarrow> (False, snd (send_within ok WsNote ws_conn_new), b)
      | Some r \<Rightarrow>
          (case drain_history ok r None ws_conn_new of
             (False, c) \<Rightarrow> (False, c, b)
           | (True, c) \<Rightarrow> ws_run oc ok xs (c, b)))"

definition events_of :: "ws_message list \<Rightarrow> envelope list" where
  "events_of ms = List.map_filter (\<lambda>m. case m of WsEvent v \<Rightarrow> Some v | _ \<Rightarrow> None) ms"

section \<open>What a replay holds\<close>

text \<open>Each ring was read from the backbone at some moment of one history, one ring per session.\<close>

definition reads_of :: "nat \<Rightarrow> backbone_op list \<Rightarrow> ring_reads \<Rightarrow> bool" where
  "reads_of cap ops reads \<longleftrightarrow>
     distinct (map fst reads) \<and> list_all (\<lambda>(i, b). \<exists>n. b = backbone_run cap (take n ops)) reads"

lemma reads_ofD:
  assumes "reads_of cap ops reads" "(i, b) \<in> set reads"
  shows "\<exists>n. b = backbone_run cap (take n ops)"
  using bspec [of "set reads" _ "(i, b)"] assms unfolding reads_of_def list_all_iff by blast

lemma sent_grows: "\<exists>later. bb_sent (run_ops backbone_step xs b) = bb_sent b @ later"
proof (induction xs arbitrary: b)
  case (Cons x xs)
  have "\<exists>v. bb_sent (backbone_step x b) = bb_sent b @ v"
    by (cases x) (simp_all add: publish_defs forget_def)
  then show ?case using Cons.IH [of "backbone_step x b"] by auto
qed simp

lemma sent_take: "\<exists>later. bb_sent (backbone_run cap ops) = bb_sent (backbone_run cap (take n ops)) @ later"
proof -
  have "backbone_run cap ops = run_ops backbone_step (drop n ops) (backbone_run cap (take n ops))"
    unfolding backbone_run_def by (simp flip: run_ops_append)
  then show ?thesis using sent_grows by metis
qed

lemma run_seq_inj: "inj_on env_seq (set (bb_sent (backbone_run cap ops)))"
proof -
  have "map env_seq (bb_sent (backbone_run cap ops)) = [0..<bb_next_seq (backbone_run cap ops)]"
    using backbone_run_inv by (simp add: backbone_inv_def)
  then have "distinct (map env_seq (bb_sent (backbone_run cap ops)))" by simp
  then show ?thesis by (simp add: distinct_map)
qed

lemma replay_after_mem:
  "v \<in> set (replay_after i after b) \<longleftrightarrow>
     v \<in> set (replay i b) \<and> (case after of None \<Rightarrow> True | Some w \<Rightarrow> w < env_seq v)"
  by (auto simp: replay_after_def replay_def ring_history_after_def ring_history_def split: option.splits)

lemma replay_after_sorted:
  assumes "backbone_inv cap b"
  shows "sorted_wrt (<) (map env_seq (replay_after i after b))"
proof (cases "bb_rings b i")
  case (Some r)
  then have "sorted_wrt (<) (map env_seq (rb_entries r))"
    using assms by (auto simp: backbone_inv_def ring_entries_ok_def)
  then show ?thesis
    using Some by (auto simp: replay_after_def ring_history_after_def ring_history_def
        sorted_wrt_map split: option.split intro: sorted_wrt_filter)
qed (simp add: replay_after_def)

lemma history_batch_mem:
  "v \<in> set (history_batch reads after) \<longleftrightarrow> (\<exists>(i, b) \<in> set reads. v \<in> set (replay_after i after b))"
  by (auto simp: history_batch_def)

lemma reads_mem:
  assumes "reads_of cap ops reads" "(i, b) \<in> set reads" "v \<in> set (replay_after i after b)"
  shows "v \<in> set (bb_sent (backbone_run cap ops))" "env_session v = i"
proof -
  obtain n where b: "b = backbone_run cap (take n ops)"
    using reads_ofD [OF assms(1,2)] by blast
  have v: "v \<in> set (replay i b)" using assms(3) by (simp add: replay_after_mem)
  show "env_session v = i"
    using replay_facts(3) [OF backbone_run_inv, of v i] v b by blast
  have "v \<in> set (bb_sent b)" using replay_facts(3) [OF backbone_run_inv, of v i] v b by blast
  then show "v \<in> set (bb_sent (backbone_run cap ops))"
    using sent_take [of cap ops n] b by auto
qed

lemma distinct_replays:
  assumes "distinct (map fst reads)"
    "\<And>i b. (i, b) \<in> set reads \<Longrightarrow> distinct (f i b)"
    "\<And>i b v. (i, b) \<in> set reads \<Longrightarrow> v \<in> set (f i b) \<Longrightarrow> env_session v = i"
  shows "distinct (concat (map (\<lambda>(i, b). f i b) reads))"
  using assms
proof (induction reads)
  case (Cons e reads)
  obtain i b where e: "e = (i, b)" by fastforce
  have "set (f i b) \<inter> set (concat (map (\<lambda>(i, b). f i b) reads)) = {}"
  proof (rule ccontr)
    assume "\<not> ?thesis"
    then obtain v j b' where "v \<in> set (f i b)" "(j, b') \<in> set reads" "v \<in> set (f j b')" by auto
    then have "j = i" using Cons.prems(3) e by (metis list.set_intros)
    then show False using Cons.prems(1) e \<open>(j, b') \<in> set reads\<close> by force
  qed
  moreover have "distinct (concat (map (\<lambda>(i, b). f i b) reads))"
  proof (rule Cons.IH)
    show "distinct (map fst reads)" using Cons.prems(1) by simp
    show "distinct (f j d)" if "(j, d) \<in> set reads" for j d
      using Cons.prems(2) that by simp
    show "env_session v = j" if "(j, d) \<in> set reads" "v \<in> set (f j d)" for j d v
      using Cons.prems(3) [of j d v] that by simp
  qed
  ultimately show ?case using Cons.prems(2) [of i b] e by simp
qed simp

lemma history_batch_sorted:
  assumes "reads_of cap ops reads"
  shows "sorted_wrt (<) (map env_seq (history_batch reads after))"
proof -
  let ?all = "concat (map (\<lambda>(i, b). replay_after i after b) reads)"
  have each: "distinct (replay_after i after b)" if mem: "(i, b) \<in> set reads" for i b
  proof -
    obtain n where "b = backbone_run cap (take n ops)"
      using reads_ofD [OF assms mem] by blast
    then have "sorted_wrt (<) (map env_seq (replay_after i after b))"
      using replay_after_sorted [OF backbone_run_inv] by blast
    then show ?thesis using strict_sorted_iff distinct_map by blast
  qed
  have "distinct ?all"
    using assms reads_mem(2) [OF assms] each by (intro distinct_replays) (auto simp: reads_of_def)
  moreover have "set ?all \<subseteq> set (bb_sent (backbone_run cap ops))"
    using reads_mem(1) [OF assms] by auto
  ultimately have "distinct (map env_seq ?all)"
    using inj_on_subset [OF run_seq_inj] by (simp add: distinct_map)
  then have "distinct (map env_seq (history_batch reads after))"
    by (simp add: history_batch_def distinct_map)
  then show ?thesis by (simp add: history_batch_def strict_sorted_iff)
qed

lemma history_batch_above:
  "v \<in> set (history_batch reads (Some w)) \<Longrightarrow> w < env_seq v"
  by (auto simp: history_batch_mem replay_after_mem)

section \<open>What the connection has written\<close>

lemma events_of_simps [simp]:
  "events_of [] = []" "events_of (ms @ ns) = events_of ms @ events_of ns"
  "events_of (WsEvent v # ms) = v # events_of ms" "events_of (WsNote # ms) = events_of ms"
  "events_of (WsFrame f # ms) = events_of ms" "events_of (WsReply j # ms) = events_of ms"
  "events_of (WsPing # ms) = events_of ms" "events_of (map WsEvent vs) = vs"
  by (simp_all add: events_of_def map_filter_simps List.map_filter_def o_def)

lemma send_within_cases:
  obtains "send_within ok m c = (True, c\<lparr>wc_out := wc_out c @ [m]\<rparr>)" | "send_within ok m c = (False, c)"
  by (cases "ok (length (wc_out c))") (simp_all add: send_within_def)

lemma send_batch_writes:
  assumes "send_batch ok vs c = (alive, c1)"
  shows "\<exists>n. c1 = c\<lparr>wc_out := wc_out c @ map WsEvent (take n vs)\<rparr> \<and> (alive \<longrightarrow> take n vs = vs)"
  using assms
proof (induction vs arbitrary: c)
  case (Cons v vs)
  show ?case
  proof (cases rule: send_within_cases [of ok "WsEvent v" c])
    case 1
    then obtain n where "c1 = c\<lparr>wc_out := wc_out c @ [WsEvent v] @ map WsEvent (take n vs)\<rparr>"
        "alive \<longrightarrow> take n vs = vs"
      using Cons.IH [of "c\<lparr>wc_out := wc_out c @ [WsEvent v]\<rparr>"] Cons.prems by auto
    then show ?thesis by (intro exI [of _ "Suc n"]) simp
  next
    case 2
    then show ?thesis using Cons.prems by (intro exI [of _ 0]) simp
  qed
qed simp

definition in_order :: "'st ws_conn \<Rightarrow> bool" where
  "in_order c \<longleftrightarrow>
     sorted_wrt (<) (map env_seq (events_of (wc_out c))) \<and>
     (\<forall>v \<in> set (events_of (wc_out c)). \<exists>w. wc_sent_up_to c = Some w \<and> env_seq v \<le> w)"

definition sorted_out :: "'st ws_conn \<Rightarrow> bool" where
  "sorted_out c \<longleftrightarrow> sorted_wrt (<) (map env_seq (events_of (wc_out c)))"

text \<open>Continuing keeps both halves, ending keeps the order of what was written.\<close>

definition keeps :: "bool \<times> 'st ws_conn \<Rightarrow> bool" where
  "keeps r \<longleftrightarrow> (if fst r then in_order (snd r) else sorted_out (snd r))"

lemma in_order_sorted: "in_order c \<Longrightarrow> sorted_out c"
  by (simp add: in_order_def sorted_out_def)

lemma strictly_after:
  assumes "in_order c" "sorted_wrt (<) (map env_seq vs)"
    "\<And>v w. v \<in> set vs \<Longrightarrow> wc_sent_up_to c = Some w \<Longrightarrow> w < env_seq v"
  shows "sorted_wrt (<) (map env_seq (events_of (wc_out c) @ vs))"
  using assms by (fastforce simp: in_order_def sorted_wrt_append)

lemma drain_keeps:
  assumes "in_order c" "reads_of cap ops reads"
  shows "keeps (drain_history ok reads (wc_sent_up_to c) c)"
proof -
  let ?batch = "history_batch reads (wc_sent_up_to c)"
  obtain alive c1 where sb: "send_batch ok ?batch c = (alive, c1)" by fastforce
  then obtain n where c1: "c1 = c\<lparr>wc_out := wc_out c @ map WsEvent (take n ?batch)\<rparr>"
    and all: "alive \<longrightarrow> take n ?batch = ?batch"
    using send_batch_writes by blast
  have bs: "sorted_wrt (<) (map env_seq ?batch)" by (rule history_batch_sorted [OF assms(2)])
  have "sorted_wrt (<) (map env_seq (events_of (wc_out c) @ take n ?batch))"
  proof (rule strictly_after [OF assms(1)])
    show "sorted_wrt (<) (map env_seq (take n ?batch))"
      using bs by (simp add: sorted_wrt_take flip: take_map)
    show "w < env_seq v" if "v \<in> set (take n ?batch)" "wc_sent_up_to c = Some w" for v w
      using that history_batch_above in_set_takeD by fastforce
  qed
  then have out: "sorted_out c1" by (simp add: sorted_out_def c1)
  show ?thesis
  proof (cases alive)
    case False
    then show ?thesis using sb out by (simp add: drain_history_def Let_def keeps_def)
  next
    case True
    let ?w = "if ?batch = [] then wc_sent_up_to c else Some (env_seq (List.last ?batch))"
    have "\<exists>w. ?w = Some w \<and> env_seq v \<le> w" if "v \<in> set (events_of (wc_out c)) \<union> set ?batch" for v
    proof (cases "?batch = []")
      case True
      then show ?thesis using that assms(1) by (auto simp: in_order_def)
    next
      case False
      have "sorted (map env_seq (events_of (wc_out c) @ ?batch))"
        using out all True by (simp add: sorted_out_def c1 strict_sorted_imp_sorted)
      then have "env_seq v \<le> env_seq (List.last ?batch)"
        using that False
        by (cases ?batch rule: rev_cases) (auto simp: sorted_append)
      then show ?thesis using False by simp
    qed
    then have "in_order (c1\<lparr>wc_sent_up_to := ?w\<rparr>)"
      using out all True by (auto simp: in_order_def sorted_out_def c1)
    then show ?thesis using sb True by (simp add: drain_history_def Let_def keeps_def)
  qed
qed

lemma in_order_update:
  "in_order (c\<lparr>wc_stream := x\<rparr>) = in_order c" "in_order (c\<lparr>wc_awaiting_pong := y\<rparr>) = in_order c"
  by (simp_all add: in_order_def)

lemma send_other_keeps:
  assumes "in_order c" "events_of [m] = []"
  shows "keeps (send_within ok m c)"
  using assms in_order_sorted [OF assms(1)]
  by (cases rule: send_within_cases [of ok m c]) (simp_all add: keeps_def in_order_def)

lemma live_event_keeps:
  assumes "in_order c"
  shows "keeps (forward_live_event ok (LiveEvent v) c)"
proof (cases "case wc_sent_up_to c of None \<Rightarrow> False | Some seen \<Rightarrow> env_seq v \<le> seen")
  case True
  then show ?thesis using assms by (simp add: keeps_def)
next
  case False
  then have "sorted_wrt (<) (map env_seq (events_of (wc_out c) @ [v]))"
    by (intro strictly_after [OF assms]) (auto split: option.splits)
  moreover have "env_seq u \<le> env_seq v" if "u \<in> set (events_of (wc_out c))" for u
    using False that assms by (fastforce simp: in_order_def split: option.splits)
  ultimately show ?thesis
    using False in_order_sorted [OF assms]
    by (cases rule: send_within_cases [of ok "WsEvent v" c]) (auto simp: keeps_def in_order_def)
qed

text \<open>An input whose replay, if it is one, reads the rings of the history.\<close>

fun faithful :: "nat \<Rightarrow> backbone_op list \<Rightarrow> 'st ws_input \<Rightarrow> bool" where
  "faithful cap ops (InLive (LiveLagged reads)) \<longleftrightarrow> reads_of cap ops reads"
| "faithful cap ops x \<longleftrightarrow> True"

lemma keeps_then:
  assumes "keeps r" "\<And>c. in_order c \<Longrightarrow> in_order (f c)"
  shows "keeps (case r of (False, c1) \<Rightarrow> (False, c1) | (True, c1) \<Rightarrow> (True, f c1))"
  using assms by (cases r; cases "fst r") (simp_all add: keeps_def)

lemma frame_keeps:
  assumes "in_order c"
  shows "keeps (forward_screencast_frame ok jpeg c)"
  by (cases jpeg)
    (simp_all add: forward_screencast_frame_def keeps_then send_other_keeps [OF assms] in_order_update)

lemma tick_keeps:
  assumes "in_order c"
  shows "keeps (keepalive_tick ok c)"
proof (cases "wc_awaiting_pong c")
  case True
  then show ?thesis using in_order_sorted [OF assms] by (simp add: keepalive_tick_def keeps_def)
next
  case False
  then show ?thesis
    by (simp add: keepalive_tick_def keeps_then send_other_keeps [OF assms] in_order_update)
qed

lemma text_keeps:
  assumes "in_order c"
  shows "keeps (fst (handle_text_message oc ok answer parsed (c, b)),
           fst (snd (handle_text_message oc ok answer parsed (c, b))))"
proof -
  have reply: "send_within ok (WsReply j) (c\<lparr>wc_stream := st\<rparr>) = r \<Longrightarrow> keeps r"
      "send_within ok (WsReply j) c = r \<Longrightarrow> keeps r" for j st r
    using assms by (auto simp: send_other_keeps in_order_update)
  have idle: "keeps (True, c)" using assms by (simp add: keeps_def)
  show ?thesis
    by (auto simp: handle_text_message_def idle intro: reply split: prod.split option.split)
qed

lemma ws_step_keeps:
  assumes "in_order c" "faithful cap ops x"
  shows "keeps (fst (ws_step oc ok x (c, b)), fst (snd (ws_step oc ok x (c, b))))"
proof (cases x)
  case (InLive l)
  have "keeps (forward_live_event ok l c)"
    using assms InLive drain_keeps [OF assms(1)] live_event_keeps [OF assms(1)] in_order_sorted [OF assms(1)]
    by (cases l) (auto simp: keeps_def)
  then show ?thesis using InLive by (cases "forward_live_event ok l c") simp
next
  case (InFrame jpeg)
  then show ?thesis
    using frame_keeps [OF assms(1), of ok jpeg] assms(1)
    by (cases "forward_screencast_frame ok jpeg c") (auto simp: keeps_def)
next
  case (InText parsed answer)
  then show ?thesis using text_keeps [OF assms(1)] by simp
next
  case InTick
  then show ?thesis using tick_keeps [OF assms(1), of ok] by (cases "keepalive_tick ok c") simp
qed (use assms(1) in_order_sorted [OF assms(1)] in \<open>simp_all add: keeps_def in_order_update\<close>)

lemma ws_run_keeps:
  assumes "in_order c" "list_all (faithful cap ops) xs"
  shows "sorted_out (fst (snd (ws_run oc ok xs (c, b))))"
  using assms
proof (induction xs arbitrary: c b)
  case Nil
  then show ?case by (simp add: in_order_sorted)
next
  case (Cons x xs)
  obtain alive c1 b1 where st: "ws_step oc ok x (c, b) = (alive, c1, b1)" by (metis prod_cases3)
  have "keeps (alive, c1)"
    using ws_step_keeps [OF Cons.prems(1), of cap ops x oc ok b] Cons.prems(2) st by simp
  then show ?case
    using Cons.IH [of c1 b1] Cons.prems(2) st by (cases alive) (simp_all add: keeps_def)
qed

lemma in_order_new: "in_order ws_conn_new"
  by (simp add: in_order_def ws_conn_new_def)

section \<open>Nothing a live client is owed is lost\<close>

text \<open>The live envelopes of the inputs, in order, when the receiver neither lagged nor closed.\<close>

fun live_of :: "'st ws_input list \<Rightarrow> envelope list" where
  "live_of [] = []"
| "live_of (InLive (LiveEvent v) # xs) = v # live_of xs"
| "live_of (x # xs) = live_of xs"

fun unbroken :: "'st ws_input \<Rightarrow> bool" where
  "unbroken (InLive (LiveEvent v)) \<longleftrightarrow> True"
| "unbroken (InLive l) \<longleftrightarrow> False"
| "unbroken x \<longleftrightarrow> True"

text \<open>A step that goes on only appends, and only a live event moves the watermark.\<close>

definition grows :: "'st ws_conn \<Rightarrow> 'st ws_conn \<Rightarrow> bool" where
  "grows c c1 \<longleftrightarrow> set (events_of (wc_out c)) \<subseteq> set (events_of (wc_out c1))"

definition calm_write :: "'st ws_conn \<Rightarrow> bool \<times> 'st ws_conn \<Rightarrow> bool" where
  "calm_write c r \<longleftrightarrow> wc_sent_up_to (snd r) = wc_sent_up_to c \<and> grows c (snd r)"

lemma send_other_calm: "events_of [m] = [] \<Longrightarrow> calm_write c (send_within ok m c)"
  by (cases rule: send_within_cases [of ok m c]) (simp_all add: calm_write_def grows_def)

lemma calm_then:
  assumes "calm_write c r" "\<And>c. wc_sent_up_to (f c) = wc_sent_up_to c" "\<And>c. wc_out (f c) = wc_out c"
  shows "calm_write c (case r of (False, c1) \<Rightarrow> (False, c1) | (True, c1) \<Rightarrow> (True, f c1))"
  using assms by (cases r; cases "fst r") (simp_all add: calm_write_def grows_def)

lemma calm_same: "wc_sent_up_to c1 = wc_sent_up_to c \<Longrightarrow> wc_out c1 = wc_out c \<Longrightarrow> calm_write c (a, c1)"
  by (simp add: calm_write_def grows_def)

lemma calm_stream: "calm_write (c\<lparr>wc_stream := st\<rparr>) r = calm_write c r"
  by (simp add: calm_write_def grows_def)

lemma other_step_calm:
  assumes "\<And>l. x \<noteq> InLive l"
  shows "calm_write c (fst (ws_step oc ok x (c, b)), fst (snd (ws_step oc ok x (c, b))))"
proof (cases x)
  case (InFrame jpeg)
  have "calm_write c (forward_screencast_frame ok jpeg c)"
    by (cases jpeg) (simp_all add: forward_screencast_frame_def calm_then send_other_calm)
  then show ?thesis
    using InFrame by (cases "forward_screencast_frame ok jpeg c") (simp add: calm_same)
next
  case (InText parsed answer)
  have reply: "send_within ok (WsReply j) (c\<lparr>wc_stream := st\<rparr>) = r \<Longrightarrow> calm_write c r"
      "send_within ok (WsReply j) c = r \<Longrightarrow> calm_write c r" for j st r
    using send_other_calm [of "WsReply j" "c\<lparr>wc_stream := st\<rparr>" ok] send_other_calm [of "WsReply j" c ok]
    by (auto simp: calm_stream)
  show ?thesis
    by (auto simp: InText handle_text_message_def calm_same intro: reply split: prod.split option.split)
next
  case InTick
  have "calm_write c (keepalive_tick ok c)"
    by (simp add: keepalive_tick_def calm_then send_other_calm calm_same)
  then show ?thesis using InTick by (cases "keepalive_tick ok c") simp
qed (simp_all add: calm_same assms)

lemma live_event_written:
  assumes "forward_live_event ok (LiveEvent v) c = (True, c1)"
  shows "grows c c1 \<and>
     ((\<exists>w. wc_sent_up_to c = Some w \<and> env_seq v \<le> w \<and> c1 = c) \<or>
      wc_sent_up_to c1 = Some (env_seq v) \<and> v \<in> set (events_of (wc_out c1)))"
proof (cases "case wc_sent_up_to c of None \<Rightarrow> False | Some seen \<Rightarrow> env_seq v \<le> seen")
  case True
  then show ?thesis using assms by (auto simp: grows_def split: option.splits)
next
  case False
  then show ?thesis
    using assms by (cases rule: send_within_cases [of ok "WsEvent v" c]) (auto simp: grows_def)
qed

lemma run_grows:
  assumes "ws_run oc ok xs (c, b) = (True, c1, b1)" "list_all unbroken xs"
  shows "grows c c1"
  using assms
proof (induction xs arbitrary: c b)
  case (Cons x xs)
  obtain alive c2 b2 where st: "ws_step oc ok x (c, b) = (alive, c2, b2)" by (metis prod_cases3)
  then have alive: alive and run: "ws_run oc ok xs (c2, b2) = (True, c1, b1)"
    using Cons.prems(1) by (cases alive; simp)+
  have "grows c c2"
  proof (cases "\<exists>l. x = InLive l")
    case True
    then obtain v where "x = InLive (LiveEvent v)" using Cons.prems(2) by (auto elim: unbroken.elims)
    then show ?thesis
      using st alive live_event_written [of ok v c c2]
      by (cases "forward_live_event ok (LiveEvent v) c") simp
  next
    case False
    then show ?thesis using other_step_calm [of x c oc ok b] st by (simp add: calm_write_def)
  qed
  then show ?case using Cons.IH [OF run] Cons.prems(2) by (auto simp: grows_def)
qed (simp add: grows_def)

lemma live_of_other: "(\<And>l. x \<noteq> InLive l) \<Longrightarrow> live_of (x # xs) = live_of xs"
  by (cases x) auto

lemma run_writes_live:
  assumes "ws_run oc ok xs (c, b) = (True, c1, b1)" "list_all unbroken xs"
    "sorted_wrt (<) (map env_seq (live_of xs))" "v \<in> set (live_of xs)"
    "\<forall>w. wc_sent_up_to c = Some w \<longrightarrow> w < env_seq v"
  shows "v \<in> set (events_of (wc_out c1))"
  using assms
proof (induction xs arbitrary: c b)
  case (Cons x xs)
  obtain alive c2 b2 where st: "ws_step oc ok x (c, b) = (alive, c2, b2)" by (metis prod_cases3)
  then have alive: alive and run: "ws_run oc ok xs (c2, b2) = (True, c1, b1)"
    using Cons.prems(1) by (cases alive; simp)+
  show ?case
  proof (cases "\<exists>l. x = InLive l")
    case True
    then obtain u where x: "x = InLive (LiveEvent u)" using Cons.prems(2) by (auto elim: unbroken.elims)
    then have fw: "forward_live_event ok (LiveEvent u) c = (True, c2)"
      using st alive by (cases "forward_live_event ok (LiveEvent u) c") simp
    note written = live_event_written [OF fw]
    show ?thesis
    proof (cases "v = u")
      case True
      then have "v \<in> set (events_of (wc_out c2))" using written Cons.prems(5) by fastforce
      then show ?thesis using run_grows [OF run] Cons.prems(2) by (auto simp: grows_def)
    next
      case False
      then have v: "v \<in> set (live_of xs)" "env_seq u < env_seq v"
        using Cons.prems(3,4) x by auto
      then have "\<forall>w. wc_sent_up_to c2 = Some w \<longrightarrow> w < env_seq v"
        using written Cons.prems(5) by auto
      then show ?thesis using Cons.IH [OF run] Cons.prems(2,3) v x by simp
    qed
  next
    case False
    then have "wc_sent_up_to c2 = wc_sent_up_to c"
      using other_step_calm [of x c oc ok b] st by (simp add: calm_write_def)
    then show ?thesis
      using Cons.IH [OF run] Cons.prems False live_of_other [of x xs] by simp
  qed
qed simp

section \<open>Pings\<close>

lemma send_within_awaiting: "wc_awaiting_pong (snd (send_within ok m c)) = wc_awaiting_pong c"
  by (simp add: send_within_def)

lemma drain_awaiting: "wc_awaiting_pong (snd (drain_history ok reads after c)) = wc_awaiting_pong c"
proof -
  obtain alive c1 where sb: "send_batch ok (history_batch reads after) c = (alive, c1)" by fastforce
  then show ?thesis
    using send_batch_writes [OF sb] by (cases alive) (auto simp: drain_history_def Let_def)
qed

lemma step_awaiting:
  assumes "x \<noteq> InPong" "ws_step oc ok x (c, b) = (alive, c1, b1)" "wc_awaiting_pong c"
  shows "wc_awaiting_pong c1"
proof -
  have sent: "send_within ok m d = (a, d1) \<Longrightarrow> wc_awaiting_pong d1 = wc_awaiting_pong d" for m d a d1
    using send_within_awaiting [of ok m d] by simp
  show ?thesis
  proof (cases x)
    case (InLive l)
    have "wc_awaiting_pong (snd (forward_live_event ok l c))"
      using assms(3) drain_awaiting
      by (cases l) (auto simp: sent split: prod.split bool.split)
    then show ?thesis using InLive assms(2) by (auto split: prod.splits)
  next
    case (InFrame jpeg)
    then show ?thesis
      using assms(2,3)
      by (auto simp: forward_screencast_frame_def dest!: sent split: prod.splits bool.splits option.splits if_splits)
  next
    case (InText parsed answer)
    then show ?thesis
      using assms(2,3)
      by (auto simp: handle_text_message_def dest!: sent split: prod.splits option.splits if_splits)
  qed (use assms in \<open>auto simp: keepalive_tick_def\<close>)
qed

lemma run_awaiting:
  assumes "InPong \<notin> set xs" "ws_run oc ok xs (c, b) = (True, c1, b1)" "wc_awaiting_pong c"
  shows "wc_awaiting_pong c1"
  using assms
proof (induction xs arbitrary: c b)
  case (Cons x xs)
  obtain alive c2 b2 where st: "ws_step oc ok x (c, b) = (alive, c2, b2)" by (metis prod_cases3)
  then have "ws_run oc ok xs (c2, b2) = (True, c1, b1)" using Cons.prems(2) by (cases alive) simp_all
  then show ?case
    using Cons.IH step_awaiting [OF _ st Cons.prems(3)] Cons.prems(1) by auto
qed simp

lemma ws_run_append:
  "ws_run oc ok (xs @ ys) cb =
     (case ws_run oc ok xs cb of (False, cb1) \<Rightarrow> (False, cb1) | (True, cb1) \<Rightarrow> ws_run oc ok ys cb1)"
  by (induction xs arbitrary: cb) (auto split: prod.splits bool.splits)

section \<open>Properties\<close>

text \<open>
  C33. Whatever a connection is handed, and wherever a write fails: the events it has written
  are numbered strictly upwards, so a client never sees an event twice or out of order, across
  the first replay, live events and every refill after a lag. The hypothesis says that a replay
  reads the rings of one history, each session's once.
\<close>
theorem event_feed_strictly_increasing:
  fixes xs :: "'st ws_input list"
  assumes "reads_of cap ops reads" "list_all (faithful cap ops) xs"
  shows "sorted_wrt (<) (map env_seq (events_of (wc_out (fst (snd
           (ws_loop oc ok (Some reads) xs b))))))"
proof -
  obtain alive and c :: "'st ws_conn" where d: "drain_history ok reads None ws_conn_new = (alive, c)"
    by fastforce
  moreover have "keeps (alive, c)"
    using drain_keeps [OF in_order_new assms(1), of ok] by (simp add: ws_conn_new_def flip: d)
  ultimately show ?thesis
    using ws_run_keeps [OF _ assms(2), of c oc ok b]
    by (cases alive) (simp_all add: ws_loop_def keeps_def sorted_out_def)
qed

definition two_sessions :: "backbone_op list" where
  "two_sessions =
     [Publish (SessionId ''a'') SessionStarted ''t'', Publish (SessionId ''a'') SessionClosed ''t'',
      Publish (SessionId ''b'') SessionStarted ''t'']"

definition moment :: "nat \<Rightarrow> backbone" where
  "moment n = backbone_run 4 (take n two_sessions)"

lemma moments:
  "replay_after (SessionId ''a'') None (moment 1) = [\<lparr>env_seq = 0, env_recorded_at = ''t'',
     env_session = SessionId ''a'', env_event = SessionStarted\<rparr>]"
  "replay_after (SessionId ''b'') after (moment 1) = []"
  "replay_after (SessionId ''b'') None (moment 3) = [\<lparr>env_seq = 2, env_recorded_at = ''t'',
     env_session = SessionId ''b'', env_event = SessionStarted\<rparr>]"
  "bb_sent (moment 3) =
     [\<lparr>env_seq = 0, env_recorded_at = ''t'', env_session = SessionId ''a'', env_event = SessionStarted\<rparr>,
      \<lparr>env_seq = 1, env_recorded_at = ''t'', env_session = SessionId ''a'', env_event = SessionClosed\<rparr>,
      \<lparr>env_seq = 2, env_recorded_at = ''t'', env_session = SessionId ''b'', env_event = SessionStarted\<rparr>]"
  by (simp_all add: moment_def two_sessions_def backbone_run_def backbone_with_ring_capacity_def publish_defs
        replay_after_def ring_history_after_def ring_history_def ring_push_def ring_new_def split: option.split)

lemma moment_reads: "reads_of 4 two_sessions [(SessionId ''a'', moment n), (SessionId ''b'', moment k)]"
  by (auto simp: reads_of_def moment_def)

theorem event_feed_strictly_increasing_witness:
  "sorted_wrt (<) (map env_seq (events_of (wc_out (fst (snd
     (ws_loop cell_oneshot (\<lambda>n. True) (Some [(SessionId ''a'', moment 1), (SessionId ''b'', moment 1)])
        (map (InLive \<circ> LiveEvent) (bb_sent (moment 3)) @
         [InLive (LiveLagged [(SessionId ''a'', moment 2), (SessionId ''b'', moment 3)]), InTick] :: unit ws_input list) broker_new))))))"
  by (rule event_feed_strictly_increasing [OF moment_reads]) (simp add: moments moment_reads)

text \<open>The events of a run are numbered without a gap, and a history read holds only earlier ones.\<close>

lemma sent_numbered:
  "map env_seq (bb_sent (backbone_run cap ops)) = [0..<length (bb_sent (backbone_run cap ops))]"
proof -
  have dense: "map env_seq (bb_sent (backbone_run cap ops)) = [0..<bb_next_seq (backbone_run cap ops)]"
    using backbone_run_inv [of cap ops] by (simp add: backbone_inv_def)
  have "length (bb_sent (backbone_run cap ops)) = bb_next_seq (backbone_run cap ops)"
    using arg_cong [OF dense, of length] by simp
  with dense show ?thesis by simp
qed

lemma sent_nth_seq:
  "k < length (bb_sent (backbone_run cap ops)) \<Longrightarrow> env_seq (bb_sent (backbone_run cap ops) ! k) = k"
  using arg_cong [OF sent_numbered, of "\<lambda>l. l ! k" cap ops] by simp

lemma history_batch_below:
  assumes "backbone_inv cap snap" "u \<in> set (history_batch (map (\<lambda>i. (i, snap)) ids) None)"
  shows "env_seq u < bb_next_seq snap"
proof -
  obtain i where "u \<in> set (replay i snap)" using assms(2) by (auto simp: history_batch_mem replay_after_mem)
  then show ?thesis using replay_facts(3) [OF assms(1)] sent_seq_less [OF assms(1)] by blast
qed


lemma small_feed:
  "\<exists>c :: unit ws_conn. ws_loop cell_oneshot (\<lambda>n. True)
     (Some (map (\<lambda>i. (i, backbone_run 4 (take 1 two_sessions))) [SessionId ''a'', SessionId ''b'']))
     (map (InLive \<circ> LiveEvent) (bb_sent (moment 3))) broker_new = (True, c, broker_new)"
  by (simp add: ws_loop_def drain_history_def history_batch_def moments Let_def send_within_def ws_conn_new_def
       flip: moment_def del: One_nat_def)


text \<open>
  The replay reads ring by ring, and the watermark it leaves is the highest number of any ring.
  An event published to a ring already read, while a later ring is still to be read, is neither
  in the replay nor above the watermark: the live stream drops it as a duplicate.
\<close>

lemma torn_replay_loses_an_event:
  "map env_seq (events_of (wc_out (fst (snd
     (ws_loop oc (\<lambda>n. True) (Some [(SessionId ''a'', moment 1), (SessionId ''b'', moment 3)])
        (map (InLive \<circ> LiveEvent) (bb_sent (moment 3))) b))))) = [0, 2]"
  by (simp add: ws_loop_def drain_history_def history_batch_def moments Let_def send_within_def ws_conn_new_def
       del: One_nat_def)

text \<open>
  A silent peer is dropped: the tick after a ping that no pong answered ends the
  connection, whatever else was read or written in between, and nothing after it is served.
\<close>
theorem silent_peer_is_dropped:
  assumes "InPong \<notin> set xs"
  shows "ws_run oc ok (InTick # xs @ InTick # ys) cb = ws_run oc ok (InTick # xs @ [InTick]) cb \<and>
         \<not> fst (ws_run oc ok (InTick # xs @ InTick # ys) cb)"
proof -
  obtain c b where cb: "cb = (c, b)" by fastforce
  obtain alive c1 where tick: "keepalive_tick ok c = (alive, c1)" by fastforce
  show ?thesis
  proof (cases alive)
    case False
    then show ?thesis using tick by (simp add: cb)
  next
    case True
    then have await: "wc_awaiting_pong c1"
      using tick by (auto simp: keepalive_tick_def split: if_splits prod.splits bool.splits)
    obtain going c2 b2 where run: "ws_run oc ok xs (c1, b) = (going, c2, b2)" by (metis prod_cases3)
    show ?thesis
    proof (cases going)
      case False
      then show ?thesis using tick True run by (simp add: cb ws_run_append)
    next
      case True
      then have "wc_awaiting_pong c2" using run_awaiting [OF assms _ await, of oc ok b c2 b2] run by simp
      then show ?thesis using tick \<open>alive\<close> True run by (simp add: cb ws_run_append keepalive_tick_def)
    qed
  qed
qed

theorem silent_peer_is_dropped_witness:
  "\<not> fst (ws_run cell_oneshot (\<lambda>n. True)
     (InTick # [InOther, InText None (\<lambda>i. None :: (string + unit) option)] @ InTick # [InPong])
     (ws_conn_new, broker_new))"
  by (rule silent_peer_is_dropped [THEN conjunct2]) simp

end
