(* ===== verification/Cdp_Page.thy ===== *)
theory Cdp_Page
  imports Engine
begin

text \<open>
  The page side of the Chrome DevTools backend that needs no browser: the deadline and the
  folding of errors (\<open>crates/engine-cdp/src/error.rs\<close>), the key table (\<open>keys.rs\<close>), and from
  \<open>page.rs\<close> the input commands, the capture spacing, the single-consumer claim of the
  observation feed, the in-flight requests and the observations forwarded from raw events. A CDP
  call is its outcome: an answer or an error of the library, after a time.
\<close>

section \<open>Errors of the library\<close>

text \<open>\<open>CdpError\<close>: the variants the code tells apart, with their texts.\<close>

datatype cdp_error =
    CdpTimeout
  | CdpNoResponse
  | CdpLaunch string
  | CdpChrome string
  | CdpChromeMessage string
  | CdpOther string

fun show_cdp_error :: "cdp_error \<Rightarrow> string" where
  "show_cdp_error CdpTimeout = ''Request timed out.''"
| "show_cdp_error CdpNoResponse = ''Received no response from the chromium instance.''"
| "show_cdp_error (CdpLaunch t) = t"
| "show_cdp_error (CdpChrome t) = t"
| "show_cdp_error (CdpChromeMessage t) = t"
| "show_cdp_error (CdpOther t) = t"

fun fold_error :: "cdp_error \<Rightarrow> engine_error" where
  "fold_error CdpTimeout = EngTimeout ''cdp command'' 0"
| "fold_error CdpNoResponse = EngTerminated"
| "fold_error (CdpLaunch t) = EngLaunchFailed t"
| "fold_error (CdpChrome t) = EngInternal (''cdp command failed: '' @ t)"
| "fold_error (CdpChromeMessage t) = EngInternal (''cdp layer failure: '' @ t)"
| "fold_error (CdpOther t) = EngInternal (''cdp layer failure: '' @ t)"

definition command_timeout :: duration where
  "command_timeout = from_secs 30"

definition url_timeout :: duration where
  "url_timeout = from_secs 10"

text \<open>
  What a call does when it is left alone: after so long it answers or fails; \<open>None\<close> never ends.
\<close>

type_synonym 'a cdp_call = "(duration \<times> (cdp_error + 'a)) option"

text \<open>
  \<open>with_deadline_by\<close>: the timer of \<open>tokio::time::timeout\<close> looks at the call first, so an answer
  at the deadline still counts.
\<close>

definition with_deadline_by ::
  "string \<Rightarrow> duration \<Rightarrow> 'a cdp_call \<Rightarrow> (cdp_error \<Rightarrow> engine_error) \<Rightarrow> duration \<times> (engine_error + 'a)" where
  "with_deadline_by operation budget call f =
     (case call of
        None \<Rightarrow> (budget, Inl (EngTimeout operation budget))
      | Some (t, r) \<Rightarrow>
          (if budget < t then (budget, Inl (EngTimeout operation budget))
           else
             (case r of
                Inr v \<Rightarrow> (t, Inr v)
              | Inl e \<Rightarrow> (t, Inl (if e = CdpTimeout then EngTimeout operation t else f e)))))"

definition with_deadline ::
  "string \<Rightarrow> duration \<Rightarrow> 'a cdp_call \<Rightarrow> duration \<times> (engine_error + 'a)" where
  "with_deadline operation budget call = with_deadline_by operation budget call fold_error"

definition transport_cause_of :: "string \<Rightarrow> transport_cause" where
  "transport_cause_of detail =
     (if contains_str detail ''ERR_TIMED_OUT'' \<or> contains_str detail ''ERR_CONNECTION_TIMED_OUT''
      then CauseTimedOut
      else if contains_str detail ''ERR_NAME_NOT_RESOLVED'' then DnsFailed
      else if contains_str detail ''ERR_SSL'' \<or> contains_str detail ''ERR_CERT'' then TlsFailed
      else if contains_str detail ''ERR_ABORTED'' then Aborted
      else ConnectionFailed)"

fun of_the_browser :: "cdp_error \<Rightarrow> bool" where
  "of_the_browser (CdpChrome t) \<longleftrightarrow> True"
| "of_the_browser (CdpChromeMessage t) \<longleftrightarrow> True"
| "of_the_browser _ \<longleftrightarrow> False"

definition fold_navigation :: "string \<Rightarrow> cdp_error \<Rightarrow> engine_error" where
  "fold_navigation url e =
     (let detail = show_cdp_error e
      in if of_the_browser e \<and> (contains_str detail ''net::ERR_'' \<or> contains_str detail ''invalid URL'')
         then EngNavigationFailed url (transport_cause_of detail) detail
         else fold_error e)"

section \<open>Keys\<close>

record key_descriptor =
  kd_code :: string
  kd_virtual :: nat
  kd_text :: "string option"

definition punctuation_keys :: "(char \<times> string \<times> nat) list" where
  "punctuation_keys =
     [(CHR '';'', ''Semicolon'', 186), (CHR ''='', ''Equal'', 187), (CHR '','', ''Comma'', 188),
      (CHR ''-'', ''Minus'', 189), (CHR ''.'', ''Period'', 190), (CHR ''/'', ''Slash'', 191),
      (CHR 0x60, ''Backquote'', 192), (CHR ''['', ''BracketLeft'', 219), (backslash, ''Backslash'', 220),
      (CHR '']'', ''BracketRight'', 221), (CHR 0x27, ''Quote'', 222)]"

definition punctuation :: "char \<Rightarrow> key_descriptor option" where
  "punctuation c =
     map_option (\<lambda>(code, vk). \<lparr>kd_code = code, kd_virtual = vk, kd_text = Some [c]\<rparr>)
       (map_of punctuation_keys c)"

definition named_keys :: "(string \<times> string \<times> nat \<times> string) list" where
  "named_keys =
     [(''Enter'', ''Enter'', 13, [CHR 0x0D]), (''Backspace'', ''Backspace'', 8, []),
      (''Tab'', ''Tab'', 9, [CHR 0x09]), (''Escape'', ''Escape'', 27, []), (''Space'', ''Space'', 32, '' ''),
      (''PageUp'', ''PageUp'', 33, []), (''PageDown'', ''PageDown'', 34, []), (''End'', ''End'', 35, []),
      (''Home'', ''Home'', 36, []), (''ArrowLeft'', ''ArrowLeft'', 37, []), (''ArrowUp'', ''ArrowUp'', 38, []),
      (''ArrowRight'', ''ArrowRight'', 39, []), (''ArrowDown'', ''ArrowDown'', 40, []),
      (''Insert'', ''Insert'', 45, []), (''Delete'', ''Delete'', 46, []), (''F1'', ''F1'', 112, []),
      (''F2'', ''F2'', 113, []), (''F3'', ''F3'', 114, []), (''F4'', ''F4'', 115, []), (''F5'', ''F5'', 116, []),
      (''F6'', ''F6'', 117, []), (''F7'', ''F7'', 118, []), (''F8'', ''F8'', 119, []), (''F9'', ''F9'', 120, []),
      (''F10'', ''F10'', 121, []), (''F11'', ''F11'', 122, []), (''F12'', ''F12'', 123, [])]"

definition named_key :: "string \<Rightarrow> key_descriptor option" where
  "named_key key =
     map_option (\<lambda>(code, vk, ins). \<lparr>kd_code = code, kd_virtual = vk, kd_text = (if ins = [] then None else Some ins)\<rparr>)
       (map_of named_keys key)"

definition char_key :: "char \<Rightarrow> key_descriptor option" where
  "char_key c =
     (if is_upper c \<or> is_lower c then
        Some \<lparr>kd_code = ''Key'' @ [ascii_upper c], kd_virtual = of_char (ascii_upper c), kd_text = Some [c]\<rparr>
      else if is_digit c then Some \<lparr>kd_code = ''Digit'' @ [c], kd_virtual = of_char c, kd_text = Some [c]\<rparr>
      else if c = CHR '' '' then Some \<lparr>kd_code = ''Space'', kd_virtual = 32, kd_text = Some '' ''\<rparr>
      else punctuation c)"

definition descriptor :: "string \<Rightarrow> key_descriptor option" where
  "descriptor key = (case key of [c] \<Rightarrow> char_key c | _ \<Rightarrow> named_key key)"

datatype key_phase = KeyDown | KeyUp

record key_event =
  ke_phase :: key_phase
  ke_key :: string
  ke_code :: "string option"
  ke_windows :: "nat option"
  ke_native :: "nat option"
  ke_text :: "string option"

definition key_params :: "key_phase \<Rightarrow> string \<Rightarrow> key_event" where
  "key_params phase key =
     (let params = \<lparr>ke_phase = phase, ke_key = key, ke_code = None, ke_windows = None, ke_native = None,
                    ke_text = None\<rparr>
      in case descriptor key of
           None \<Rightarrow> params
         | Some d \<Rightarrow>
             params\<lparr>ke_code := Some (kd_code d), ke_windows := Some (kd_virtual d),
                    ke_native := Some (kd_virtual d),
                    ke_text := (if phase = KeyDown then kd_text d else None)\<rparr>)"

section \<open>Input commands\<close>

datatype mouse_kind = MouseMovedEvent | MousePressedEvent | MouseReleasedEvent | MouseWheelEvent

record mouse_event =
  me_kind :: mouse_kind
  me_x :: f64
  me_y :: f64
  me_button :: "mouse_button option"
  me_clicks :: "nat option"
  me_delta :: "(f64 \<times> f64) option"

definition mouse_params :: "mouse_kind \<Rightarrow> f64 \<Rightarrow> f64 \<Rightarrow> mouse_event" where
  "mouse_params kind x y =
     \<lparr>me_kind = kind, me_x = x, me_y = y, me_button = None, me_clicks = None, me_delta = None\<rparr>"

datatype input_command =
    CmdMouse mouse_event
  | CmdKey key_event
  | CmdInsertText string

fun input_command_of :: "input_event \<Rightarrow> input_command" where
  "input_command_of (MouseMove x y) = CmdMouse (mouse_params MouseMovedEvent x y)"
| "input_command_of (MousePressed x y b) =
     CmdMouse ((mouse_params MousePressedEvent x y)\<lparr>me_button := Some b, me_clicks := Some 1\<rparr>)"
| "input_command_of (MouseReleased x y b) =
     CmdMouse ((mouse_params MouseReleasedEvent x y)\<lparr>me_button := Some b, me_clicks := Some 1\<rparr>)"
| "input_command_of (MouseWheel x y dx dy) =
     CmdMouse ((mouse_params MouseWheelEvent x y)\<lparr>me_delta := Some (dx, dy)\<rparr>)"
| "input_command_of (InsertText t) = CmdInsertText t"
| "input_command_of (KeyPressed key) = CmdKey (key_params KeyDown key)"
| "input_command_of (KeyReleased key) = CmdKey (key_params KeyUp key)"

fun input_operation :: "input_command \<Rightarrow> string" where
  "input_operation (CmdMouse m) = ''dispatch_mouse''"
| "input_operation (CmdKey k) = ''dispatch_key''"
| "input_operation (CmdInsertText t) = ''insert_text''"

definition dispatch_input ::
  "(input_command \<Rightarrow> 'a cdp_call) \<Rightarrow> input_event \<Rightarrow> duration \<times> (engine_error + unit)" where
  "dispatch_input call e =
     (case with_deadline (input_operation (input_command_of e)) command_timeout (call (input_command_of e)) of
        (t, r) \<Rightarrow> (t, map_sum id (\<lambda>v. ()) r))"

section \<open>Navigation\<close>

text \<open>The page's URL, read under its own deadline.\<close>

definition effective_url ::
  "string \<Rightarrow> string option cdp_call \<Rightarrow> duration \<times> (engine_error + string)" where
  "effective_url missing url_call =
     (case with_deadline ''page_url'' url_timeout url_call of
        (t, Inl e) \<Rightarrow> (t, Inl e)
      | (t, Inr None) \<Rightarrow> (t, Inl (EngInternal missing))
      | (t, Inr (Some url)) \<Rightarrow> (t, Inr url))"

definition cdp_navigate ::
  "duration \<Rightarrow> unit cdp_call \<Rightarrow> string option cdp_call \<Rightarrow> string \<Rightarrow> duration \<times> (engine_error + string)" where
  "cdp_navigate navigation_timeout goto_call url_call url =
     (case with_deadline_by ''navigate'' navigation_timeout goto_call (fold_navigation url) of
        (t, Inl e) \<Rightarrow> (t, Inl e)
      | (t, Inr u) \<Rightarrow>
          (case effective_url ''page URL unavailable after navigation'' url_call of (t1, r) \<Rightarrow> (t + t1, r)))"

text \<open>
  The history step: the entry at the offset from the current one, or the library error the code
  raises when there is none.
\<close>

definition history_target :: "nat list \<Rightarrow> nat \<Rightarrow> int \<Rightarrow> cdp_error + nat" where
  "history_target entries current offset =
     (let target = int current + offset
      in if target < 0 \<or> int (length entries) \<le> target
         then Inl (CdpChromeMessage (''no history entry at offset '' @
                (if offset < 0 then ''-'' @ show_nat (nat (- offset)) else show_nat (nat offset))))
         else Inr (entries ! nat target))"

section \<open>Capture spacing\<close>

definition capture_due :: "instant option \<Rightarrow> duration \<Rightarrow> instant \<Rightarrow> instant" where
  "capture_due last_at min_interval now =
     now + (case last_at of
              None \<Rightarrow> 0
            | Some at' \<Rightarrow> if now < at' then (at' - now) + min_interval else min_interval - (now - at'))"

text \<open>The reservation of one capture: the slot taken, and how long the caller sleeps.\<close>

definition reserve_capture ::
  "duration option \<Rightarrow> instant \<Rightarrow> instant option \<Rightarrow> duration \<times> instant option" where
  "reserve_capture min_interval now last_at =
     (case min_interval of
        None \<Rightarrow> (0, last_at)
      | Some d \<Rightarrow> (let due = capture_due last_at d now in (due - now, Some due)))"

fun reserve_all :: "duration \<Rightarrow> instant list \<Rightarrow> instant option \<Rightarrow> instant list" where
  "reserve_all d [] last_at = []"
| "reserve_all d (now # nows) last_at =
     (let due = capture_due last_at d now in due # reserve_all d nows (Some due))"

section \<open>The observation feed\<close>

definition claim_observation :: "bool \<Rightarrow> engine_error option \<times> bool" where
  "claim_observation claimed =
     (if claimed
      then (Some (EngUnsupported ''observe'' ''this page's observation feed already has a consumer''), claimed)
      else (None, True))"

definition observe :: "engine_error option \<Rightarrow> bool \<Rightarrow> engine_error option \<times> bool" where
  "observe listeners claimed =
     (case claim_observation claimed of
        (Some e, c) \<Rightarrow> (Some e, c)
      | (None, c) \<Rightarrow> (case listeners of Some e \<Rightarrow> (Some e, False) | None \<Rightarrow> (None, c)))"

definition observation_text_cap :: nat where
  "observation_text_cap = 2000"

definition cap_text :: "string \<Rightarrow> string" where
  "cap_text t =
     (if length t \<le> observation_text_cap \<or> chars_count t \<le> observation_text_cap then t
      else chars_take observation_text_cap t @ [CHR 0xE2, CHR 0x80, CHR 0xA6])"

definition or_unknown :: "string \<Rightarrow> string" where
  "or_unknown field = (if field = [] then ''<unknown>'' else field)"

definition dialog_kind_of :: "string \<Rightarrow> dialog_kind" where
  "dialog_kind_of kind =
     (if kind = ''confirm'' then ConfirmDialog else if kind = ''prompt'' then PromptDialog
      else if kind = ''beforeunload'' then BeforeunloadDialog else AlertDialog)"

definition console_level_of :: "string \<Rightarrow> console_level" where
  "console_level_of ty =
     (if ty = ''debug'' then DebugLevel else if ty = ''info'' then InfoLevel
      else if ty = ''warning'' then WarningLevel
      else if ty = ''error'' \<or> ty = ''assert'' then ErrorLevel else LogLevel)"

record remote_object =
  ro_value :: "json option"
  ro_description :: "string option"
  ro_type :: string

definition console_argument :: "(json \<Rightarrow> string) \<Rightarrow> remote_object \<Rightarrow> string" where
  "console_argument print ob =
     (case ro_value ob of
        Some (JStr t) \<Rightarrow> t
      | Some v \<Rightarrow> print v
      | None \<Rightarrow> (case ro_description ob of Some d \<Rightarrow> d | None \<Rightarrow> ''['' @ ro_type ob @ '']''))"

fun join_spaces :: "string list \<Rightarrow> string" where
  "join_spaces [] = []"
| "join_spaces [w] = w"
| "join_spaces (w # ws) = w @ '' '' @ join_spaces ws"

definition console_text :: "(json \<Rightarrow> string) \<Rightarrow> remote_object list \<Rightarrow> string" where
  "console_text print obs = cap_text (join_spaces (map (console_argument print) obs))"

definition exception_text :: "string option \<Rightarrow> string \<Rightarrow> string" where
  "exception_text description bare = cap_text (unwrap_or description bare)"

section \<open>Requests in flight\<close>

record pending_requests =
  pr_map :: "string \<rightharpoonup> string \<times> string"
  pr_order :: "string list"

definition pending_cap :: nat where
  "pending_cap = 256"

definition pending_default :: pending_requests where
  "pending_default = \<lparr>pr_map = Map.empty, pr_order = []\<rparr>"

definition pending_note :: "string \<Rightarrow> string \<Rightarrow> string \<Rightarrow> pending_requests \<Rightarrow> pending_requests" where
  "pending_note i meth url p =
     (let known = (pr_map p i \<noteq> None);
          p1 = (if \<not> known \<and> pending_cap \<le> length (pr_order p) then
                  (case pr_order p of
                     [] \<Rightarrow> p
                   | oldest # rest \<Rightarrow> p\<lparr>pr_map := (pr_map p)(oldest := None), pr_order := rest\<rparr>)
                else p);
          p2 = (if pr_map p1 i = None then p1\<lparr>pr_order := pr_order p1 @ [i]\<rparr> else p1)
      in p2\<lparr>pr_map := (pr_map p2)(i \<mapsto> (meth, url))\<rparr>)"

definition pending_take :: "string \<Rightarrow> pending_requests \<Rightarrow> (string \<times> string) option \<times> pending_requests" where
  "pending_take i p =
     (case pr_map p i of
        None \<Rightarrow> (None, p)
      | Some e \<Rightarrow>
          (Some e, p\<lparr>pr_map := (pr_map p)(i := None), pr_order := filter (\<lambda>j. j \<noteq> i) (pr_order p)\<rparr>))"

datatype raw_event =
    RawDialog string string
  | RawConsole string "remote_object list"
  | RawException "string option" string
  | RawRequest string string string
  | RawResponse string string int string
  | RawFailure string string string

definition clamp_u32 :: "int \<Rightarrow> nat" where
  "clamp_u32 n = (if n < 0 then 0 else if int u32_max < n then u32_max else nat n)"

text \<open>One event of the select loop: the observation it forwards, and the in-flight requests after it.\<close>

fun observe_event ::
  "(json \<Rightarrow> string) \<Rightarrow> (string \<Rightarrow> string) \<Rightarrow> raw_event \<Rightarrow> pending_requests \<Rightarrow>
     page_observation option \<times> pending_requests" where
  "observe_event print lower (RawDialog kind message) p =
     (Some (DialogOpened (dialog_kind_of kind) (cap_text message)), p)"
| "observe_event print lower (RawConsole ty obs) p =
     (Some (ConsoleEmitted (console_level_of ty) (console_text print obs)), p)"
| "observe_event print lower (RawException description bare) p =
     (Some (UncaughtException (exception_text description bare)), p)"
| "observe_event print lower (RawRequest i meth url) p = (None, pending_note i meth url p)"
| "observe_event print lower (RawResponse i url status ty) p =
     (case pending_take i p of
        (entry, p1) \<Rightarrow>
          (Some (RequestObserved
             \<lparr>rq_method = or_unknown (case entry of Some (m, u) \<Rightarrow> m | None \<Rightarrow> []), rq_url = cap_text url,
              rq_status = Some (clamp_u32 status), rq_resource_type = Some (lower ty), rq_error = None\<rparr>), p1))"
| "observe_event print lower (RawFailure i err ty) p =
     (case pending_take i p of
        (entry, p1) \<Rightarrow>
          (Some (RequestObserved
             \<lparr>rq_method = or_unknown (case entry of Some (m, u) \<Rightarrow> m | None \<Rightarrow> []),
              rq_url = cap_text (or_unknown (case entry of Some (m, u) \<Rightarrow> u | None \<Rightarrow> [])),
              rq_status = None, rq_resource_type = Some (lower ty), rq_error = Some (cap_text err)\<rparr>), p1))"

definition cdp_feed_capacity :: nat where
  "cdp_feed_capacity = 64"

text \<open>
  \<open>try_forward\<close> into the bounded channel: a full one loses the observation, one whose consumer
  left ends the task.
\<close>

record cdp_feed =
  fd_pending :: pending_requests
  fd_queue :: "page_observation list"
  fd_gone :: bool
  fd_ended :: bool

definition feed_new :: cdp_feed where
  "feed_new = \<lparr>fd_pending = pending_default, fd_queue = [], fd_gone = False, fd_ended = False\<rparr>"

definition try_forward :: "page_observation \<Rightarrow> cdp_feed \<Rightarrow> bool \<times> cdp_feed" where
  "try_forward x fd =
     (if fd_gone fd then (False, fd)
      else (True, if length (fd_queue fd) < cdp_feed_capacity then fd\<lparr>fd_queue := fd_queue fd @ [x]\<rparr> else fd))"

text \<open>
  The forwarding task and its consumer: an event of one of the listeners, the consumer taking an
  observation or leaving, and the task noticing that it left.
\<close>

datatype feed_step = FeedEvent raw_event | FeedConsume | FeedLeave | FeedClosed

fun feed_does :: "(json \<Rightarrow> string) \<Rightarrow> (string \<Rightarrow> string) \<Rightarrow> feed_step \<Rightarrow> cdp_feed \<Rightarrow> cdp_feed" where
  "feed_does print lower (FeedEvent e) fd =
     (if fd_ended fd then fd
      else
        (case observe_event print lower e (fd_pending fd) of
           (None, p) \<Rightarrow> fd\<lparr>fd_pending := p\<rparr>
         | (Some x, p) \<Rightarrow>
             (case try_forward x (fd\<lparr>fd_pending := p\<rparr>) of (going, fd1) \<Rightarrow> fd1\<lparr>fd_ended := \<not> going\<rparr>)))"
| "feed_does print lower FeedConsume fd = fd\<lparr>fd_queue := tl (fd_queue fd)\<rparr>"
| "feed_does print lower FeedLeave fd = fd\<lparr>fd_gone := True\<rparr>"
| "feed_does print lower FeedClosed fd = (if fd_gone fd then fd\<lparr>fd_ended := True\<rparr> else fd)"

section \<open>Deadlines\<close>

lemma deadline_by_within: "fst (with_deadline_by operation budget call f) \<le> budget"
  by (auto simp: with_deadline_by_def split: option.split sum.split)

lemma deadline_within: "fst (with_deadline operation budget call) \<le> budget"
  by (simp add: with_deadline_def deadline_by_within)

lemma silent_call_times_out:
  "with_deadline operation budget None = (budget, Inl (EngTimeout operation budget))"
  by (simp add: with_deadline_def with_deadline_by_def)

lemma answer_in_time:
  "t \<le> budget \<Longrightarrow> with_deadline operation budget (Some (t, Inr v)) = (t, Inr v)"
  by (simp add: with_deadline_def with_deadline_by_def)

lemma effective_url_within: "fst (effective_url missing call) \<le> url_timeout"
  using deadline_within [of "''page_url''" url_timeout call]
  by (auto simp: effective_url_def split: prod.split sum.split option.split)

lemma dispatch_within: "fst (dispatch_input call e) \<le> command_timeout"
  using deadline_within [of "input_operation (input_command_of e)" command_timeout "call (input_command_of e)"]
  by (auto simp: dispatch_input_def split: prod.split)

text \<open>
  A navigation always comes back, and within the configured timeout plus the budget of the
  URL read, whether or not the browser ever answers; a failure that \<open>goto\<close> reports of the
  network or the address is a navigation failure of that URL.
\<close>
theorem navigation_returns_in_time:
  "fst (cdp_navigate navigation_timeout goto url_call url) \<le> navigation_timeout + url_timeout"
proof -
  obtain t r where goto: "with_deadline_by ''navigate'' navigation_timeout goto (fold_navigation url) = (t, r)"
    by fastforce
  then have "t \<le> navigation_timeout" by (metis deadline_by_within fst_conv)
  then show ?thesis
    using goto effective_url_within [of "''page URL unavailable after navigation''" url_call]
    by (auto simp: cdp_navigate_def split: sum.split prod.split)
qed

lemma network_failure_is_named:
  assumes "contains_str detail ''net::ERR_''" "t \<le> navigation_timeout"
  shows "cdp_navigate navigation_timeout (Some (t, Inl (CdpChromeMessage detail))) url_call url =
    (t, Inl (EngNavigationFailed url (transport_cause_of detail) detail))"
  using assms by (simp add: cdp_navigate_def with_deadline_by_def fold_navigation_def)

section \<open>Typing\<close>

text \<open>Only a key going down carries text, and a single character types itself.\<close>

lemma key_up_types_nothing: "ke_text (key_params KeyUp key) = None"
  by (simp add: key_params_def Let_def split: option.split)

lemma char_types_itself:
  assumes "char_key c = Some d"
  shows "kd_text d = Some [c]"
  using assms by (auto simp: char_key_def punctuation_def split: if_splits)

lemma letters_share_their_key:
  assumes "is_lower c"
  shows "map_option kd_code (char_key c) = map_option kd_code (char_key (ascii_upper c)) \<and>
    map_option kd_virtual (char_key c) = map_option kd_virtual (char_key (ascii_upper c))"
proof -
  have "is_upper (ascii_upper c)" "\<not> is_lower (ascii_upper c)"
    using assms by (auto simp: ascii_upper_def is_lower_def is_upper_def)
  then show ?thesis using assms by (simp add: char_key_def ascii_upper_def)
qed

section \<open>Captures are spaced\<close>

lemma capture_due_max: "capture_due (Some a) d now = max now (a + d)"
  by (auto simp: capture_due_def)

lemma capture_due_None: "capture_due None d now = now"
  by (simp add: capture_due_def)

lemma reserved_after: "list_all (\<lambda>due. a + d \<le> due) (reserve_all d nows (Some a))"
proof (induction nows arbitrary: a)
  case (Cons now nows)
  have "list_all (\<lambda>due. max now (a + d) + d \<le> due) (reserve_all d nows (Some (max now (a + d))))"
    by (rule Cons.IH)
  then show ?case by (auto simp: Let_def capture_due_max elim!: list.pred_mono_strong)
qed simp

text \<open>
  The captures of a page are spaced by the configured interval: whoever asks, and whatever the
  clock of a caller says, the reserved instants of consecutive captures are at least the interval
  apart, none lies before its request, and a capture that is not held back by the one before it
  happens at once.
\<close>
theorem captures_are_spaced:
  "sorted_wrt (\<lambda>a b. a + d \<le> b) (reserve_all d nows last_at) \<and>
   list_all2 (\<le>) nows (reserve_all d nows last_at)"
proof (induction nows arbitrary: last_at)
  case (Cons now nows)
  have "now \<le> capture_due last_at d now" by (simp add: capture_due_def)
  then show ?case using Cons.IH reserved_after by (simp add: Let_def list_all_iff)
qed simp

lemma capture_without_delay: "a + d \<le> now \<Longrightarrow> reserve_capture (Some d) now (Some a) = (0, Some now)"
  by (simp add: reserve_capture_def capture_due_max)

section \<open>The feed stays bounded\<close>

definition pending_ok :: "pending_requests \<Rightarrow> bool" where
  "pending_ok p \<longleftrightarrow> distinct (pr_order p) \<and> length (pr_order p) \<le> pending_cap \<and>
     (\<forall>i. i \<in> set (pr_order p) \<longleftrightarrow> pr_map p i \<noteq> None)"

lemma pending_note_ok:
  assumes "pending_ok p"
  shows "pending_ok (pending_note i meth url p)"
proof (cases "pr_map p i = None \<and> pending_cap \<le> length (pr_order p)")
  case True
  then obtain oldest rest where order: "pr_order p = oldest # rest" by (cases "pr_order p") (auto simp: pending_cap_def)
  moreover have "i \<notin> set (pr_order p)" using True assms by (simp add: pending_ok_def)
  ultimately show ?thesis using True assms by (auto simp: pending_ok_def pending_note_def Let_def)
next
  case False
  then show ?thesis using assms by (auto simp: pending_ok_def pending_note_def Let_def not_le)
qed

lemma pending_take_ok: "pending_ok p \<Longrightarrow> pending_take i p = (e, p1) \<Longrightarrow> pending_ok p1"
  by (cases "pr_map p i")
    (auto simp: pending_ok_def pending_take_def dom_def intro: le_trans [OF length_filter_le] split: if_splits)

text \<open>
  What an observation holds of the page's own text: the capped texts; and, of a request, the
  method and the resource type, which pass through as the events of the browser name them.
\<close>

fun observation_texts :: "page_observation \<Rightarrow> string list" where
  "observation_texts (DialogOpened k t) = [t]"
| "observation_texts (ConsoleEmitted l t) = [t]"
| "observation_texts (UncaughtException t) = [t]"
| "observation_texts (RequestObserved r) = rq_url r # (case rq_error r of None \<Rightarrow> [] | Some e \<Rightarrow> [e])"

definition short_texts :: "page_observation \<Rightarrow> bool" where
  "short_texts x \<longleftrightarrow> list_all (\<lambda>t. chars_count t \<le> observation_text_cap + 1) (observation_texts x)"

lemma cap_text_short: "chars_count (cap_text t) \<le> observation_text_cap + 1"
  using chars_count_le_length [of t]
  by (auto simp: cap_text_def chars_count_chars_take starts_char_def)

lemma observe_event_short: "observe_event print lower e p = (Some x, p1) \<Longrightarrow> short_texts x"
  using cap_text_short
  by (cases e) (auto simp: short_texts_def console_text_def exception_text_def split: prod.splits)

lemma observe_event_ok: "pending_ok p \<Longrightarrow> observe_event print lower e p = (x, p1) \<Longrightarrow> pending_ok p1"
  by (cases e) (auto simp: pending_note_ok pending_take_ok split: prod.splits)

definition feed_ok :: "cdp_feed \<Rightarrow> bool" where
  "feed_ok fd \<longleftrightarrow> pending_ok (fd_pending fd) \<and> length (fd_queue fd) \<le> cdp_feed_capacity \<and>
     list_all short_texts (fd_queue fd)"

lemma try_forward_ok: "feed_ok fd \<Longrightarrow> short_texts x \<Longrightarrow> try_forward x fd = (b, fd1) \<Longrightarrow> feed_ok fd1"
  by (auto simp: try_forward_def feed_ok_def split: if_splits)

lemma feed_does_ok:
  assumes "feed_ok fd"
  shows "feed_ok (feed_does print lower s fd)"
proof (cases s)
  case (FeedEvent e)
  obtain x p where ev: "observe_event print lower e (fd_pending fd) = (x, p)" by fastforce
  then have taken: "feed_ok (fd\<lparr>fd_pending := p\<rparr>)"
    using assms observe_event_ok [OF _ ev] by (simp add: feed_ok_def)
  show ?thesis
  proof (cases x)
    case None
    then show ?thesis using FeedEvent ev taken assms by simp
  next
    case (Some ob)
    obtain going fd1 where send: "try_forward ob (fd\<lparr>fd_pending := p\<rparr>) = (going, fd1)" by fastforce
    have "feed_ok fd1" using try_forward_ok [OF taken _ send] observe_event_short ev Some by blast
    then have "feed_ok (fd1\<lparr>fd_ended := \<not> going\<rparr>)" by (simp add: feed_ok_def)
    then show ?thesis using FeedEvent ev Some send assms by simp
  qed
next
  case FeedConsume
  then show ?thesis using assms by (cases "fd_queue fd") (simp_all add: feed_ok_def)
qed (use assms in \<open>simp_all add: feed_ok_def\<close>)

interpretation page_feed: guarded_state feed_new "feed_does print lower" feed_ok
  for print :: "json \<Rightarrow> string" and lower :: "string \<Rightarrow> string"
  by unfold_locales
    (simp_all add: feed_does_ok, simp add: feed_ok_def feed_new_def pending_ok_def pending_default_def)

definition reported_type :: "raw_event set \<Rightarrow> string \<Rightarrow> bool" where
  "reported_type evs ty \<longleftrightarrow>
     (\<exists>i url status. RawResponse i url status ty \<in> evs) \<or> (\<exists>i err. RawFailure i err ty \<in> evs)"

fun names_its_events :: "(string \<Rightarrow> string) \<Rightarrow> raw_event set \<Rightarrow> page_observation \<Rightarrow> bool" where
  "names_its_events lower evs (RequestObserved r) \<longleftrightarrow>
     (rq_method r = ''<unknown>'' \<or> (\<exists>i url. RawRequest i (rq_method r) url \<in> evs)) \<and>
     (\<exists>ty. reported_type evs ty \<and> rq_resource_type r = Some (lower ty))"
| "names_its_events lower evs x \<longleftrightarrow> True"

definition feed_from :: "(string \<Rightarrow> string) \<Rightarrow> raw_event set \<Rightarrow> cdp_feed \<Rightarrow> bool" where
  "feed_from lower evs fd \<longleftrightarrow>
     (\<forall>i m u. pr_map (fd_pending fd) i = Some (m, u) \<longrightarrow> (\<exists>j. RawRequest j m u \<in> evs)) \<and>
     list_all (names_its_events lower evs) (fd_queue fd)"

definition pending_from :: "raw_event set \<Rightarrow> pending_requests \<Rightarrow> bool" where
  "pending_from evs p \<longleftrightarrow> (\<forall>i m u. pr_map p i = Some (m, u) \<longrightarrow> (\<exists>j. RawRequest j m u \<in> evs))"

lemma pending_note_from:
  assumes "pending_from evs p" "RawRequest i m u \<in> evs"
  shows "pending_from evs (pending_note i m u p)"
  using assms
  by (auto simp: pending_from_def pending_note_def Let_def split: list.splits if_splits)

lemma pending_take_from:
  assumes "pending_from evs p" "pending_take i p = (e, p1)"
  shows "pending_from evs p1" "e = Some (m, u) \<Longrightarrow> \<exists>j. RawRequest j m u \<in> evs"
  using assms by (auto simp: pending_from_def pending_take_def split: option.splits if_splits)

lemma observe_event_from:
  assumes "pending_from evs p" "e \<in> evs" "observe_event print lower e p = (x, p1)"
  shows "pending_from evs p1 \<and> (\<forall>ob. x = Some ob \<longrightarrow> names_its_events lower evs ob)"
proof (cases e)
  case (RawRequest i m u)
  then show ?thesis using assms pending_note_from by auto
next
  case (RawResponse i url status ty)
  obtain entry p2 where take: "pending_take i p = (entry, p2)" by fastforce
  have "reported_type evs ty" using assms(2) RawResponse by (auto simp: reported_type_def)
  moreover note pending_take_from [OF assms(1) take]
  ultimately show ?thesis
    using assms(3) RawResponse take by (cases entry) (auto simp: or_unknown_def)
next
  case (RawFailure i err ty)
  obtain entry p2 where take: "pending_take i p = (entry, p2)" by fastforce
  have "reported_type evs ty" using assms(2) RawFailure by (auto simp: reported_type_def)
  moreover note pending_take_from [OF assms(1) take]
  ultimately show ?thesis
    using assms(3) RawFailure take by (cases entry) (auto simp: or_unknown_def)
qed (use assms in auto)

lemma feed_does_from:
  assumes "feed_from lower evs fd" "\<And>e. s = FeedEvent e \<Longrightarrow> e \<in> evs"
  shows "feed_from lower evs (feed_does print lower s fd)"
proof (cases s)
  case (FeedEvent e)
  obtain x p where ev: "observe_event print lower e (fd_pending fd) = (x, p)" by fastforce
  have "pending_from evs (fd_pending fd)" using assms(1) by (simp add: feed_from_def pending_from_def)
  from observe_event_from [OF this assms(2) [OF FeedEvent] ev] show ?thesis
    using assms(1) FeedEvent ev
    by (auto simp: feed_from_def pending_from_def try_forward_def split: option.splits prod.splits)
next
  case FeedConsume
  then show ?thesis using assms(1) by (cases "fd_queue fd") (simp_all add: feed_from_def)
qed (use assms(1) in \<open>simp_all add: feed_from_def\<close>)

lemma feed_run_from:
  assumes "feed_from lower evs fd" "\<And>e. FeedEvent e \<in> set steps \<Longrightarrow> e \<in> evs"
  shows "feed_from lower evs (run_ops (feed_does print lower) steps fd)"
  using assms
proof (induction steps arbitrary: fd)
  case (Cons s steps)
  then show ?case using feed_does_from [OF Cons.prems(1), of s print] by simp
qed simp

text \<open>
  C28. What a page can make its observation feed hold: whatever events it causes, however many
  requests it leaves open and whether or not the consumer keeps up, at most 256 requests are
  remembered and at most 64 observations wait; every message, URL and error text of a waiting
  observation has at most 2000 characters and the ellipsis. The two texts of a request that no
  cap covers come from the browser's own events: its method, or \<open><unknown>\<close>, is the one a request
  event named, and its resource type that of a response or failure event, in lower case.
\<close>
theorem observation_feed_bounded:
  fixes print :: "json \<Rightarrow> string" and lower :: "string \<Rightarrow> string" and steps :: "feed_step list"
  defines "fd \<equiv> run_ops (feed_does print lower) steps feed_new"
  shows "card (dom (pr_map (fd_pending fd))) \<le> 256 \<and> length (fd_queue fd) \<le> 64 \<and>
    list_all (\<lambda>x. list_all (\<lambda>t. chars_count t \<le> 2001) (observation_texts x)) (fd_queue fd) \<and>
    list_all (names_its_events lower {e. FeedEvent e \<in> set steps}) (fd_queue fd)"
proof -
  have ok: "feed_ok fd" unfolding fd_def by (rule page_feed.run_inv)
  then have "dom (pr_map (fd_pending fd)) = set (pr_order (fd_pending fd))"
    by (auto simp: feed_ok_def pending_ok_def)
  then have "card (dom (pr_map (fd_pending fd))) = length (pr_order (fd_pending fd))"
    using ok by (simp add: feed_ok_def pending_ok_def distinct_card)
  moreover have "short_texts = (\<lambda>x. list_all (\<lambda>t. chars_count t \<le> 2001) (observation_texts x))"
    by (simp add: fun_eq_iff short_texts_def observation_text_cap_def)
  moreover have "feed_from lower {e. FeedEvent e \<in> set steps} fd"
    unfolding fd_def
    by (rule feed_run_from) (simp_all add: feed_from_def feed_new_def pending_default_def)
  ultimately show ?thesis
    using ok by (simp add: feed_ok_def pending_ok_def pending_cap_def cdp_feed_capacity_def feed_from_def)
qed

text \<open>The method of a request is the page's own text as well, and no cap applies to it.\<close>

lemma method_is_not_capped:
  "observe_event print lower (RawResponse i url status ty) (pending_note i (replicate n CHR ''X'') u pending_default) =
     (Some (RequestObserved \<lparr>rq_method = or_unknown (replicate n CHR ''X''), rq_url = cap_text url,
        rq_status = Some (clamp_u32 status), rq_resource_type = Some (lower ty), rq_error = None\<rparr>),
      pending_default)"
  by (simp add: pending_note_def pending_take_def pending_default_def pending_cap_def fun_eq_iff)

text \<open>The feed has one consumer, and a claim whose listeners could not be registered is given back.\<close>

lemma observe_is_exclusive: "observe l True = (Some e, c) \<or> observe l False = (None, c) \<Longrightarrow> c"
  by (auto simp: observe_def claim_observation_def split: option.splits)

lemma failed_observe_releases: "observe (Some e) False = (Some e, False)"
  by (simp add: observe_def claim_observation_def)

end
