(* ===== verification/Cdp_Prepare.thy ===== *)
theory Cdp_Prepare
  imports Cdp_Page
begin

text \<open>
  The preparation of a page's reference scope, \<open>prepare_once\<close> of
  \<open>crates/engine-cdp/src/context.rs\<close> over the scope operations of \<open>page.rs\<close>, as a protocol
  between the engine and a page that may act before every CDP call. Scopes the engine mints are
  numbered and unguessable: the page can answer one only after it could call a minter that
  returns it. Every call may be answered, or lost before or after it took effect.
\<close>

section \<open>Documents and the page\<close>

datatype scope = Minted nat | Chosen string

text \<open>
  The main-world property the serializer reads: absent, one that can still be replaced, the
  document-start minter, which answers a new scope at every call (\<open>entropy.js\<close>), the minter
  \<open>define_locked_scope\<close> installs, or a locked function of the page, with what it answers at the
  moment.
\<close>

datatype minter = Absent | Loose | StartMinter | FixedMinter scope | PageMinter "scope option"

fun engines_own :: "minter \<Rightarrow> bool" where
  "engines_own StartMinter \<longleftrightarrow> True"
| "engines_own (FixedMinter s) \<longleftrightarrow> (case s of Minted n \<Rightarrow> True | Chosen x \<Rightarrow> False)"
| "engines_own _ \<longleftrightarrow> False"

record cdp_document =
  dc_serial :: nat
  dc_minter :: minter
  dc_shadow :: bool
  dc_claim :: "scope option"
  dc_tapped :: bool
  dc_preload :: bool

record target =
  tg_doc :: cdp_document
  tg_main_registered :: bool
  tg_shadow_registered :: bool
  tg_minted :: nat
  tg_leaked :: "nat list"
  tg_calls :: nat

text \<open>
  What the page does between calls: load a document, before whose scripts the registrations run
  unless a preload locks the name first; plant or change a locked function; leave a replaceable
  property; or replace \<open>Object.defineProperty\<close>.
\<close>

datatype page_move = PmLoad bool | PmPlant "scope option" | PmLoose | PmTap

definition plantable :: "scope option \<Rightarrow> target \<Rightarrow> bool" where
  "plantable a t \<longleftrightarrow> (case a of Some (Minted n) \<Rightarrow> n \<in> set (tg_leaked t) | _ \<Rightarrow> True)"

definition load_document :: "bool \<Rightarrow> target \<Rightarrow> target" where
  "load_document preload t =
     t\<lparr>tg_doc := \<lparr>dc_serial = dc_serial (tg_doc t) + 1,
         dc_minter = (if preload then PageMinter None
                      else if tg_main_registered t then StartMinter else Absent),
         dc_shadow = tg_shadow_registered t, dc_claim = None, dc_tapped = False, dc_preload = preload\<rparr>\<rparr>"

fun page_acts :: "page_move \<Rightarrow> target \<Rightarrow> target" where
  "page_acts (PmLoad preload) t = load_document preload t"
| "page_acts (PmPlant a) t =
     (if engines_own (dc_minter (tg_doc t)) \<or> \<not> plantable a t then t
      else t\<lparr>tg_doc := (tg_doc t)\<lparr>dc_minter := PageMinter a\<rparr>\<rparr>)"
| "page_acts PmLoose t =
     (if dc_minter (tg_doc t) \<in> {Absent, Loose} then t\<lparr>tg_doc := (tg_doc t)\<lparr>dc_minter := Loose\<rparr>\<rparr> else t)"
| "page_acts PmTap t = t\<lparr>tg_doc := (tg_doc t)\<lparr>dc_tapped := True\<rparr>\<rparr>"

section \<open>Calls\<close>

datatype call_fault = Answered | LostUndone | LostDone

record call_env =
  ce_moves :: "page_move list"
  ce_fault :: call_fault

type_synonym world = "nat \<Rightarrow> call_env"

definition cdp_call ::
  "world \<Rightarrow> string \<Rightarrow> (target \<Rightarrow> (engine_error + 'a) \<times> target) \<Rightarrow> target \<Rightarrow> (engine_error + 'a) \<times> target" where
  "cdp_call w operation f t =
     (let e = w (tg_calls t);
          t1 = run_ops page_acts (ce_moves e) (t\<lparr>tg_calls := tg_calls t + 1\<rparr>);
          lost = Inl (EngTimeout operation command_timeout)
      in case ce_fault e of
           Answered \<Rightarrow> f t1
         | LostUndone \<Rightarrow> (lost, t1)
         | LostDone \<Rightarrow> (lost, snd (f t1)))"

definition bind_call ::
  "(target \<Rightarrow> (engine_error + 'a) \<times> target) \<Rightarrow> ('a \<Rightarrow> target \<Rightarrow> (engine_error + 'b) \<times> target) \<Rightarrow>
     target \<Rightarrow> (engine_error + 'b) \<times> target" where
  "bind_call m k t = (case m t of (Inl e, t1) \<Rightarrow> (Inl e, t1) | (Inr a, t1) \<Rightarrow> k a t1)"

text \<open>An evaluation in a world, or on an object, of a document that is gone fails in the browser.\<close>

definition in_document ::
  "nat \<Rightarrow> (target \<Rightarrow> (engine_error + 'a) \<times> target) \<Rightarrow> target \<Rightarrow> (engine_error + 'a) \<times> target" where
  "in_document serial f t =
     (if dc_serial (tg_doc t) = serial then f t
      else (Inl (EngInternal ''cdp command failed: Cannot find context with specified id''), t))"

section \<open>Operations of the page\<close>

definition ref_scope_property :: string where
  "ref_scope_property = ''__rutterRefScope''"

definition claim_property :: string where
  "claim_property = ''__rutterEngineClaim''"

definition define_refused_prefix :: string where
  "define_refused_prefix = ''install the document scope:''"

definition ref_scope_chars :: nat where
  "ref_scope_chars = 6"

definition is_scope :: "string \<Rightarrow> bool" where
  "is_scope s \<longleftrightarrow> length s = ref_scope_chars \<and> list_all (\<lambda>c. is_lower c \<or> is_digit c) s"

definition install_entropy_capture :: "world \<Rightarrow> target \<Rightarrow> (engine_error + unit) \<times> target" where
  "install_entropy_capture w =
     bind_call (cdp_call w ''install_entropy_capture'' (\<lambda>t. (Inr (), t\<lparr>tg_main_registered := True\<rparr>)))
       (\<lambda>u. cdp_call w ''install_entropy_capture_shadow'' (\<lambda>t. (Inr (), t\<lparr>tg_shadow_registered := True\<rparr>)))"

definition isolated_world :: "world \<Rightarrow> target \<Rightarrow> (engine_error + nat) \<times> target" where
  "isolated_world w =
     bind_call (cdp_call w ''get_frame_tree'' (\<lambda>t. (Inr (), t)))
       (\<lambda>u. cdp_call w ''create_isolated_world'' (\<lambda>t. (Inr (dc_serial (tg_doc t)), t)))"

definition document_start_ran :: "world \<Rightarrow> target \<Rightarrow> (engine_error + bool) \<times> target" where
  "document_start_ran w =
     bind_call (isolated_world w)
       (\<lambda>ctx. cdp_call w ''probe_document_start'' (in_document ctx (\<lambda>t. (Inr (dc_shadow (tg_doc t)), t))))"

definition claim_document_scope :: "world \<Rightarrow> scope \<Rightarrow> target \<Rightarrow> (engine_error + unit) \<times> target" where
  "claim_document_scope w s =
     bind_call (isolated_world w)
       (\<lambda>ctx. cdp_call w ''claim_document_scope''
          (in_document ctx (\<lambda>t. (Inr (), t\<lparr>tg_doc := (tg_doc t)\<lparr>dc_claim := Some s\<rparr>\<rparr>))))"

text \<open>The probe names the marker bare, so a document without one answers with an exception.\<close>

definition unclaimed_detail :: string where
  "unclaimed_detail =
     ''probe the scope claim: ReferenceError: '' @ claim_property @ '' is not defined''"

definition document_scope_claimed :: "world \<Rightarrow> scope \<Rightarrow> target \<Rightarrow> (engine_error + bool) \<times> target" where
  "document_scope_claimed w s =
     bind_call (isolated_world w)
       (\<lambda>ctx. cdp_call w ''probe_scope_claim''
          (in_document ctx (\<lambda>t.
             case dc_claim (tg_doc t) of
               None \<Rightarrow> (Inl (EngInternal unclaimed_detail), t)
             | Some c \<Rightarrow> (Inr (c = s), t))))"

definition mint_scope_in_isolated_world :: "world \<Rightarrow> target \<Rightarrow> (engine_error + scope) \<times> target" where
  "mint_scope_in_isolated_world w =
     bind_call (isolated_world w)
       (\<lambda>ctx. cdp_call w ''mint_ref_scope''
          (in_document ctx (\<lambda>t. (Inr (Minted (tg_minted t)), t\<lparr>tg_minted := tg_minted t + 1\<rparr>))))"

text \<open>
  The define in the main world. A page that replaced \<open>Object.defineProperty\<close> sees the scope and
  the define lands nowhere; a locked property refuses it; otherwise the engine's minter is in
  place, and the page can call it from then on.
\<close>

definition leak :: "scope \<Rightarrow> target \<Rightarrow> target" where
  "leak s t = (case s of Minted n \<Rightarrow> t\<lparr>tg_leaked := n # tg_leaked t\<rparr> | Chosen x \<Rightarrow> t)"

definition run_define :: "scope \<Rightarrow> target \<Rightarrow> (engine_error + unit) \<times> target" where
  "run_define s t =
     (if dc_tapped (tg_doc t) then (Inr (), leak s t)
      else
        (case dc_minter (tg_doc t) of
           Absent \<Rightarrow> (Inr (), leak s (t\<lparr>tg_doc := (tg_doc t)\<lparr>dc_minter := FixedMinter s\<rparr>\<rparr>))
         | Loose \<Rightarrow> (Inr (), leak s (t\<lparr>tg_doc := (tg_doc t)\<lparr>dc_minter := FixedMinter s\<rparr>\<rparr>))
         | _ \<Rightarrow> (Inl (EngInternal (define_refused_prefix @ '' TypeError: Cannot redefine property'')), t)))"

definition define_locked_scope :: "world \<Rightarrow> scope \<Rightarrow> target \<Rightarrow> (engine_error + unit) \<times> target" where
  "define_locked_scope w s = cdp_call w ''install_ref_scope'' (run_define s)"

text \<open>What the browser reports of the property: the document it belongs to, when it is locked.\<close>

definition not_locked_detail :: string where
  "not_locked_detail =
     ''the document did not take a locked '' @ ref_scope_property @
     '': a page that can replace it can choose its own scope''"

definition locked_scope_minter :: "world \<Rightarrow> target \<Rightarrow> (engine_error + nat) \<times> target" where
  "locked_scope_minter w =
     bind_call (cdp_call w ''read_global'' (\<lambda>t. (Inr (dc_serial (tg_doc t)), t)))
       (\<lambda>ob. cdp_call w ''read_global_properties''
          (in_document ob (\<lambda>t.
             case dc_minter (tg_doc t) of
               Absent \<Rightarrow> (Inl (EngInternal not_locked_detail), t)
             | Loose \<Rightarrow> (Inl (EngInternal not_locked_detail), t)
             | _ \<Rightarrow> (Inr ob, t))))"

definition ask_minter :: "target \<Rightarrow> scope option \<times> target" where
  "ask_minter t =
     (case dc_minter (tg_doc t) of
        StartMinter \<Rightarrow> (Some (Minted (tg_minted t)), t\<lparr>tg_minted := tg_minted t + 1\<rparr>)
      | FixedMinter s \<Rightarrow> (Some s, t)
      | PageMinter a \<Rightarrow> (a, t)
      | _ \<Rightarrow> (None, t))"

definition verify_locked_scope :: "world \<Rightarrow> scope \<Rightarrow> target \<Rightarrow> (engine_error + bool) \<times> target" where
  "verify_locked_scope w s =
     bind_call (locked_scope_minter w)
       (\<lambda>ob. cdp_call w ''call_ref_scope''
          (in_document ob (\<lambda>t. case ask_minter t of (answered, t1) \<Rightarrow> (Inr (answered = Some s), t1))))"

section \<open>Preparation\<close>

definition refused_define :: "engine_error \<Rightarrow> bool" where
  "refused_define e =
     (case e of EngInternal detail \<Rightarrow> prefix define_refused_prefix detail | _ \<Rightarrow> False)"

definition own_minter_detail :: string where
  "own_minter_detail =
     ''the document's '' @ ref_scope_property @
     '' did not answer with the minted scope: a page that keeps its own minter can choose its own scope''"

text \<open>The fresh mint of the third way, with the recorded scope of the target's gate.\<close>

definition mint_fresh ::
  "world \<Rightarrow> scope option \<Rightarrow> target \<Rightarrow> engine_error option \<times> scope option \<times> target" where
  "mint_fresh w recorded t =
     (case mint_scope_in_isolated_world w t of
        (Inl e, t1) \<Rightarrow> (Some e, recorded, t1)
      | (Inr s, t1) \<Rightarrow>
          (case claim_document_scope w s t1 of
             (Inl e, t2) \<Rightarrow> (Some e, recorded, t2)
           | (Inr u, t2) \<Rightarrow>
               (case define_locked_scope w s t2 of
                  (Inl e, t3) \<Rightarrow> (Some e, if refused_define e then recorded else Some s, t3)
                | (Inr u, t3) \<Rightarrow>
                    (case verify_locked_scope w s t3 of
                       (Inl e, t4) \<Rightarrow> (Some e, Some s, t4)
                     | (Inr True, t4) \<Rightarrow> (None, Some s, t4)
                     | (Inr False, t4) \<Rightarrow> (Some (EngInternal own_minter_detail), Some s, t4)))))"

text \<open>The second way: the remembered scope, if this document claims it.\<close>

definition recognise ::
  "world \<Rightarrow> scope option \<Rightarrow> target \<Rightarrow> engine_error option \<times> scope option \<times> target" where
  "recognise w recorded t =
     (case recorded of
        None \<Rightarrow> mint_fresh w recorded t
      | Some s \<Rightarrow>
          (case document_scope_claimed w s t of
             (Inl e, t1) \<Rightarrow> (Some e, recorded, t1)
           | (Inr False, t1) \<Rightarrow> mint_fresh w recorded t1
           | (Inr True, t1) \<Rightarrow>
               (case verify_locked_scope w s t1 of
                  (Inl e, t2) \<Rightarrow> (Some e, recorded, t2)
                | (Inr True, t2) \<Rightarrow> (None, recorded, t2)
                | (Inr False, t2) \<Rightarrow> mint_fresh w recorded t2)))"

definition prepare_once ::
  "world \<Rightarrow> scope option \<Rightarrow> target \<Rightarrow> engine_error option \<times> scope option \<times> target" where
  "prepare_once w recorded t =
     (case install_entropy_capture w t of
        (Inl e, t1) \<Rightarrow> (Some e, recorded, t1)
      | (Inr u, t1) \<Rightarrow>
          (case document_start_ran w t1 of
             (Inl e, t2) \<Rightarrow> (Some e, recorded, t2)
           | (Inr False, t2) \<Rightarrow> recognise w recorded t2
           | (Inr True, t2) \<Rightarrow>
               (case locked_scope_minter w t2 of
                  (Inr ob, t3) \<Rightarrow> (None, recorded, t3)
                | (Inl e, t3) \<Rightarrow> recognise w recorded t3)))"

section \<open>Triples\<close>

text \<open>
  What an operation guarantees from \<open>P\<close>: \<open>Q\<close> of its answer and the target it leaves, or \<open>E\<close>
  of the target when it fails.
\<close>

definition triple ::
  "(target \<Rightarrow> bool) \<Rightarrow> (target \<Rightarrow> (engine_error + 'a) \<times> target) \<Rightarrow> ('a \<Rightarrow> target \<Rightarrow> bool) \<Rightarrow>
     (target \<Rightarrow> bool) \<Rightarrow> bool" where
  "triple P g Q E \<longleftrightarrow> (\<forall>t. P t \<longrightarrow> (case g t of (Inr v, t1) \<Rightarrow> Q v t1 | (Inl e, t1) \<Rightarrow> E t1))"

lemma triple_Inr: "triple P g Q E \<Longrightarrow> P t \<Longrightarrow> g t = (Inr v, t1) \<Longrightarrow> Q v t1"
  by (auto simp: triple_def split: prod.splits sum.splits)

lemma triple_Inl: "triple P g Q E \<Longrightarrow> P t \<Longrightarrow> g t = (Inl e, t1) \<Longrightarrow> E t1"
  by (fastforce simp: triple_def split: prod.splits sum.splits)

lemma triple_bind:
  assumes "triple P m Q E" "\<And>a. triple (Q a) (k a) R E"
  shows "triple P (bind_call m k) R E"
  using assms by (fastforce simp: triple_def bind_call_def split: prod.splits sum.splits)

lemma triple_weaken:
  "triple P g Q E \<Longrightarrow> (\<And>t. P' t \<Longrightarrow> P t) \<Longrightarrow> (\<And>v t. Q v t \<Longrightarrow> Q' v t) \<Longrightarrow> triple P' g Q' E"
  by (fastforce simp: triple_def split: prod.splits sum.splits)

text \<open>What no move of the page ends.\<close>

definition kept :: "(target \<Rightarrow> bool) \<Rightarrow> bool" where
  "kept P \<longleftrightarrow> (\<forall>t k. P (t\<lparr>tg_calls := k\<rparr>) = P t) \<and> (\<forall>t m. P t \<longrightarrow> P (page_acts m t))"

lemma kept_moves: "kept P \<Longrightarrow> P t \<Longrightarrow> P (run_ops page_acts ms t)"
  by (induction ms arbitrary: t) (auto simp: kept_def)

lemma triple_call:
  assumes "kept P" "\<And>t. P t \<Longrightarrow> E t" "\<And>v t. Q v t \<Longrightarrow> E t"
    "\<And>t. P t \<Longrightarrow> (case f t of (Inr v, t1) \<Rightarrow> Q v t1 | (Inl e, t1) \<Rightarrow> E t1)"
  shows "triple P (cdp_call w operation f) Q E"
  unfolding triple_def
proof (intro allI impI)
  fix t assume "P t"
  let ?t1 = "run_ops page_acts (ce_moves (w (tg_calls t))) (t\<lparr>tg_calls := tg_calls t + 1\<rparr>)"
  have "P ?t1"
    using kept_moves [OF assms(1)] assms(1) \<open>P t\<close> by (simp add: kept_def)
  then show "case cdp_call w operation f t of (Inr v, t1) \<Rightarrow> Q v t1 | (Inl e, t1) \<Rightarrow> E t1"
    using assms(2,3) assms(4) [of ?t1]
    by (cases "f ?t1"; cases "fst (f ?t1)") (auto simp: cdp_call_def Let_def split: call_fault.split)
qed

section \<open>What a page cannot do\<close>

text \<open>
  The two documents the engine has no hold on: one a preload reached before the registrations
  and locked the name in, and one that replaced \<open>Object.defineProperty\<close> and was loaded before
  the registrations covered it.
\<close>

definition escaped :: "cdp_document \<Rightarrow> bool" where
  "escaped d \<longleftrightarrow> dc_preload d \<or> dc_tapped d \<and> \<not> dc_shadow d"

definition doc_inv :: "target \<Rightarrow> bool" where
  "doc_inv t \<longleftrightarrow>
     (tg_shadow_registered t \<longrightarrow> tg_main_registered t) \<and>
     (dc_shadow (tg_doc t) \<longrightarrow> engines_own (dc_minter (tg_doc t)) \<or> dc_preload (tg_doc t)) \<and>
     (\<forall>s. dc_minter (tg_doc t) = FixedMinter s \<longrightarrow> (\<exists>n. s = Minted n)) \<and>
     (\<forall>s. dc_claim (tg_doc t) = Some s \<longrightarrow> (\<exists>n. s = Minted n \<and> n < tg_minted t)) \<and>
     (\<forall>n. dc_claim (tg_doc t) = Some (Minted n) \<and> n \<in> set (tg_leaked t) \<longrightarrow>
        dc_minter (tg_doc t) = FixedMinter (Minted n) \<or> dc_shadow (tg_doc t) \<or>
        dc_tapped (tg_doc t) \<or> dc_preload (tg_doc t)) \<and>
     (\<forall>n. dc_minter (tg_doc t) = PageMinter (Some (Minted n)) \<longrightarrow> n \<in> set (tg_leaked t)) \<and>
     (\<forall>n \<in> set (tg_leaked t). n < tg_minted t)"

definition covered :: "target \<Rightarrow> bool" where
  "covered t \<longleftrightarrow> doc_inv t \<and> tg_main_registered t \<and> tg_shadow_registered t"

definition bound_to :: "scope \<Rightarrow> target \<Rightarrow> bool" where
  "bound_to s t \<longleftrightarrow>
     covered t \<and> (\<exists>n. s = Minted n \<and> n < tg_minted t) \<and>
     (dc_claim (tg_doc t) = Some s \<or> dc_shadow (tg_doc t))"

definition started :: "target \<Rightarrow> bool" where
  "started t \<longleftrightarrow> covered t \<and> dc_shadow (tg_doc t)"

definition sealed :: "target \<Rightarrow> bool" where
  "sealed t \<longleftrightarrow> engines_own (dc_minter (tg_doc t)) \<or> escaped (tg_doc t)"

lemma doc_inv_move: "doc_inv t \<Longrightarrow> doc_inv (page_acts m t)"
  by (cases m)
    (auto simp: doc_inv_def load_document_def Let_def plantable_def
       split: minter.splits option.splits scope.splits)

lemma registered_move:
  "tg_main_registered (page_acts m t) = tg_main_registered t"
  "tg_shadow_registered (page_acts m t) = tg_shadow_registered t"
  by (cases m; auto simp: load_document_def Let_def split: minter.split)+

lemma kept_inv: "kept doc_inv"
  by (simp add: kept_def doc_inv_move) (simp add: doc_inv_def)

lemma kept_covered: "kept covered"
  using kept_inv by (simp add: kept_def covered_def registered_move)

lemma bound_move: "bound_to s t \<Longrightarrow> bound_to s (page_acts m t)"
  using doc_inv_move [of t m]
  by (cases m)
    (auto simp: bound_to_def covered_def registered_move load_document_def Let_def split: minter.splits)

lemma kept_bound: "kept (bound_to s)"
  using bound_move kept_covered by (auto simp: kept_def bound_to_def)

lemma started_move: "started t \<Longrightarrow> started (page_acts m t)"
  using doc_inv_move [of t m]
  by (cases m)
    (auto simp: started_def covered_def registered_move load_document_def Let_def split: minter.splits)

lemma kept_started: "kept started"
  using started_move kept_covered by (auto simp: kept_def started_def)

lemma holds_inv:
  "covered t \<Longrightarrow> doc_inv t" "bound_to s t \<Longrightarrow> doc_inv t" "started t \<Longrightarrow> doc_inv t"
  "bound_to s t \<Longrightarrow> covered t" "started t \<Longrightarrow> covered t"
  by (simp_all add: covered_def bound_to_def started_def)

lemma started_sealed: "started t \<Longrightarrow> sealed t"
  by (auto simp: started_def covered_def doc_inv_def sealed_def escaped_def)

lemma bound_sealed:
  assumes "bound_to s t" "ask_minter t = (Some s, t1)"
  shows "sealed t1"
proof (cases "dc_shadow (tg_doc t)")
  case True
  then have "started t" using assms(1) by (simp add: bound_to_def started_def)
  then have "sealed t" by (rule started_sealed)
  then show ?thesis using assms(2) by (auto simp: sealed_def ask_minter_def split: minter.splits)
next
  case False
  then have "dc_claim (tg_doc t) = Some s" "doc_inv t" using assms(1) by (simp_all add: bound_to_def covered_def)
  then show ?thesis
    using assms(2) False
    by (auto simp: doc_inv_def sealed_def escaped_def ask_minter_def split: minter.splits)
qed

section \<open>What each operation guarantees\<close>

lemma call_pure:
  assumes "kept P" "\<And>t. P t \<Longrightarrow> E t"
  shows "triple P (cdp_call w operation (\<lambda>t. (Inr (g t), t))) (\<lambda>v t. P t \<and> v = g t) E"
  by (rule triple_call [OF assms]) (use assms(2) in auto)

lemma call_in_document:
  assumes "kept P" "\<And>t. P t \<Longrightarrow> E t" "\<And>v t. Q v t \<Longrightarrow> E t"
    "\<And>t. P t \<Longrightarrow> (case f t of (Inr v, t1) \<Rightarrow> Q v t1 | (Inl e, t1) \<Rightarrow> E t1)"
  shows "triple P (cdp_call w operation (in_document d f)) Q E"
  by (rule triple_call [OF assms(1,2)]) (use assms(2-4) in \<open>auto simp: in_document_def\<close>)

lemma isolated_world_spec:
  assumes "kept P" "\<And>t. P t \<Longrightarrow> doc_inv t"
  shows "triple P (isolated_world w) (\<lambda>d. P) doc_inv"
  unfolding isolated_world_def
  by (rule triple_bind [where Q = "\<lambda>u. P"]; rule triple_weaken [OF call_pure [OF assms]]) auto

lemma install_spec:
  "triple doc_inv (install_entropy_capture w) (\<lambda>u. covered) doc_inv"
  unfolding install_entropy_capture_def
proof (rule triple_bind [where Q = "\<lambda>u t. doc_inv t \<and> tg_main_registered t"])
  show "triple doc_inv (cdp_call w ''install_entropy_capture'' (\<lambda>t. (Inr (), t\<lparr>tg_main_registered := True\<rparr>)))
      (\<lambda>u t. doc_inv t \<and> tg_main_registered t) doc_inv"
    by (rule triple_call [OF kept_inv]) (auto simp: doc_inv_def)
  have kept: "kept (\<lambda>t. doc_inv t \<and> tg_main_registered t)"
    using kept_inv by (simp add: kept_def registered_move)
  show "triple (\<lambda>t. doc_inv t \<and> tg_main_registered t)
      (cdp_call w ''install_entropy_capture_shadow'' (\<lambda>t. (Inr (), t\<lparr>tg_shadow_registered := True\<rparr>)))
      (\<lambda>u. covered) doc_inv" for a :: unit
    by (rule triple_call [OF kept]) (auto simp: doc_inv_def covered_def)
qed

lemma document_start_spec:
  "triple covered (document_start_ran w) (\<lambda>b t. if b then started t else covered t) doc_inv"
  unfolding document_start_ran_def
  by (rule triple_bind, rule isolated_world_spec [OF kept_covered holds_inv(1)], assumption,
      rule call_in_document [OF kept_covered])
     (auto simp: started_def covered_def split: if_splits)

lemma minter_spec:
  assumes "kept P" "\<And>t. P t \<Longrightarrow> E t"
  shows "triple P (locked_scope_minter w) (\<lambda>ob. P) E"
  unfolding locked_scope_minter_def
proof (rule triple_bind [where Q = "\<lambda>d. P"])
  show "triple P (cdp_call w ''read_global'' (\<lambda>t. (Inr (dc_serial (tg_doc t)), t))) (\<lambda>d. P) E"
    by (rule triple_weaken [OF call_pure [OF assms]]) auto
qed (rule call_in_document [OF assms], use assms(2) in \<open>auto split: minter.split\<close>)

lemma claim_minted: "doc_inv t \<Longrightarrow> dc_claim (tg_doc t) = Some s \<Longrightarrow> \<exists>n. s = Minted n \<and> n < tg_minted t"
  by (simp add: doc_inv_def)

lemma claimed_spec:
  "triple covered (document_scope_claimed w s) (\<lambda>b t. if b then bound_to s t else covered t) doc_inv"
  unfolding document_scope_claimed_def
  by (rule triple_bind, rule isolated_world_spec [OF kept_covered holds_inv(1)], assumption,
      rule call_in_document [OF kept_covered])
     (auto simp: bound_to_def covered_def claim_minted split: if_splits option.split)

lemma bound_asked: "bound_to s t \<Longrightarrow> ask_minter t = (a, t1) \<Longrightarrow> bound_to s t1"
  by (auto simp: ask_minter_def bound_to_def covered_def doc_inv_def less_Suc_eq split: minter.splits)

lemma verify_spec:
  "triple (bound_to s) (verify_locked_scope w s)
     (\<lambda>b t. bound_to s t \<and> (b \<longrightarrow> sealed t)) doc_inv"
  unfolding verify_locked_scope_def
  by (rule triple_bind, rule minter_spec [OF kept_bound holds_inv(2)], assumption,
      rule call_in_document [OF kept_bound])
     (auto simp: holds_inv bound_asked bound_sealed split: prod.split)

text \<open>A scope minted just now is unknown to the page.\<close>

definition secret :: "scope \<Rightarrow> target \<Rightarrow> bool" where
  "secret s t \<longleftrightarrow> covered t \<and> (\<exists>n. s = Minted n \<and> n < tg_minted t \<and> n \<notin> set (tg_leaked t))"

lemma secret_move:
  assumes "secret s t"
  shows "secret s (page_acts m t)"
proof -
  have "covered (page_acts m t)" using kept_covered assms by (simp add: kept_def secret_def)
  moreover have "\<exists>n. s = Minted n \<and> n < tg_minted (page_acts m t) \<and> n \<notin> set (tg_leaked (page_acts m t))"
    using assms
    by (cases m) (auto simp: secret_def load_document_def Let_def split: minter.splits)
  ultimately show ?thesis by (simp add: secret_def)
qed

lemma kept_secret: "kept (secret s)"
  using secret_move kept_covered by (auto simp: kept_def secret_def)

lemma mint_spec:
  "triple covered (mint_scope_in_isolated_world w) secret doc_inv"
  unfolding mint_scope_in_isolated_world_def
  by (rule triple_bind, rule isolated_world_spec [OF kept_covered holds_inv(1)], assumption,
      rule call_in_document [OF kept_covered])
     (fastforce simp: secret_def covered_def doc_inv_def)+

lemma claim_spec:
  "triple (secret s) (claim_document_scope w s) (\<lambda>u. bound_to s) doc_inv"
  unfolding claim_document_scope_def
proof (rule triple_bind)
  show "triple (secret s) (isolated_world w) (\<lambda>d. secret s) doc_inv"
    by (rule isolated_world_spec [OF kept_secret]) (simp add: secret_def covered_def)
  show "triple (secret s) (cdp_call w ''claim_document_scope''
      (in_document d (\<lambda>t. (Inr (), t\<lparr>tg_doc := (tg_doc t)\<lparr>dc_claim := Some s\<rparr>\<rparr>)))) (\<lambda>u. bound_to s) doc_inv" for d
    by (rule call_in_document [OF kept_secret])
       (auto simp: secret_def covered_def bound_to_def doc_inv_def)
qed

lemma define_spec:
  "triple (bound_to s) (define_locked_scope w s) (\<lambda>u. bound_to s) doc_inv"
  unfolding define_locked_scope_def
  by (rule triple_call [OF kept_bound])
     (auto simp: run_define_def leak_def bound_to_def covered_def doc_inv_def split: minter.splits scope.splits)

section \<open>A prepared page\<close>

lemma mint_fresh_prepares:
  assumes "covered t" "mint_fresh w recorded t = (None, r, t1)"
  shows "sealed t1"
proof -
  obtain s t2 where mint: "mint_scope_in_isolated_world w t = (Inr s, t2)"
    using assms(2) by (auto simp: mint_fresh_def split: prod.splits sum.splits)
  then obtain u t3 where claim: "claim_document_scope w s t2 = (Inr u, t3)"
    using assms(2) by (auto simp: mint_fresh_def split: prod.splits sum.splits)
  then obtain v t4 where def: "define_locked_scope w s t3 = (Inr v, t4)"
    using assms(2) mint by (auto simp: mint_fresh_def split: prod.splits sum.splits)
  then have verify: "verify_locked_scope w s t4 = (Inr True, t1)"
    using assms(2) mint claim by (auto simp: mint_fresh_def split: prod.splits sum.splits bool.splits)
  have "secret s t2" by (rule triple_Inr [OF mint_spec assms(1) mint])
  then have "bound_to s t3" by (rule triple_Inr [OF claim_spec _ claim])
  then have "bound_to s t4" by (rule triple_Inr [OF define_spec _ def])
  then show ?thesis using triple_Inr [OF verify_spec _ verify] by simp
qed

lemma recognise_prepares:
  assumes "covered t" "recognise w recorded t = (None, r, t1)"
  shows "sealed t1"
proof (cases recorded)
  case None
  then show ?thesis using mint_fresh_prepares [OF assms(1)] assms(2) by (simp add: recognise_def)
next
  case (Some s)
  then obtain b t2 where claimed: "document_scope_claimed w s t = (Inr b, t2)"
    using assms(2) by (auto simp: recognise_def split: prod.splits sum.splits)
  note at_claim = triple_Inr [OF claimed_spec assms(1) claimed]
  show ?thesis
  proof (cases b)
    case False
    then show ?thesis
      using at_claim mint_fresh_prepares assms(2) Some claimed by (simp add: recognise_def)
  next
    case True
    then obtain v t3 where verify: "verify_locked_scope w s t2 = (Inr v, t3)"
      using assms(2) Some claimed by (auto simp: recognise_def split: prod.splits sum.splits)
    then have "bound_to s t3 \<and> (v \<longrightarrow> sealed t3)"
      using triple_Inr [OF verify_spec _ verify] at_claim True by simp
    then show ?thesis
      using mint_fresh_prepares [OF holds_inv(4)] assms(2) Some claimed True verify
      by (cases v) (auto simp: recognise_def)
  qed
qed

text \<open>What holds of the document that is current when \<open>prepare_once\<close> returns.\<close>

lemma prepared_sealed:
  assumes "doc_inv t" "prepare_once w recorded t = (None, r, t1)"
  shows "sealed t1"
proof -
  obtain u t2 where install: "install_entropy_capture w t = (Inr u, t2)"
    using assms(2) by (auto simp: prepare_once_def split: prod.splits sum.splits)
  have cov: "covered t2" by (rule triple_Inr [OF install_spec assms(1) install])
  obtain b t3 where ran: "document_start_ran w t2 = (Inr b, t3)"
    using assms(2) install by (auto simp: prepare_once_def split: prod.splits sum.splits)
  note at_start = triple_Inr [OF document_start_spec cov ran]
  show ?thesis
  proof (cases b)
    case False
    then show ?thesis
      using at_start recognise_prepares assms(2) install ran by (simp add: prepare_once_def)
  next
    case True
    then have start: "started t3" using at_start by simp
    obtain l t4 where locked: "locked_scope_minter w t3 = (l, t4)" by fastforce
    show ?thesis
    proof (cases l)
      case (Inr ob)
      then have "started t4"
        using triple_Inr [OF minter_spec [OF kept_started holds_inv(5)] start] locked by simp
      then show ?thesis using started_sealed assms(2) install ran True locked Inr by (simp add: prepare_once_def)
    next
      case (Inl e)
      have "triple started (locked_scope_minter w) (\<lambda>ob. started) covered"
        by (rule minter_spec [OF kept_started holds_inv(5)])
      from triple_Inl [OF this start] have "covered t4" using locked Inl by simp
      then show ?thesis
        using recognise_prepares assms(2) install ran True locked Inl
        by (simp add: prepare_once_def)
    qed
  qed
qed

text \<open>
  A page that neither replaces \<open>Object.defineProperty\<close> nor is reached by a preload stays outside
  both exceptions.
\<close>

definition fair_move :: "page_move \<Rightarrow> bool" where
  "fair_move m \<longleftrightarrow> m \<noteq> PmTap \<and> m \<noteq> PmLoad True"

definition fair :: "world \<Rightarrow> bool" where
  "fair w \<longleftrightarrow> (\<forall>k. list_all fair_move (ce_moves (w k)))"

definition quiet :: "target \<Rightarrow> bool" where
  "quiet t \<longleftrightarrow> \<not> dc_tapped (tg_doc t) \<and> \<not> dc_preload (tg_doc t)"

definition stays_quiet :: "(target \<Rightarrow> (engine_error + 'a) \<times> target) \<Rightarrow> bool" where
  "stays_quiet g \<longleftrightarrow> (\<forall>t. quiet t \<longrightarrow> quiet (snd (g t)))"

lemma quiet_moves: "list_all fair_move ms \<Longrightarrow> quiet t \<Longrightarrow> quiet (run_ops page_acts ms t)"
proof (induction ms arbitrary: t)
  case (Cons m ms)
  then have "quiet (page_acts m t)"
    by (cases m) (auto simp: quiet_def fair_move_def load_document_def)
  with Cons show ?case by simp
qed simp

lemma quiet_call:
  assumes "fair w" "\<And>t. quiet t \<Longrightarrow> quiet (snd (f t))"
  shows "stays_quiet (cdp_call w operation f)"
proof -
  have "quiet (run_ops page_acts (ce_moves (w (tg_calls t))) (t\<lparr>tg_calls := tg_calls t + 1\<rparr>))" if "quiet t" for t
    using quiet_moves assms(1) that by (simp add: fair_def quiet_def)
  then show ?thesis
    using assms(2) by (auto simp: stays_quiet_def cdp_call_def Let_def split: call_fault.split)
qed

lemma quiet_bind: "stays_quiet m \<Longrightarrow> (\<And>a. stays_quiet (k a)) \<Longrightarrow> stays_quiet (bind_call m k)"
  by (fastforce simp: stays_quiet_def bind_call_def split: prod.split sum.split)

lemma quiet_ops:
  assumes "fair w"
  shows "stays_quiet (install_entropy_capture w)" "stays_quiet (document_start_ran w)"
    "stays_quiet (claim_document_scope w s)" "stays_quiet (document_scope_claimed w s)"
    "stays_quiet (mint_scope_in_isolated_world w)" "stays_quiet (define_locked_scope w s)"
    "stays_quiet (locked_scope_minter w)" "stays_quiet (verify_locked_scope w s)"
proof -
  note calls = quiet_bind quiet_call [OF assms]
  have world: "stays_quiet (isolated_world w)"
    unfolding isolated_world_def by (intro calls) auto
  show minter: "stays_quiet (locked_scope_minter w)"
    unfolding locked_scope_minter_def
    by (intro calls) (auto simp: in_document_def split: minter.split)
  show "stays_quiet (install_entropy_capture w)"
    unfolding install_entropy_capture_def by (intro calls) (auto simp: quiet_def)
  show "stays_quiet (document_start_ran w)"
    unfolding document_start_ran_def by (intro calls world) (auto simp: in_document_def)
  show "stays_quiet (claim_document_scope w s)"
    unfolding claim_document_scope_def by (intro calls world) (auto simp: in_document_def quiet_def)
  show "stays_quiet (document_scope_claimed w s)"
    unfolding document_scope_claimed_def
    by (intro calls world) (auto simp: in_document_def split: option.split)
  show "stays_quiet (mint_scope_in_isolated_world w)"
    unfolding mint_scope_in_isolated_world_def by (intro calls world) (auto simp: in_document_def quiet_def)
  show "stays_quiet (define_locked_scope w s)"
    unfolding define_locked_scope_def
    by (intro calls) (auto simp: run_define_def leak_def quiet_def split: minter.split scope.split)
  show "stays_quiet (verify_locked_scope w s)"
    unfolding verify_locked_scope_def
    by (intro calls minter) (auto simp: in_document_def ask_minter_def quiet_def split: minter.split)
qed

lemmas quiet_snds = quiet_ops [unfolded stays_quiet_def, rule_format]

lemma quiet_mint_fresh: "fair w \<Longrightarrow> quiet t \<Longrightarrow> quiet (snd (snd (mint_fresh w recorded t)))"
  unfolding mint_fresh_def
  by (auto simp: case_prod_beta quiet_snds split: sum.split bool.split)

lemma quiet_recognise: "fair w \<Longrightarrow> quiet t \<Longrightarrow> quiet (snd (snd (recognise w recorded t)))"
  unfolding recognise_def
  by (auto simp: case_prod_beta quiet_snds quiet_mint_fresh split: sum.split bool.split option.split)

lemma quiet_prepare: "fair w \<Longrightarrow> quiet t \<Longrightarrow> quiet (snd (snd (prepare_once w recorded t)))"
  unfolding prepare_once_def
  by (auto simp: case_prod_beta quiet_snds quiet_recognise split: sum.split bool.split)

definition scope_inv :: "target \<Rightarrow> bool" where
  "scope_inv t \<longleftrightarrow> doc_inv t \<and> quiet t"

lemma fair_prepared:
  assumes "fair w" "scope_inv t" "prepare_once w recorded t = (None, r, t1)"
  shows "engines_own (dc_minter (tg_doc t1))"
proof -
  have "sealed t1" by (rule prepared_sealed [OF _ assms(3)]) (use assms(2) in \<open>simp add: scope_inv_def\<close>)
  moreover have "quiet t1"
    using quiet_prepare [OF assms(1), of t recorded] assms(2,3) by (simp add: scope_inv_def)
  ultimately show ?thesis by (simp add: sealed_def escaped_def quiet_def)
qed


text \<open>A browser that answers everything, for a page that does nothing; and a document.\<close>

definition calm :: world where
  "calm k = \<lparr>ce_moves = [], ce_fault = Answered\<rparr>"

definition a_target :: "minter \<Rightarrow> scope option \<Rightarrow> target" where
  "a_target m claim =
     \<lparr>tg_doc = \<lparr>dc_serial = 0, dc_minter = m, dc_shadow = False, dc_claim = claim, dc_tapped = False,
        dc_preload = False\<rparr>,
      tg_main_registered = False, tg_shadow_registered = False, tg_minted = 1, tg_leaked = [], tg_calls = 0\<rparr>"

lemmas prepare_defs = prepare_once_def install_entropy_capture_def document_start_ran_def isolated_world_def
  locked_scope_minter_def recognise_def document_scope_claimed_def verify_locked_scope_def ask_minter_def
  mint_fresh_def mint_scope_in_isolated_world_def claim_document_scope_def define_locked_scope_def
  run_define_def leak_def bind_call_def cdp_call_def in_document_def Let_def


text \<open>
  The two exceptions are real: a tapped document that was there before the registrations answers
  with the scope it saw, and one whose name a preload locked is taken for the engine's own.
\<close>

lemma tapped_document_passes:
  "\<exists>r t1. prepare_once (calm(0 := \<lparr>ce_moves = [PmTap], ce_fault = Answered\<rparr>,
        12 := \<lparr>ce_moves = [PmPlant (Some (Minted 1))], ce_fault = Answered\<rparr>))
      None (a_target Absent None) = (None, r, t1) \<and> dc_minter (tg_doc t1) = PageMinter (Some (Minted 1))"
  by (simp add: prepare_defs calm_def a_target_def load_document_def plantable_def)

lemma preloaded_document_passes:
  "\<exists>r t1. prepare_once (calm(2 := \<lparr>ce_moves = [PmLoad True], ce_fault = Answered\<rparr>))
      None (a_target Absent None) = (None, r, t1) \<and> dc_minter (tg_doc t1) = PageMinter None"
  by (simp add: prepare_defs calm_def a_target_def load_document_def plantable_def)

text \<open>A define whose answer was lost after it ran is recognised by the next attempt.\<close>

lemma lost_answer_is_recognised:
  assumes "dc_claim (tg_doc t) = Some s" "dc_minter (tg_doc t) = FixedMinter s" "\<not> dc_shadow (tg_doc t)"
  shows "\<exists>t1. prepare_once calm (Some s) t = (None, Some s, t1) \<and> tg_doc t1 = tg_doc t"
  using assms by (simp add: prepare_defs calm_def)

text \<open>
  A define that was lost before it ran is not: the claim and the record name a scope no minter
  answers, and every later attempt on the document fails without defining one.
\<close>
lemma lost_define_is_never_repeated:
  assumes "dc_claim (tg_doc t) = Some s" "dc_minter (tg_doc t) \<in> {Absent, Loose}" "\<not> dc_shadow (tg_doc t)"
  shows "\<exists>t1. prepare_once calm (Some s) t = (Some (EngInternal not_locked_detail), Some s, t1) \<and>
    tg_doc t1 = tg_doc t"
  using assms by (auto simp: prepare_defs calm_def)

lemma lost_define_leaves_claim_and_record:
  "\<exists>t1. prepare_once (calm(11 := \<lparr>ce_moves = [], ce_fault = LostUndone\<rparr>)) None (a_target Absent None) =
     (Some (EngTimeout ''install_ref_scope'' command_timeout), Some (Minted 1), t1) \<and>
     dc_claim (tg_doc t1) = Some (Minted 1) \<and> dc_minter (tg_doc t1) = Absent \<and> \<not> dc_shadow (tg_doc t1)"
  by (simp add: prepare_defs calm_def a_target_def refused_define_def)

text \<open>
  Nor is a document that carries no claim at all while a scope is remembered of its target: the
  probe reads the marker bare, and its exception is an error, not the answer no.
\<close>
lemma unclaimed_document_is_never_prepared:
  assumes "dc_claim (tg_doc t) = None" "\<not> dc_shadow (tg_doc t)"
  shows "\<exists>t1. prepare_once calm (Some s) t = (Some (EngInternal unclaimed_detail), Some s, t1) \<and>
    tg_doc t1 = tg_doc t"
  using assms by (simp add: prepare_defs calm_def)

end
