(* ===== verification/Cdp_Context.thy ===== *)
theory Cdp_Context
  imports Cdp_Prepare "HOL-Library.AList"
begin

text \<open>
  A browser context and its pages, \<open>crates/engine-cdp/src/context.rs\<close>, and the engine that makes
  contexts, \<open>engine.rs\<close>. The page map is an association list with distinct keys; the answers of
  the browser are a record, one field per call; what concurrent callers do to the page map while
  an operation awaits is a list of steps. The preparation of a page is \<open>prepare_once\<close> of
  \<open>Cdp_Prepare\<close>, on the state of its target and under the gate of the launcher-wide registry.
\<close>

section \<open>Targets\<close>

record target_info =
  ti_id :: string
  ti_type :: string
  ti_url :: string
  ti_context :: "string option"

text \<open>
  A page handle: its target, whether closing the page may close the target, and the CDP session
  that tells two handles of one target apart.
\<close>

record cdp_page =
  pg_target :: string
  pg_closable :: bool
  pg_session :: nat

record cdp_context =
  cx_id :: context_id
  cx_isolation :: "string option"
  cx_config :: context_config
  cx_pages :: "(page_id \<times> cdp_page) list"
  cx_counter :: nat

definition context_new :: "context_id \<Rightarrow> string option \<Rightarrow> context_config \<Rightarrow> cdp_context" where
  "context_new i isolation config =
     \<lparr>cx_id = i, cx_isolation = isolation, cx_config = config, cx_pages = [], cx_counter = 0\<rparr>"

text \<open>
  The message is lowered before the search; every character whose lower case holds one of
  the letters searched for is an ASCII letter or adds a combining mark that no pattern has.
\<close>

definition is_not_supported :: "engine_error \<Rightarrow> bool" where
  "is_not_supported e =
     (case e of EngInternal detail \<Rightarrow> contains_str (map ascii_lower detail) ''not supported'' | _ \<Rightarrow> False)"

definition is_toolbar_document :: "string \<Rightarrow> bool" where
  "is_toolbar_document url \<longleftrightarrow> prefix ''file://'' url \<and> suffix ''/toolbar.html'' url"

definition foreign_page_id :: "string \<Rightarrow> page_id" where
  "foreign_page_id tid = PageId (''target:'' @ tid)"

definition is_foreign_candidate :: "string option \<Rightarrow> target_info \<Rightarrow> bool" where
  "is_foreign_candidate isolation info =
     (if ti_type info \<noteq> ''page'' \<or> is_toolbar_document (ti_url info) then False
      else
        (case (ti_context info, isolation) of
           (None, _) \<Rightarrow> True
         | (Some theirs, Some ours) \<Rightarrow> theirs = ours
         | (Some theirs, None) \<Rightarrow> False))"

definition adopt_closable :: "string option \<Rightarrow> target_info \<Rightarrow> bool" where
  "adopt_closable isolation info =
     (case (isolation, ti_context info) of (Some ours, Some theirs) \<Rightarrow> ours = theirs | _ \<Rightarrow> False)"

definition pick_drivable_target :: "target_info list \<Rightarrow> string list \<Rightarrow> string option" where
  "pick_drivable_target infos taken =
     map_option ti_id
       (find (\<lambda>info. ti_id info \<notin> set taken)
         (filter (\<lambda>info. \<not> is_toolbar_document (ti_url info))
           (filter (\<lambda>info. ti_type info = ''page'') infos)))"

section \<open>What the browser answers\<close>

text \<open>
  The answers one operation meets, each under its deadline: a created target with its session,
  the listing, the attach, the close and its probe, the disposal; and the calls of a preparation.
\<close>

record browser_env =
  be_create :: "engine_error + (string \<times> nat)"
  be_list :: "engine_error + target_info list"
  be_attach :: "engine_error + nat"
  be_close :: "engine_error option"
  be_probe :: "engine_error + target_info list"
  be_dispose :: "engine_error option"
  be_world :: world

text \<open>
  The side the contexts of one engine share: the state of the targets, the registry of
  preparation gates with the recorded scopes, and the close commands sent so far.
\<close>

record engine_side =
  es_targets :: "string \<Rightarrow> target"
  es_gates :: "string \<rightharpoonup> scope option"
  es_closed :: "string list"

definition recorded_scope :: "string \<Rightarrow> engine_side \<Rightarrow> scope option" where
  "recorded_scope tid es = (case es_gates es tid of None \<Rightarrow> None | Some r \<Rightarrow> r)"

definition prepare_page :: "world \<Rightarrow> string \<Rightarrow> engine_side \<Rightarrow> engine_error option \<times> engine_side" where
  "prepare_page w tid es =
     (case prepare_once w (recorded_scope tid es) (es_targets es tid) of
        (e, r, t) \<Rightarrow>
          (e, es\<lparr>es_targets := (es_targets es)(tid := t), es_gates := (es_gates es)(tid \<mapsto> r)\<rparr>))"

definition forget_preparation :: "string \<Rightarrow> engine_side \<Rightarrow> engine_side" where
  "forget_preparation tid es = es\<lparr>es_gates := (es_gates es)(tid := None)\<rparr>"

definition target_still_exists :: "browser_env \<Rightarrow> string \<Rightarrow> bool" where
  "target_still_exists env tid =
     (case be_probe env of Inr infos \<Rightarrow> list_ex (\<lambda>info. ti_id info = tid) infos | Inl e \<Rightarrow> True)"

definition send_close :: "string \<Rightarrow> engine_side \<Rightarrow> engine_side" where
  "send_close tid es = es\<lparr>es_closed := es_closed es @ [tid]\<rparr>"

text \<open>The close of a target no map holds: the gate goes when the target is confirmed gone.\<close>

definition close_and_forget :: "browser_env \<Rightarrow> cdp_page \<Rightarrow> engine_side \<Rightarrow> engine_side" where
  "close_and_forget env h es =
     (if \<not> pg_closable h then es
      else
        (let es1 = send_close (pg_target h) es
         in case be_close env of
              None \<Rightarrow> forget_preparation (pg_target h) es1
            | Some e \<Rightarrow>
                if target_still_exists env (pg_target h) then es1
                else forget_preparation (pg_target h) es1))"

definition discard_unprepared :: "browser_env \<Rightarrow> cdp_page \<Rightarrow> engine_side \<Rightarrow> engine_side" where
  "discard_unprepared = close_and_forget"

section \<open>The page map\<close>

definition driven_target_ids :: "cdp_context \<Rightarrow> string list" where
  "driven_target_ids cx = map (pg_target \<circ> snd) (cx_pages cx)"

definition cx_lookup :: "page_id \<Rightarrow> cdp_context \<Rightarrow> cdp_page option" where
  "cx_lookup i cx = map_of (cx_pages cx) i"

definition full :: "cdp_context \<Rightarrow> bool" where
  "full cx \<longleftrightarrow> cc_max_pages (cx_config cx) \<le> length (cx_pages cx)"

definition cap_reached :: "cdp_context \<Rightarrow> engine_error" where
  "cap_reached cx = EngCapacity (''context '' @ [CHR 0x27] @ context_str (cx_id cx) @ [CHR 0x27] @
     '' reached its cap of '' @ show_nat (cc_max_pages (cx_config cx)) @ '' pages; close a page first'')"

definition no_second_surface :: "cdp_context \<Rightarrow> engine_error" where
  "no_second_surface cx = EngCapacity (''context '' @ [CHR 0x27] @ context_str (cx_id cx) @ [CHR 0x27] @
     '' drives every page surface this engine exposes'')"

definition mint_page_id :: "cdp_context \<Rightarrow> page_id \<times> cdp_context" where
  "mint_page_id cx =
     (PageId (context_str (cx_id cx) @ '':page-'' @ show_nat (cx_counter cx)),
      cx\<lparr>cx_counter := cx_counter cx + 1\<rparr>)"

text \<open>The registration re-checks the cap under the lock.\<close>

definition register_page :: "page_id \<Rightarrow> cdp_page \<Rightarrow> cdp_context \<Rightarrow> bool \<times> cdp_context" where
  "register_page i h cx =
     (if full cx then (False, cx) else (True, cx\<lparr>cx_pages := AList.update i h (cx_pages cx)\<rparr>))"

definition insert_page :: "page_id \<Rightarrow> cdp_page \<Rightarrow> cdp_context \<Rightarrow> cdp_page option \<times> cdp_context" where
  "insert_page i h cx = (cx_lookup i cx, cx\<lparr>cx_pages := AList.update i h (cx_pages cx)\<rparr>)"

definition cdp_remove_page :: "page_id \<Rightarrow> cdp_context \<Rightarrow> cdp_context" where
  "cdp_remove_page i cx = cx\<lparr>cx_pages := AList.delete i (cx_pages cx)\<rparr>"

definition drain_pages :: "cdp_context \<Rightarrow> cdp_context" where
  "drain_pages cx = cx\<lparr>cx_pages := []\<rparr>"

text \<open>What concurrent callers do to the map, one lock at a time.\<close>

datatype ctx_step =
    StepMint
  | StepRegister page_id cdp_page
  | StepAdopt page_id cdp_page
  | StepRemove page_id
  | StepDrain

fun ctx_does :: "ctx_step \<Rightarrow> cdp_context \<Rightarrow> cdp_context" where
  "ctx_does StepMint cx = snd (mint_page_id cx)"
| "ctx_does (StepRegister i h) cx = snd (register_page i h cx)"
| "ctx_does (StepAdopt i h) cx = snd (insert_page i h cx)"
| "ctx_does (StepRemove i) cx = cdp_remove_page i cx"
| "ctx_does StepDrain cx = drain_pages cx"

text \<open>The steps of others during the awaits of one operation, numbered by the await.\<close>

type_synonym others = "nat \<Rightarrow> ctx_step list"

section \<open>Opening a page\<close>

definition attach_existing_surface ::
  "browser_env \<Rightarrow> string list \<Rightarrow> engine_error + (string \<times> nat) option" where
  "attach_existing_surface env taken =
     (case be_list env of
        Inl e \<Rightarrow> Inl e
      | Inr infos \<Rightarrow>
          (case pick_drivable_target infos taken of
             None \<Rightarrow> Inr None
           | Some tid \<Rightarrow> (case be_attach env of Inl e \<Rightarrow> Inl e | Inr session \<Rightarrow> Inr (Some (tid, session)))))"

definition acquire_surface :: "browser_env \<Rightarrow> cdp_context \<Rightarrow> engine_error + cdp_page" where
  "acquire_surface env cx =
     (case be_create env of
        Inr (tid, session) \<Rightarrow> Inr \<lparr>pg_target = tid, pg_closable = True, pg_session = session\<rparr>
      | Inl e \<Rightarrow>
          (if is_not_supported e then
             (case attach_existing_surface env (driven_target_ids cx) of
                Inr (Some (tid, session)) \<Rightarrow> Inr \<lparr>pg_target = tid, pg_closable = False, pg_session = session\<rparr>
              | Inr None \<Rightarrow> Inl (if driven_target_ids cx = [] then e else no_second_surface cx)
              | Inl failure \<Rightarrow> Inl failure)
           else Inl e))"

definition cdp_open_page ::
  "browser_env \<Rightarrow> others \<Rightarrow> cdp_context \<Rightarrow> engine_side \<Rightarrow>
     (engine_error + (page_id \<times> cdp_page)) \<times> cdp_context \<times> engine_side" where
  "cdp_open_page env mid cx es =
     (if full cx then (Inl (cap_reached cx), cx, es)
      else
        (let cx1 = run_ops ctx_does (mid 0) cx
         in case acquire_surface env cx1 of
              Inl e \<Rightarrow> (Inl e, run_ops ctx_does (mid 1) cx1, es)
            | Inr h \<Rightarrow>
                (case mint_page_id (run_ops ctx_does (mid 1) cx1) of
                   (i, cx2) \<Rightarrow>
                     (case prepare_page (be_world env) (pg_target h) es of
                        (Some e, es1) \<Rightarrow>
                          (Inl e, run_ops ctx_does (mid 2) cx2, discard_unprepared env h es1)
                      | (None, es1) \<Rightarrow>
                          (case register_page i h (run_ops ctx_does (mid 2) cx2) of
                             (True, cx3) \<Rightarrow> (Inr (i, h), cx3, es1)
                           | (False, cx3) \<Rightarrow> (Inl (cap_reached cx), cx3, close_and_forget env h es1))))))"

section \<open>Closing\<close>

definition cdp_close_page ::
  "browser_env \<Rightarrow> others \<Rightarrow> page_id \<Rightarrow> cdp_context \<Rightarrow> engine_side \<Rightarrow>
     engine_error option \<times> cdp_context \<times> engine_side" where
  "cdp_close_page env mid i cx es =
     (case cx_lookup i cx of
        None \<Rightarrow> (None, cx, es)
      | Some h \<Rightarrow>
          (if pg_closable h then
             (let cx1 = run_ops ctx_does (mid 0) cx;
                  es1 = send_close (pg_target h) es
              in case be_close env of
                   None \<Rightarrow> (None, cdp_remove_page i cx1, forget_preparation (pg_target h) es1)
                 | Some e \<Rightarrow>
                     if target_still_exists env (pg_target h) then (Some e, cx1, es1)
                     else (None, cdp_remove_page i cx1, forget_preparation (pg_target h) es1))
           else (None, cdp_remove_page i cx, es)))"

definition already_disposed :: "engine_error \<Rightarrow> bool" where
  "already_disposed e =
     (let message = map ascii_lower (show_engine_error e)
      in contains_str message ''not found'' \<or> contains_str message ''failed to find'')"

definition cdp_close_context ::
  "browser_env \<Rightarrow> others \<Rightarrow> cdp_context \<Rightarrow> engine_side \<Rightarrow> engine_error option \<times> cdp_context \<times> engine_side" where
  "cdp_close_context env mid cx es =
     (case cx_isolation cx of
        None \<Rightarrow> (None, drain_pages cx, es)
      | Some isolation \<Rightarrow>
          (let cx1 = run_ops ctx_does (mid 0) cx;
               disposed = (None, drain_pages cx1,
                 fold forget_preparation (map pg_target (filter pg_closable (map snd (cx_pages cx1)))) es)
           in case be_dispose env of
                None \<Rightarrow> disposed
              | Some e \<Rightarrow> if already_disposed e then disposed else (Some e, cx1, es)))"

section \<open>Foreign pages\<close>

definition foreign_pages :: "browser_env \<Rightarrow> cdp_context \<Rightarrow> engine_error + foreign_page list" where
  "foreign_pages env cx =
     (case be_list env of
        Inl e \<Rightarrow> Inl e
      | Inr infos \<Rightarrow>
          Inr (map (\<lambda>info. \<lparr>fp_id = foreign_page_id (ti_id info), fp_url = ti_url info\<rparr>)
                 (filter (\<lambda>info. ti_id info \<notin> set (driven_target_ids cx))
                   (filter (is_foreign_candidate (cx_isolation cx)) infos))))"

definition no_adoptable :: "page_id \<Rightarrow> engine_error" where
  "no_adoptable i = EngInternal (''the engine reports no adoptable page '' @ [CHR 0x27] @ page_str i @ [CHR 0x27])"

definition adopt_page ::
  "browser_env \<Rightarrow> others \<Rightarrow> page_id \<Rightarrow> cdp_context \<Rightarrow> engine_side \<Rightarrow>
     (engine_error + (page_id \<times> cdp_page)) \<times> cdp_context \<times> engine_side" where
  "adopt_page env mid i cx es =
     (case cx_lookup i cx of
        Some h \<Rightarrow> (Inr (i, h), cx, es)
      | None \<Rightarrow>
          (let cx1 = run_ops ctx_does (mid 0) cx
           in case be_list env of
                Inl e \<Rightarrow> (Inl e, cx1, es)
              | Inr infos \<Rightarrow>
                  (case find (\<lambda>info. is_foreign_candidate (cx_isolation cx) info \<and>
                                foreign_page_id (ti_id info) = i) infos of
                     None \<Rightarrow> (Inl (no_adoptable i), cx1, es)
                   | Some info \<Rightarrow>
                       (case be_attach env of
                          Inl e \<Rightarrow> (Inl e, run_ops ctx_does (mid 1) cx1, es)
                        | Inr session \<Rightarrow>
                            (let h = \<lparr>pg_target = ti_id info, pg_closable = adopt_closable (cx_isolation cx) info,
                                      pg_session = session\<rparr>;
                                 cx2 = run_ops ctx_does (mid 2) (run_ops ctx_does (mid 1) cx1)
                             in case prepare_page (be_world env) (ti_id info) es of
                                  (Some e, es1) \<Rightarrow> (Inl e, cx2, es1)
                                | (None, es1) \<Rightarrow>
                                    (case insert_page i h cx2 of
                                       (Some existing, cx3) \<Rightarrow> (Inr (i, existing), cx3, es1)
                                     | (None, cx3) \<Rightarrow> (Inr (i, h), cx3, es1)))))))"

section \<open>Cookies\<close>

datatype cdp_same_site_policy = CdpStrict | CdpLax | CdpNone

fun cdp_same_site :: "same_site \<Rightarrow> cdp_same_site_policy" where
  "cdp_same_site SameSiteStrict = CdpStrict"
| "cdp_same_site SameSiteLax = CdpLax"
| "cdp_same_site SameSiteNone = CdpNone"

fun cdp_same_site_back :: "cdp_same_site_policy \<Rightarrow> same_site" where
  "cdp_same_site_back CdpStrict = SameSiteStrict"
| "cdp_same_site_back CdpLax = SameSiteLax"
| "cdp_same_site_back CdpNone = SameSiteNone"

record cookie_param =
  cp_name :: string
  cp_value :: string
  cp_domain :: "string option"
  cp_path :: "string option"
  cp_secure :: "bool option"
  cp_http_only :: "bool option"
  cp_same_site :: "cdp_same_site_policy option"
  cp_expires :: "f64 option"

record cdp_cookie =
  cc_name :: string
  cc_value :: string
  cc_domain :: string
  cc_path :: string
  cc_secure :: bool
  cc_http_only :: bool
  cc_same_site :: "cdp_same_site_policy option"
  cc_expires :: f64

definition cookie_param_of :: "cookie \<Rightarrow> cookie_param" where
  "cookie_param_of c =
     \<lparr>cp_name = ck_name c, cp_value = ck_value c, cp_domain = Some (ck_domain c), cp_path = ck_path c,
      cp_secure = Some (ck_secure c), cp_http_only = Some (ck_http_only c),
      cp_same_site = map_option cdp_same_site (ck_same_site c), cp_expires = ck_expires c\<rparr>"

text \<open>No command is sent for an empty list.\<close>

definition set_cookies :: "(cookie_param list \<Rightarrow> engine_error option) \<Rightarrow> cookie list \<Rightarrow> engine_error option" where
  "set_cookies send cs = (if cs = [] then None else send (map cookie_param_of cs))"

definition cookie_of_cdp :: "cdp_cookie \<Rightarrow> cookie" where
  "cookie_of_cdp c =
     \<lparr>ck_name = cc_name c, ck_value = cc_value c, ck_domain = cc_domain c, ck_path = Some (cc_path c),
      ck_secure = cc_secure c, ck_http_only = cc_http_only c,
      ck_same_site = map_option cdp_same_site_back (cc_same_site c),
      ck_expires = (if 0 \<le> cc_expires c then Some (cc_expires c) else None)\<rparr>"

definition cookies_of :: "engine_error + cdp_cookie list \<Rightarrow> engine_error + cookie list" where
  "cookies_of response = map_sum id (map cookie_of_cdp) response"

section \<open>The engine\<close>

record cdp_engine =
  en_isolation :: bool
  en_counter :: nat
  en_descriptor :: engine_descriptor

definition engine_new :: "engine_backend \<Rightarrow> string \<Rightarrow> launch_mode \<Rightarrow> cdp_engine" where
  "engine_new backend version mode =
     \<lparr>en_isolation = True, en_counter = 0,
      en_descriptor = \<lparr>ed_backend = backend, ed_version = version,
        ed_capabilities = \<lparr>cap_headless = True, cap_headed = (mode = Headed), cap_screencast = True,
          cap_per_context_isolation = True\<rparr>\<rparr>\<rparr>"

definition engine_describe :: "cdp_engine \<Rightarrow> engine_descriptor" where
  "engine_describe en =
     (en_descriptor en)\<lparr>ed_capabilities :=
        (ed_capabilities (en_descriptor en))\<lparr>cap_per_context_isolation := en_isolation en\<rparr>\<rparr>"

definition create_context ::
  "engine_error + string \<Rightarrow> context_config \<Rightarrow> cdp_engine \<Rightarrow> (engine_error + cdp_context) \<times> cdp_engine" where
  "create_context answer config en =
     (let make = (\<lambda>isolation en.
            (Inr (context_new (ContextId (''ctx-'' @ show_nat (en_counter en + 1))) isolation config),
             en\<lparr>en_counter := en_counter en + 1\<rparr>))
      in if en_isolation en then
           (case answer of
              Inr isolation \<Rightarrow> make (Some isolation) en
            | Inl e \<Rightarrow>
                if is_not_supported e then make None (en\<lparr>en_isolation := False\<rparr>) else (Inl e, en))
         else make None en)"

definition engine_health :: "engine_error + string \<Rightarrow> engine_error + health_report" where
  "engine_health answer =
     map_sum id (\<lambda>product. \<lparr>hr_healthy = True, hr_backend_version = Some product, hr_detail = None\<rparr>) answer"

definition engine_shutdown :: "unit cdp_call \<Rightarrow> duration \<times> (engine_error + unit)" where
  "engine_shutdown call = with_deadline ''shutdown'' command_timeout call"

section \<open>The page map under concurrent callers\<close>

lemma cx_lookup_update [simp]:
  "cx_lookup j (cx\<lparr>cx_pages := AList.update i h (cx_pages cx)\<rparr>) = (if j = i then Some h else cx_lookup j cx)"
  by (simp add: cx_lookup_def update_conv')

lemma cx_lookup_remove [simp]: "cx_lookup j (cdp_remove_page i cx) = (if j = i then None else cx_lookup j cx)"
  by (simp add: cx_lookup_def cdp_remove_page_def delete_conv')

lemma remove_config [simp]: "cx_isolation (cdp_remove_page i cx) = cx_isolation cx"
  by (simp add: cdp_remove_page_def)

lemma does_config [simp]:
  "cx_config (ctx_does s cx) = cx_config cx" "cx_isolation (ctx_does s cx) = cx_isolation cx"
  "cx_id (ctx_does s cx) = cx_id cx"
  by (cases s; simp add: mint_page_id_def register_page_def insert_page_def cdp_remove_page_def drain_pages_def)+

lemma run_config [simp]:
  "cx_config (run_ops ctx_does ss cx) = cx_config cx" "cx_isolation (run_ops ctx_does ss cx) = cx_isolation cx"
  "cx_id (run_ops ctx_does ss cx) = cx_id cx"
  by (induction ss arbitrary: cx) simp_all

definition keyed :: "cdp_context \<Rightarrow> bool" where
  "keyed cx \<longleftrightarrow> distinct (map fst (cx_pages cx))"

interpretation page_map: guarded_state "context_new i isolation config" ctx_does keyed
  for i :: context_id and isolation :: "string option" and config :: context_config
proof unfold_locales
  show "keyed (context_new i isolation config)" by (simp add: keyed_def context_new_def)
  show "keyed (ctx_does x s)" if "keyed s" for x s
    using that
    by (cases x) (auto simp: keyed_def mint_page_id_def register_page_def insert_page_def cdp_remove_page_def
        drain_pages_def distinct_update distinct_delete)
qed

fun adopts :: "ctx_step \<Rightarrow> bool" where
  "adopts (StepAdopt i h) \<longleftrightarrow> True"
| "adopts _ \<longleftrightarrow> False"

definition capped :: "cdp_context \<Rightarrow> bool" where
  "capped cx \<longleftrightarrow> length (cx_pages cx) \<le> cc_max_pages (cx_config cx)"

lemma update_length: "length (AList.update i h ps) \<le> length ps + 1"
  by (induction ps) auto

lemma delete_length: "length (AList.delete i ps) \<le> length ps"
  by (simp add: AList.delete_eq)

lemma register_capped: "capped cx \<Longrightarrow> register_page i h cx = (b, cx1) \<Longrightarrow> capped cx1"
  using update_length [of i h "cx_pages cx"]
  by (auto simp: capped_def register_page_def full_def split: if_splits)

lemma registered:
  "register_page i h cx = (True, cx1) \<Longrightarrow> capped cx1 \<and> cx_lookup i cx1 = Some h"
  using update_length [of i h "cx_pages cx"]
  by (auto simp: capped_def register_page_def full_def split: if_splits)

lemma does_capped: "capped cx \<Longrightarrow> \<not> adopts s \<Longrightarrow> capped (ctx_does s cx)"
proof (cases s)
  case (StepRemove i)
  then show "capped cx \<Longrightarrow> ?thesis"
    using delete_length [of i "cx_pages cx"] by (simp add: capped_def cdp_remove_page_def)
next
  case (StepRegister i h)
  then show "capped cx \<Longrightarrow> ?thesis" by (metis ctx_does.simps(2) prod.collapse register_capped)
qed (simp_all add: capped_def mint_page_id_def drain_pages_def)

lemma run_capped: "capped cx \<Longrightarrow> list_all (Not \<circ> adopts) ss \<Longrightarrow> capped (run_ops ctx_does ss cx)"
  by (induction ss arbitrary: cx) (simp_all add: does_capped)

section \<open>Opening is all or nothing\<close>

lemma prepare_page_closed: "prepare_page w tid es = (e, es1) \<Longrightarrow> es_closed es1 = es_closed es"
  by (auto simp: prepare_page_def split: prod.splits)

lemma forget_closed [simp]: "es_closed (forget_preparation tid es) = es_closed es"
  by (simp add: forget_preparation_def)

lemma close_and_forget_closed:
  "es_closed (close_and_forget env h es) = es_closed es @ (if pg_closable h then [pg_target h] else [])"
  by (simp add: close_and_forget_def send_close_def Let_def split: option.split)

lemma acquired_closable:
  "acquire_surface env cx = Inr h \<Longrightarrow>
     (case be_create env of
        Inr (tid, session) \<Rightarrow> pg_closable h \<and> pg_target h = tid
      | Inl refused \<Rightarrow> \<not> pg_closable h)"
  by (auto simp: acquire_surface_def split: sum.splits option.splits prod.splits if_splits)

lemma acquired_undriven:
  assumes "acquire_surface env cx = Inr h" "\<not> pg_closable h"
  shows "pg_target h \<notin> set (driven_target_ids cx)"
  using assms
  by (auto simp: acquire_surface_def attach_existing_surface_def pick_drivable_target_def find_Some_iff
      split: sum.splits option.splits prod.splits if_splits)

lemma open_page_cases:
  assumes "cdp_open_page env mid cx es = (r, cx1, es1)"
  obtains (cap) "full cx" "r = Inl (cap_reached cx)" "cx1 = cx" "es1 = es"
  | (none) e where "\<not> full cx" "acquire_surface env (run_ops ctx_does (mid 0) cx) = Inl e" "r = Inl e"
      "cx1 = run_ops ctx_does (mid 0 @ mid 1) cx" "es1 = es"
  | (unprepared) h e es2 where "\<not> full cx" "acquire_surface env (run_ops ctx_does (mid 0) cx) = Inr h"
      "prepare_page (be_world env) (pg_target h) es = (Some e, es2)" "r = Inl e"
      "cx1 = run_ops ctx_does (mid 0 @ mid 1 @ StepMint # mid 2) cx" "es1 = close_and_forget env h es2"
  | (overflow) h es2 where "\<not> full cx" "acquire_surface env (run_ops ctx_does (mid 0) cx) = Inr h"
      "prepare_page (be_world env) (pg_target h) es = (None, es2)" "r = Inl (cap_reached cx)"
      "cx1 = run_ops ctx_does (mid 0 @ mid 1 @ StepMint # mid 2) cx" "full cx1" "es1 = close_and_forget env h es2"
  | (opened) h i where "\<not> full cx" "acquire_surface env (run_ops ctx_does (mid 0) cx) = Inr h"
      "prepare_page (be_world env) (pg_target h) es = (None, es1)" "r = Inr (i, h)"
      "\<not> full (run_ops ctx_does (mid 0 @ mid 1 @ StepMint # mid 2) cx)"
      "register_page i h (run_ops ctx_does (mid 0 @ mid 1 @ StepMint # mid 2) cx) = (True, cx1)"
proof -
  show thesis
  proof (cases "full cx")
    case True
    show ?thesis by (rule cap) (use assms True in \<open>auto simp: cdp_open_page_def\<close>)
  next
    case False
    let ?cx0 = "run_ops ctx_does (mid 0) cx"
    show ?thesis
    proof (cases "acquire_surface env ?cx0")
      case (Inl e)
      show ?thesis
        by (rule none) (use assms False Inl in \<open>auto simp: cdp_open_page_def Let_def run_ops_append\<close>)
    next
      case (Inr h)
      obtain i cx2 where mint: "mint_page_id (run_ops ctx_does (mid 1) ?cx0) = (i, cx2)" by fastforce
      obtain e es2 where prep: "prepare_page (be_world env) (pg_target h) es = (e, es2)" by fastforce
      let ?cx3 = "run_ops ctx_does (mid 2) cx2"
      have cx3: "?cx3 = run_ops ctx_does (mid 0 @ mid 1 @ StepMint # mid 2) cx"
        using mint by (simp add: run_ops_append)
      show ?thesis
      proof (cases e)
        case (Some x)
        show ?thesis
          by (rule unprepared [OF False Inr, of x es2])
            (use assms False Inr mint prep cx3 Some in \<open>auto simp: cdp_open_page_def Let_def discard_unprepared_def\<close>)
      next
        case None
        show ?thesis
        proof (cases "full ?cx3")
          case True
          show ?thesis
            by (rule overflow [OF False Inr, of es2])
              (use assms False Inr mint prep None True cx3 in \<open>auto simp: cdp_open_page_def Let_def register_page_def\<close>)
        next
          case not_full: False
          show ?thesis
            by (rule opened [OF False Inr, of i])
              (use assms False Inr mint prep None not_full cx3 in \<open>auto simp: cdp_open_page_def Let_def register_page_def\<close>)
        qed
      qed
    qed
  qed
qed


definition refused_create :: engine_error where
  "refused_create = EngInternal ''cdp command failed: -32000: Not supported''"

definition a_browser :: browser_env where
  "a_browser =
     \<lparr>be_create = Inr (''T1'', 1), be_list = Inr [], be_attach = Inl EngTerminated, be_close = None,
      be_probe = Inr [], be_dispose = None, be_world = calm\<rparr>"

definition a_side :: engine_side where
  "a_side = \<lparr>es_targets = (\<lambda>tid. a_target Absent None), es_gates = Map.empty, es_closed = []\<rparr>"

definition a_context :: "nat \<Rightarrow> cdp_context" where
  "a_context cap = context_new (ContextId ''ctx-1'') (Some ''B1'') (default_context_config\<lparr>cc_max_pages := cap\<rparr>)"

definition a_page :: cdp_page where
  "a_page = \<lparr>pg_target = ''T0'', pg_closable = True, pg_session = 0\<rparr>"


section \<open>Only its own targets are closed\<close>

text \<open>
  \<open>Own\<close> are the targets the context may close: those created for it, and those the listing puts
  in its own isolation.
\<close>

definition pages_within :: "string set \<Rightarrow> cdp_context \<Rightarrow> bool" where
  "pages_within Own cx \<longleftrightarrow> list_all (\<lambda>(i, h). pg_closable h \<longrightarrow> pg_target h \<in> Own) (cx_pages cx)"

fun step_within :: "string set \<Rightarrow> ctx_step \<Rightarrow> bool" where
  "step_within Own (StepRegister i h) \<longleftrightarrow> (pg_closable h \<longrightarrow> pg_target h \<in> Own)"
| "step_within Own (StepAdopt i h) \<longleftrightarrow> (pg_closable h \<longrightarrow> pg_target h \<in> Own)"
| "step_within Own _ \<longleftrightarrow> True"

definition env_within :: "string set \<Rightarrow> string option \<Rightarrow> browser_env \<Rightarrow> bool" where
  "env_within Own isolation env \<longleftrightarrow>
     (case be_create env of Inr (tid, session) \<Rightarrow> tid \<in> Own | Inl e \<Rightarrow> True) \<and>
     (case be_list env of
        Inr infos \<Rightarrow> list_all (\<lambda>info. ti_context info \<noteq> None \<and> ti_context info = isolation \<longrightarrow> ti_id info \<in> Own) infos
      | Inl e \<Rightarrow> True)"

datatype ctx_op =
    DoOpen browser_env others
  | DoClose browser_env others page_id
  | DoAdopt browser_env others page_id
  | DoDispose browser_env others

fun ctx_op_does :: "ctx_op \<Rightarrow> cdp_context \<times> engine_side \<Rightarrow> cdp_context \<times> engine_side" where
  "ctx_op_does (DoOpen env mid) (cx, es) = snd (cdp_open_page env mid cx es)"
| "ctx_op_does (DoClose env mid i) (cx, es) = snd (cdp_close_page env mid i cx es)"
| "ctx_op_does (DoAdopt env mid i) (cx, es) = snd (adopt_page env mid i cx es)"
| "ctx_op_does (DoDispose env mid) (cx, es) = snd (cdp_close_context env mid cx es)"

fun op_env :: "ctx_op \<Rightarrow> browser_env" where
  "op_env (DoOpen env mid) = env"
| "op_env (DoClose env mid i) = env"
| "op_env (DoAdopt env mid i) = env"
| "op_env (DoDispose env mid) = env"

fun op_others :: "ctx_op \<Rightarrow> others" where
  "op_others (DoOpen env mid) = mid"
| "op_others (DoClose env mid i) = mid"
| "op_others (DoAdopt env mid i) = mid"
| "op_others (DoDispose env mid) = mid"

definition op_within :: "string set \<Rightarrow> string option \<Rightarrow> ctx_op \<Rightarrow> bool" where
  "op_within Own isolation x \<longleftrightarrow>
     env_within Own isolation (op_env x) \<and> (\<forall>k. list_all (step_within Own) (op_others x k))"

lemma update_all: "list_all P ps \<Longrightarrow> P (i, h) \<Longrightarrow> list_all P (AList.update i h ps)"
  by (induction ps) auto

lemma within_update:
  "pages_within Own cx \<Longrightarrow> (pg_closable h \<longrightarrow> pg_target h \<in> Own) \<Longrightarrow>
     pages_within Own (cx\<lparr>cx_pages := AList.update i h (cx_pages cx)\<rparr>)"
  by (simp add: pages_within_def update_all)

lemma within_remove: "pages_within Own cx \<Longrightarrow> pages_within Own (cdp_remove_page i cx)"
  by (auto simp: pages_within_def cdp_remove_page_def AList.delete_eq list_all_iff)

lemma within_does: "pages_within Own cx \<Longrightarrow> step_within Own s \<Longrightarrow> pages_within Own (ctx_does s cx)"
proof (cases s)
  case (StepRemove i)
  then show "pages_within Own cx \<Longrightarrow> ?thesis" by (simp add: within_remove)
qed (auto simp: register_page_def insert_page_def within_update, simp_all add: pages_within_def mint_page_id_def
  drain_pages_def)

lemma within_run:
  "pages_within Own cx \<Longrightarrow> list_all (step_within Own) ss \<Longrightarrow> pages_within Own (run_ops ctx_does ss cx)"
  by (induction ss arbitrary: cx) (simp_all add: within_does)

lemma within_lookup: "pages_within Own cx \<Longrightarrow> cx_lookup i cx = Some h \<Longrightarrow> pg_closable h \<Longrightarrow> pg_target h \<in> Own"
  by (auto simp: pages_within_def cx_lookup_def list_all_iff dest!: map_of_SomeD)

text \<open>What every operation keeps, with the targets closed so far.\<close>

definition tidy :: "string set \<Rightarrow> string option \<Rightarrow> string set \<Rightarrow> cdp_context \<times> engine_side \<Rightarrow> bool" where
  "tidy Own isolation before st \<longleftrightarrow>
     pages_within Own (fst st) \<and> cx_isolation (fst st) = isolation \<and>
     set (es_closed (snd st)) \<subseteq> before \<union> Own"

lemma others_within:
  assumes "op_within Own isolation x" "pages_within Own cx"
  shows "pages_within Own (run_ops ctx_does (op_others x k) cx)"
  using assms by (simp add: op_within_def within_run)

lemma created_own:
  assumes "env_within Own isolation env" "acquire_surface env cx = Inr h" "pg_closable h"
  shows "pg_target h \<in> Own"
  using assms acquired_closable [OF assms(2)] by (auto simp: env_within_def split: sum.splits)

lemma open_tidy:
  assumes "op_within Own isolation (DoOpen env mid)" "tidy Own isolation B (cx, es)"
  shows "tidy Own isolation B (snd (cdp_open_page env mid cx es))"
proof -
  obtain r cx1 es1 where run: "cdp_open_page env mid cx es = (r, cx1, es1)" by (metis prod_cases3)
  have env: "env_within Own isolation env" using assms(1) by (simp add: op_within_def)
  have steps: "pages_within Own (run_ops ctx_does ss cx)" if "ss \<in> {mid 0 @ mid 1, mid 0 @ mid 1 @ StepMint # mid 2}" for ss
    using that assms by (auto simp: op_within_def tidy_def intro!: within_run)
  from run have "tidy Own isolation B (cx1, es1)"
  proof (cases rule: open_page_cases)
    case cap
    then show ?thesis using assms(2) by simp
  next
    case (none e)
    then show ?thesis using assms(2) steps by (simp add: tidy_def)
  next
    case (unprepared h e es2)
    then show ?thesis
      using assms(2) steps created_own [OF env unprepared(2)]
      by (auto simp: tidy_def close_and_forget_closed prepare_page_closed split: if_splits)
  next
    case (overflow h es2)
    then show ?thesis
      using assms(2) steps created_own [OF env overflow(2)]
      by (auto simp: tidy_def close_and_forget_closed prepare_page_closed split: if_splits)
  next
    case (opened h i)
    have "cx1 = (run_ops ctx_does (mid 0 @ mid 1 @ StepMint # mid 2) cx)\<lparr>cx_pages :=
        AList.update i h (cx_pages (run_ops ctx_does (mid 0 @ mid 1 @ StepMint # mid 2) cx))\<rparr>"
      using opened(5,6) by (simp add: register_page_def)
    moreover have "pages_within Own (run_ops ctx_does (mid 0 @ mid 1 @ StepMint # mid 2) cx)"
      by (rule steps) simp
    ultimately show ?thesis
      using assms(2) created_own [OF env opened(2)] prepare_page_closed [OF opened(3)] within_update
      by (simp add: tidy_def)
  qed
  then show ?thesis by (simp add: run)
qed

lemma close_tidy:
  assumes "op_within Own isolation (DoClose env mid i)" "tidy Own isolation B (cx, es)"
  shows "tidy Own isolation B (snd (cdp_close_page env mid i cx es))"
proof (cases "cx_lookup i cx")
  case None
  then show ?thesis using assms(2) by (simp add: cdp_close_page_def)
next
  case (Some h)
  have "pages_within Own (run_ops ctx_does (mid 0) cx)"
    using others_within [OF assms(1), of cx 0] assms(2) by (simp add: tidy_def)
  then show ?thesis
    using assms(2) Some within_lookup [of Own cx i h]
    by (auto simp: cdp_close_page_def Let_def tidy_def within_remove send_close_def
        split: option.split)
qed

lemma fold_forget_closed: "es_closed (fold forget_preparation tids es) = es_closed es"
  by (induction tids arbitrary: es) simp_all

lemma dispose_tidy:
  assumes "op_within Own isolation (DoDispose env mid)" "tidy Own isolation B (cx, es)"
  shows "tidy Own isolation B (snd (cdp_close_context env mid cx es))"
proof -
  have "pages_within Own (run_ops ctx_does (mid 0) cx)"
    using others_within [OF assms(1), of cx 0] assms(2) by (simp add: tidy_def)
  then show ?thesis
    using assms(2)
    by (auto simp: cdp_close_context_def Let_def tidy_def drain_pages_def pages_within_def fold_forget_closed
        split: option.split)
qed

lemma adopt_tidy:
  assumes "op_within Own isolation (DoAdopt env mid i)" "tidy Own isolation B (cx, es)"
  shows "tidy Own isolation B (snd (adopt_page env mid i cx es))"
proof -
  note others = others_within [OF assms(1), simplified]
  have m0: "pages_within Own (run_ops ctx_does (mid 0) cx)"
    using others assms(2) by (simp add: tidy_def)
  then have m1: "pages_within Own (run_ops ctx_does (mid 1) (run_ops ctx_does (mid 0) cx))"
    by (rule others)
  then have m2: "pages_within Own (run_ops ctx_does (mid 2) (run_ops ctx_does (mid 1) (run_ops ctx_does (mid 0) cx)))"
    by (rule others)
  have own: "ti_id info \<in> Own"
    if "be_list env = Inr infos" "find P infos = Some info" "adopt_closable (cx_isolation cx) info" for infos P info
    using that assms
    by (auto simp: op_within_def env_within_def tidy_def adopt_closable_def find_Some_iff list_all_length
        split: option.splits)
  show ?thesis
    using assms(2) m0 m1 m2 own prepare_page_closed
    by (auto simp: adopt_page_def Let_def tidy_def insert_page_def within_update
        split: option.split sum.split prod.split)
qed

lemma op_tidy: "op_within Own isolation x \<Longrightarrow> tidy Own isolation B st \<Longrightarrow> tidy Own isolation B (ctx_op_does x st)"
  by (cases st; cases x) (simp_all add: open_tidy close_tidy adopt_tidy dispose_tidy)

lemma run_tidy:
  "list_all (op_within Own isolation) xs \<Longrightarrow> tidy Own isolation B st \<Longrightarrow>
     tidy Own isolation B (run_ops ctx_op_does xs st)"
  by (induction xs arbitrary: st) (simp_all add: op_tidy)

text \<open>
  C26. A context closes nothing but its own: over any sequence of opens, closes, adoptions and the
  disposal, with any interleaving of other callers' steps, every target that is sent the close
  command was created by the browser for this context or is listed in its own isolation. The
  window of the engine, a tab a human opened and a tab of another session are never among them.
\<close>
theorem only_own_targets_closed:
  assumes "list_all (op_within Own isolation) xs"
  shows "set (es_closed (snd (run_ops ctx_op_does xs (context_new i isolation config, es)))) \<subseteq>
    set (es_closed es) \<union> Own"
proof -
  have "tidy Own isolation (set (es_closed es)) (context_new i isolation config, es)"
    by (auto simp: tidy_def pages_within_def context_new_def)
  from run_tidy [OF assms this] show ?thesis by (simp add: tidy_def)
qed

text \<open>An adopted tab of the context's own isolation and an adopted window of the engine, both closed.\<close>

definition two_windows :: "target_info list" where
  "two_windows =
     [\<lparr>ti_id = ''W'', ti_type = ''page'', ti_url = ''https://a/'', ti_context = None\<rparr>,
      \<lparr>ti_id = ''P'', ti_type = ''page'', ti_url = ''https://b/'', ti_context = Some ''B1''\<rparr>]"

definition window_ops :: "ctx_op list" where
  "window_ops =
     (let env = a_browser\<lparr>be_create := Inl EngTerminated, be_list := Inr two_windows, be_attach := Inr 5\<rparr>
      in [DoAdopt env (\<lambda>k. []) (foreign_page_id ''W''), DoAdopt env (\<lambda>k. []) (foreign_page_id ''P''),
          DoClose env (\<lambda>k. []) (foreign_page_id ''W''), DoClose env (\<lambda>k. []) (foreign_page_id ''P'')])"

theorem only_own_targets_closed_witness:
  "set (es_closed (snd (run_ops ctx_op_does window_ops
     (context_new (ContextId ''ctx-1'') (Some ''B1'') default_context_config, a_side)))) \<subseteq> {''P''}"
proof -
  have "list_all (op_within {''P''} (Some ''B1'')) window_ops"
    by (simp add: window_ops_def Let_def op_within_def env_within_def a_browser_def two_windows_def)
  from only_own_targets_closed [OF this, of "ContextId ''ctx-1''" default_context_config a_side]
  show ?thesis by (simp add: a_side_def)
qed

section \<open>Other sessions are out of reach\<close>

lemma listed_page:
  assumes "foreign_pages env cx = Inr ps" "p \<in> set ps"
  shows "\<exists>infos. be_list env = Inr infos \<and> (\<exists>info \<in> set infos. fp_id p = foreign_page_id (ti_id info) \<and>
    is_foreign_candidate (cx_isolation cx) info \<and> ti_id info \<notin> set (driven_target_ids cx))"
  using assms by (fastforce simp: foreign_pages_def split: sum.splits)

lemma candidate_isolation:
  "is_foreign_candidate isolation info \<Longrightarrow> ti_context info = None \<or> ti_context info = isolation"
  by (auto simp: is_foreign_candidate_def split: if_splits option.splits)

lemma foreign_page_id_inject [simp]: "foreign_page_id a = foreign_page_id b \<longleftrightarrow> a = b"
  by (simp add: foreign_page_id_def)

text \<open>
  A page of another session's isolation is neither listed nor adoptable: when the browser
  places a target in a browser context other than this one's, no listing names it, and adopting
  its id fails without touching the page map, the targets or the preparation records.
\<close>
theorem other_sessions_out_of_reach:
  assumes "be_list env = Inr infos" "cx_lookup (foreign_page_id tid) cx = None"
    "list_all (\<lambda>info. ti_id info = tid \<longrightarrow> ti_context info \<noteq> None \<and> ti_context info \<noteq> cx_isolation cx) infos"
  shows "(\<exists>ps. foreign_pages env cx = Inr ps \<and> foreign_page_id tid \<notin> fp_id ` set ps) \<and>
    adopt_page env mid (foreign_page_id tid) cx es =
      (Inl (no_adoptable (foreign_page_id tid)), run_ops ctx_does (mid 0) cx, es)"
proof -
  have never: "\<not> is_foreign_candidate (cx_isolation cx) info" if "info \<in> set infos" "ti_id info = tid" for info
    using that assms(3) candidate_isolation by (fastforce simp: list_all_iff)
  obtain ps where ps: "foreign_pages env cx = Inr ps" using assms(1) by (simp add: foreign_pages_def)
  have "foreign_page_id tid \<notin> fp_id ` set ps"
    using listed_page [OF ps] never assms(1) by fastforce
  moreover have "find (\<lambda>info. is_foreign_candidate (cx_isolation cx) info \<and>
      foreign_page_id (ti_id info) = foreign_page_id tid) infos = None"
    using never by (auto simp: find_None_iff)
  ultimately show ?thesis using assms(1,2) ps by (simp add: adopt_page_def Let_def)
qed

theorem other_sessions_out_of_reach_witness:
  "fst (adopt_page (a_browser\<lparr>be_list := Inr two_windows\<rparr>) (\<lambda>k. []) (foreign_page_id ''P'')
     (context_new (ContextId ''ctx-2'') (Some ''B2'') default_context_config) a_side) =
     Inl (no_adoptable (foreign_page_id ''P''))"
proof -
  let ?cx = "context_new (ContextId ''ctx-2'') (Some ''B2'') default_context_config"
  have "cx_lookup (foreign_page_id ''P'') ?cx = None"
    "list_all (\<lambda>info. ti_id info = ''P'' \<longrightarrow> ti_context info \<noteq> None \<and> ti_context info \<noteq> cx_isolation ?cx) two_windows"
    by (simp_all add: cx_lookup_def context_new_def two_windows_def)
  from other_sessions_out_of_reach [of "a_browser\<lparr>be_list := Inr two_windows\<rparr>", OF _ this]
  show ?thesis by simp
qed

section \<open>The cap\<close>

lemma opens_stay_capped:
  assumes "list_all (Not \<circ> adopts) ss"
  shows "length (cx_pages (run_ops ctx_does ss (context_new i isolation config))) \<le> cc_max_pages config"
  using run_capped [OF _ assms, of "context_new i isolation config"] by (simp add: capped_def context_new_def)

text \<open>The insert of an adoption does not look at the cap.\<close>

lemma adoption_passes_the_cap:
  "length (cx_pages (fst (snd (adopt_page (a_browser\<lparr>be_list := Inr two_windows, be_attach := Inr 5\<rparr>)
     (\<lambda>k. []) (foreign_page_id ''P'') (snd (register_page (PageId ''ctx-1:page-0'') a_page (a_context 1))) a_side)))) = 2"
  by (simp add: adopt_page_def a_browser_def two_windows_def a_context_def context_new_def cx_lookup_def
      is_foreign_candidate_def is_toolbar_document_def foreign_page_id_def adopt_closable_def insert_page_def
      prepare_page_def recorded_scope_def a_side_def prepare_defs calm_def a_target_def register_page_def full_def)

text \<open>
  When a concurrent adoption won the race, the loser hands back the winner's handle, but its
  insert has already put its own in the map.
\<close>
lemma lost_race_replaces_the_handle:
  assumes "insert_page i h cx = (Some existing, cx1)"
  shows "cx_lookup i cx = Some existing \<and> cx_lookup i cx1 = Some h"
  using assms by (auto simp: insert_page_def)

section \<open>Engines without isolation\<close>

lemma only_a_refusal_strips_isolation:
  assumes "create_context answer config en = (r, en1)" "en_isolation en" "\<not> en_isolation en1"
  shows "\<exists>e. answer = Inl e \<and> is_not_supported e"
  using assms by (auto simp: create_context_def Let_def split: sum.splits if_splits)

lemma timeout_keeps_isolation:
  "en_isolation en \<Longrightarrow> create_context (Inl (EngTimeout operation t)) config en = (Inl (EngTimeout operation t), en)"
  by (simp add: create_context_def is_not_supported_def)

lemma contexts_have_distinct_ids:
  assumes "create_context a1 c1 en = (Inr x, en1)" "create_context a2 c2 en1 = (Inr y, en2)"
  shows "cx_id x \<noteq> cx_id y"
  using assms by (auto simp: create_context_def Let_def context_new_def split: sum.splits if_splits)

lemma session_cookie_has_no_expiry: "cc_expires c < 0 \<Longrightarrow> ck_expires (cookie_of_cdp c) = None"
  by (simp add: cookie_of_cdp_def)

lemma same_site_back [simp]: "cdp_same_site_back (cdp_same_site s) = s"
  by (cases s) simp_all

end
