(* ===== verification/Cdp_Launch.thy ===== *)
theory Cdp_Launch
  imports Cdp_Page "HOL-Library.Word"
begin

text \<open>
  The launcher of CDP engines, \<open>crates/engine-cdp/src/launch.rs\<close>: the browser command line and
  the debugging port, the profile directory, the wait for the endpoint, the last words of a
  browser that never opened it, and the launch with its process guard. The operating system and
  the browser answer through parameters; a file system is a map from paths to modes.
\<close>

section \<open>The command line\<close>

definition launch_timeout :: duration where
  "launch_timeout = command_timeout"

definition connect_attempt_timeout :: duration where
  "connect_attempt_timeout = from_secs 1"

definition connect_retry_delay :: duration where
  "connect_retry_delay = from_millis 100"

definition automation_args :: "string list" where
  "automation_args =
     [''--disable-background-networking'', ''--enable-features=NetworkService,NetworkServiceInProcess'',
      ''--disable-background-timer-throttling'', ''--disable-backgrounding-occluded-windows'',
      ''--disable-breakpad'', ''--disable-client-side-phishing-detection'',
      ''--disable-component-extensions-with-background-pages'', ''--disable-default-apps'',
      ''--disable-dev-shm-usage'', ''--disable-features=TranslateUI'', ''--disable-hang-monitor'',
      ''--disable-ipc-flooding-protection'', ''--disable-popup-blocking'', ''--disable-prompt-on-repost'',
      ''--disable-renderer-backgrounding'', ''--disable-sync'', ''--force-color-profile=srgb'',
      ''--metrics-recording-only'', ''--no-first-run'', ''--enable-automation'',
      ''--password-store=basic'', ''--use-mock-keychain'', ''--enable-blink-features=IdleDetection'',
      ''--lang=en_US'']"

record cdp_launcher =
  ln_executable :: string
  ln_backend :: engine_backend
  ln_extra_args :: "string list"
  ln_app_window :: bool

definition launcher_new :: "string \<Rightarrow> engine_backend \<Rightarrow> cdp_launcher" where
  "launcher_new executable backend =
     \<lparr>ln_executable = executable, ln_backend = backend, ln_extra_args = [], ln_app_window = False\<rparr>"

definition with_app_window :: "bool \<Rightarrow> cdp_launcher \<Rightarrow> cdp_launcher" where
  "with_app_window b l = l\<lparr>ln_app_window := b\<rparr>"

definition with_extra_args :: "string list \<Rightarrow> cdp_launcher \<Rightarrow> cdp_launcher" where
  "with_extra_args args l = l\<lparr>ln_extra_args := args\<rparr>"

definition launcher_describe :: "cdp_launcher \<Rightarrow> string" where
  "launcher_describe l = ''cdp engine at '' @ ln_executable l"

definition port_flag :: string where
  "port_flag = ''--remote-debugging-port''"

definition profile_flag :: string where
  "profile_flag = ''--user-data-dir''"

definition inline_port :: "string \<Rightarrow> nat option" where
  "inline_port argument = Option.bind (strip_prefix (port_flag @ ''='') argument) (parse_uint u16_max)"

fun find_port :: "string list \<Rightarrow> nat option" where
  "find_port [] = None"
| "find_port (a # rest) =
     (case inline_port a of
        Some port \<Rightarrow> Some port
      | None \<Rightarrow>
          (if a = port_flag then
             (case rest of
                [] \<Rightarrow> None
              | v # rest' \<Rightarrow> (case parse_uint u16_max v of Some port \<Rightarrow> Some port | None \<Rightarrow> find_port rest'))
           else find_port rest))"

definition configured_port :: "cdp_launcher \<Rightarrow> nat option" where
  "configured_port l = find_port (ln_extra_args l)"

definition browser_args :: "launch_mode \<Rightarrow> nat \<Rightarrow> string \<Rightarrow> cdp_launcher \<Rightarrow> string list" where
  "browser_args mode port profile l =
     automation_args @
     (if mode = Headless then [''--headless'', ''--hide-scrollbars'', ''--mute-audio'']
      else if ln_app_window l then [''--app=about:blank'']
      else []) @
     (if configured_port l = None then [port_flag @ ''='' @ show_nat port] else []) @
     (if list_ex (prefix profile_flag) (ln_extra_args l) then [] else [profile_flag @ ''='' @ profile]) @
     ln_extra_args l"

section \<open>The profile directory\<close>

type_synonym modes = "string \<rightharpoonup> nat"

definition profile_name :: "string \<Rightarrow> nat \<Rightarrow> nat \<Rightarrow> 64 word \<Rightarrow> string" where
  "profile_name temp pid serial secret =
     temp @ ''/rutter-engine-'' @ show_nat pid @ ''-'' @ show_nat serial @ ''-'' @ hex_pad 16 (unat secret)"

text \<open>
  The exclusive create and the mode set on it, on Unix: \<open>mkdir\<close> refuses a name that exists, the
  mode is masked by the process umask, and \<open>chmod\<close> may fail.
\<close>

definition owner_only :: nat where
  "owner_only = 448"

definition profile_dir ::
  "string \<Rightarrow> (nat \<Rightarrow> nat) \<Rightarrow> string option \<Rightarrow> string option \<Rightarrow> modes \<Rightarrow> (engine_error + string) \<times> modes" where
  "profile_dir dir masked mkdir_fault chmod_fault fs =
     (let refuse = (\<lambda>e. Inl (EngLaunchFailed (''create engine profile directory '' @ dir @ '': '' @ e)))
      in case mkdir_fault of
           Some e \<Rightarrow> (refuse e, fs)
         | None \<Rightarrow>
             (if fs dir \<noteq> None then (refuse ''File exists (os error 17)'', fs)
              else
                (let fs1 = fs(dir \<mapsto> masked owner_only)
                 in case chmod_fault of
                      Some e \<Rightarrow> (refuse e, fs1(dir := None))
                    | None \<Rightarrow> (Inr dir, fs1(dir \<mapsto> owner_only)))))"

section \<open>The last words\<close>

text \<open>
  \<open>String::from_utf8_lossy\<close>: a maximal invalid sequence becomes one replacement character.
\<close>

definition in_bytes :: "nat \<Rightarrow> nat \<Rightarrow> char \<Rightarrow> bool" where
  "in_bytes lo hi c \<longleftrightarrow> lo \<le> (of_char c :: nat) \<and> (of_char c :: nat) \<le> hi"

text \<open>The ranges of the bytes that may follow a leading byte.\<close>

definition followers :: "char \<Rightarrow> (char \<Rightarrow> bool) list option" where
  "followers c =
     (let cont = in_bytes 128 191
      in if in_bytes 0 127 c then Some []
         else if in_bytes 194 223 c then Some [cont]
         else if in_bytes 224 224 c then Some [in_bytes 160 191, cont]
         else if in_bytes 237 237 c then Some [in_bytes 128 159, cont]
         else if in_bytes 225 239 c then Some [cont, cont]
         else if in_bytes 240 240 c then Some [in_bytes 144 191, cont, cont]
         else if in_bytes 241 243 c then Some [cont, cont, cont]
         else if in_bytes 244 244 c then Some [in_bytes 128 143, cont, cont]
         else None)"

fun matched :: "(char \<Rightarrow> bool) list \<Rightarrow> string \<Rightarrow> nat" where
  "matched (p # ps) (c # cs) = (if p c then Suc (matched ps cs) else 0)"
| "matched _ _ = 0"

definition replacement :: string where
  "replacement = [CHR 0xEF, CHR 0xBF, CHR 0xBD]"

function utf8_lossy :: "string \<Rightarrow> string" where
  "utf8_lossy [] = []"
| "utf8_lossy (c # cs) =
     (case followers c of
        None \<Rightarrow> replacement @ utf8_lossy cs
      | Some ps \<Rightarrow>
          (let n = matched ps cs
           in (if n = length ps then c # take n cs else replacement) @ utf8_lossy (drop n cs)))"
  by pat_completeness auto
termination by (relation "measure length") auto

text \<open>\<open>split_whitespace\<close> joined with one blank: runs of white space collapse, the ends are trimmed.\<close>

fun collapse :: "nat \<Rightarrow> bool \<Rightarrow> string \<Rightarrow> string" where
  "collapse 0 gap s = []"
| "collapse (Suc n) gap [] = []"
| "collapse (Suc n) gap (c # cs) =
     (case find (\<lambda>w. prefix w (c # cs)) white_space of
        Some w \<Rightarrow> collapse n True (drop (length w) (c # cs))
      | None \<Rightarrow> (if gap then '' '' else []) @ c # collapse n False cs)"

definition one_line :: "string \<Rightarrow> string" where
  "one_line s = collapse (length s + 1) False (trim s)"

definition max_tail_bytes :: nat where
  "max_tail_bytes = 4096"

text \<open>A log that cannot be opened or read is \<open>None\<close>.\<close>

definition stderr_tail :: "string option \<Rightarrow> string" where
  "stderr_tail log_bytes =
     (case log_bytes of
        None \<Rightarrow> []
      | Some bytes \<Rightarrow> one_line (utf8_lossy (drop (length bytes - max_tail_bytes) bytes)))"

section \<open>Waiting for the endpoint\<close>

text \<open>
  One attempt answers after a time, or is cut off after \<open>connect_attempt_timeout\<close>; attempts are
  numbered. The loop as written: try, check the deadline, pause.
\<close>

type_synonym attempts = "nat \<Rightarrow> unit cdp_call"

definition attempt :: "unit cdp_call \<Rightarrow> duration \<times> bool" where
  "attempt call =
     (case call of
        Some (t, r) \<Rightarrow> if t \<le> connect_attempt_timeout then (t, \<not> isl r) else (connect_attempt_timeout, False)
      | None \<Rightarrow> (connect_attempt_timeout, False))"

function connect_loop :: "attempts \<Rightarrow> instant \<Rightarrow> nat \<Rightarrow> instant \<Rightarrow> bool \<times> instant" where
  "connect_loop tries deadline k now =
     (case attempt (tries k) of
        (t, opened) \<Rightarrow>
          (if opened then (True, now + t)
           else if deadline \<le> now + t then (False, now + t)
           else connect_loop tries deadline (k + 1) (now + t + connect_retry_delay)))"
  by pat_completeness auto
termination
  by (relation "measure (\<lambda>(tries, deadline, k, now). deadline - now)")
    (auto simp: connect_retry_delay_def from_millis_def)

definition connect_with_retries ::
  "attempts \<Rightarrow> nat \<Rightarrow> string option \<Rightarrow> instant \<Rightarrow> (engine_error + unit) \<times> instant" where
  "connect_with_retries tries port log_bytes now =
     (case connect_loop tries (now + launch_timeout) 0 now of
        (True, t) \<Rightarrow> (Inr (), t)
      | (False, t) \<Rightarrow>
          (let stderr = stderr_tail log_bytes;
               detail = ''browser did not open its debugging endpoint on port '' @ show_nat port @
                 '' within the launch budget''
           in (Inl (EngLaunchFailed (if stderr = [] then detail else detail @ ''; engine stderr: '' @ stderr)), t)))"

section \<open>Launch\<close>

record child =
  ch_executable :: string
  ch_args :: "string list"
  ch_env :: "(string \<times> string) list"

text \<open>
  What the outside answers. The executable is the browser itself, or a launcher
  (\<open>le_relay\<close>) that starts the browser as a process of its own and exits, some time before
  the launch is over.
\<close>

record launch_env =
  le_temp :: string
  le_pid :: nat
  le_serial :: nat
  le_secret :: "64 word"
  le_masked :: "nat \<Rightarrow> nat"
  le_mkdir :: "string option"
  le_chmod :: "string option"
  le_port :: "engine_error + nat"
  le_log :: "string option"
  le_spawn :: "string option"
  le_relay :: "(child \<Rightarrow> child) option"
  le_tries :: attempts
  le_stderr :: "string option"
  le_version :: "string cdp_call"

text \<open>
  What a launch leaves: the file system and the running processes by process id, each with its
  command line and the environment it is given beside the inherited one. A new process takes an
  id that no running one has.
\<close>

record launch_side =
  ls_modes :: modes
  ls_procs :: "(nat \<times> child) list"

definition fresh_pid :: "launch_side \<Rightarrow> nat" where
  "fresh_pid side = Suc (fold max (map fst (ls_procs side)) 0)"

definition run_process :: "child \<Rightarrow> launch_side \<Rightarrow> launch_side" where
  "run_process c side = side\<lparr>ls_procs := (fresh_pid side, c) # ls_procs side\<rparr>"

definition end_process :: "nat \<Rightarrow> launch_side \<Rightarrow> launch_side" where
  "end_process pid side = side\<lparr>ls_procs := filter (\<lambda>p. fst p \<noteq> pid) (ls_procs side)\<rparr>"

definition browser_child :: "cdp_launcher \<Rightarrow> string list \<Rightarrow> nat \<Rightarrow> string \<Rightarrow> child" where
  "browser_child l args port profile =
     \<lparr>ch_executable = ln_executable l, ch_args = args,
      ch_env = [(''RUTTER_CDP_PORT'', show_nat port), (''RUTTER_PROFILE'', profile)]\<rparr>"

definition spawn_browser ::
  "launch_env \<Rightarrow> cdp_launcher \<Rightarrow> string list \<Rightarrow> nat \<Rightarrow> string \<Rightarrow> launch_side \<Rightarrow>
     (engine_error + nat) \<times> launch_side" where
  "spawn_browser env l args port profile side =
     (case le_spawn env of
        Some e \<Rightarrow> (Inl (EngLaunchFailed (''spawn '' @ ln_executable l @ '': '' @ e)), side)
      | None \<Rightarrow> (Inr (fresh_pid side), run_process (browser_child l args port profile) side))"

text \<open>A launcher starts its browser and exits; a browser that was started directly keeps running.\<close>

definition hand_over :: "launch_env \<Rightarrow> nat \<Rightarrow> child \<Rightarrow> launch_side \<Rightarrow> launch_side" where
  "hand_over env pid spawned side =
     (case le_relay env of
        None \<Rightarrow> side
      | Some relay \<Rightarrow> end_process pid (run_process (relay spawned) side))"

text \<open>
  The drop of the process guard kills the process that was spawned, and nothing else: one that
  has exited stays exited, and what it started is not the guard's.
\<close>

definition drop_guard :: "nat \<Rightarrow> launch_side \<Rightarrow> launch_side" where
  "drop_guard pid side = end_process pid side"

definition launch ::
  "launch_env \<Rightarrow> launch_mode \<Rightarrow> cdp_launcher \<Rightarrow> launch_side \<Rightarrow> (engine_error + (string \<times> nat)) \<times> launch_side" where
  "launch env mode l side =
     (case profile_dir (profile_name (le_temp env) (le_pid env) (le_serial env) (le_secret env))
             (le_masked env) (le_mkdir env) (le_chmod env) (ls_modes side) of
        (Inl e, fs) \<Rightarrow> (Inl e, side\<lparr>ls_modes := fs\<rparr>)
      | (Inr profile, fs) \<Rightarrow>
          (let side1 = side\<lparr>ls_modes := fs\<rparr>
           in case (case configured_port l of Some port \<Rightarrow> Inr port | None \<Rightarrow> le_port env) of
                Inl e \<Rightarrow> (Inl e, side1)
              | Inr port \<Rightarrow>
                  (case le_log env of
                     Some e \<Rightarrow>
                       (Inl (EngLaunchFailed
                          (''create launch stderr log '' @ profile @ ''/launch-stderr.log: '' @ e)), side1)
                   | None \<Rightarrow>
                       (let args = browser_args mode port profile l
                        in case spawn_browser env l args port profile side1 of
                          (Inl e, side2) \<Rightarrow> (Inl e, side2)
                        | (Inr pid, side2) \<Rightarrow>
                            (let side3 = hand_over env pid (browser_child l args port profile) side2
                             in case fst (connect_with_retries (le_tries env) port (le_stderr env) 0) of
                               Inl e \<Rightarrow> (Inl e, drop_guard pid side3)
                             | Inr u \<Rightarrow>
                                 (case snd (with_deadline ''engine_version'' command_timeout (le_version env)) of
                                    Inl e \<Rightarrow> (Inl e, drop_guard pid side3)
                                  | Inr product \<Rightarrow> (Inr (product, port), side3)))))))"

section \<open>One port\<close>

text \<open>Every port a command line spells, in order; the browser takes the last one.\<close>

fun spelled_ports :: "string list \<Rightarrow> nat list" where
  "spelled_ports [] = []"
| "spelled_ports (a # rest) =
     (case inline_port a of
        Some port \<Rightarrow> port # spelled_ports rest
      | None \<Rightarrow>
          (if a = port_flag then
             (case rest of
                [] \<Rightarrow> []
              | v # rest' \<Rightarrow>
                  (case parse_uint u16_max v of
                     Some port \<Rightarrow> port # spelled_ports rest'
                   | None \<Rightarrow> spelled_ports rest'))
           else spelled_ports rest))"

lemma find_port_first: "find_port xs = (case spelled_ports xs of [] \<Rightarrow> None | p # ps \<Rightarrow> Some p)"
  by (induction xs rule: find_port.induct) (auto split: option.split list.split)

definition plain :: "string \<Rightarrow> bool" where
  "plain a \<longleftrightarrow> inline_port a = None \<and> a \<noteq> port_flag"

lemma spelled_plain: "list_all plain xs \<Longrightarrow> spelled_ports (xs @ ys) = spelled_ports ys"
  by (induction xs) (auto simp: plain_def)

lemma inline_port_own: "port \<le> u16_max \<Longrightarrow> inline_port (port_flag @ ''='' @ show_nat port) = Some port"
  by (simp add: inline_port_def strip_prefix_Some_iff [THEN iffD2] parse_uint_show_nat)

lemma not_a_port: "\<not> prefix port_flag a \<Longrightarrow> plain a"
  by (cases "strip_prefix (port_flag @ ''='') a")
    (auto simp: plain_def inline_port_def strip_prefix_Some_iff)

lemma automation_plain: "list_all plain automation_args"
  by (simp add: automation_args_def not_a_port port_flag_def)

lemma mode_plain:
  "list_all plain (if mode = Headless then [''--headless'', ''--hide-scrollbars'', ''--mute-audio'']
     else if b then [''--app=about:blank''] else [])"
  by (simp add: not_a_port port_flag_def)

lemma profile_plain: "plain (profile_flag @ ''='' @ profile)"
  by (rule not_a_port) (simp add: port_flag_def profile_flag_def)

text \<open>
  The launcher waits on the port the browser opens: when the extra arguments spell a
  debugging port at most once, in either form, the whole command line spells exactly one, and it
  is the port the connection is tried on.
\<close>
theorem browser_opens_the_port_awaited:
  assumes "length (spelled_ports (ln_extra_args l)) \<le> 1" "port \<le> 65535"
  shows "spelled_ports (browser_args mode port profile l) =
    [case configured_port l of Some p \<Rightarrow> p | None \<Rightarrow> port]"
proof -
  let ?profile = "if list_ex (prefix profile_flag) (ln_extra_args l) then [] else [profile_flag @ ''='' @ profile]"
  have plain: "list_all plain ?profile" using profile_plain by simp
  have "spelled_ports (browser_args mode port profile l) =
      (if configured_port l = None then [port] else []) @ spelled_ports (ln_extra_args l)"
    using assms(2) inline_port_own [of port] spelled_plain [OF plain]
    by (simp add: browser_args_def spelled_plain [OF automation_plain] spelled_plain [OF mode_plain] u16_max_def)
  then show ?thesis
    using assms(1) by (auto simp: configured_port_def find_port_first split: list.splits)
qed

theorem browser_opens_the_port_awaited_witness:
  "spelled_ports (browser_args Headed 40000 ''/tmp/p''
     (with_extra_args [''--no-sandbox'', port_flag, ''9333''] (launcher_new ''chrome'' Chromium))) = [9333]"
proof -
  let ?l = "with_extra_args [''--no-sandbox'', port_flag, ''9333''] (launcher_new ''chrome'' Chromium)"
  have spelled: "spelled_ports (ln_extra_args ?l) = [9333]"
    by (simp add: with_extra_args_def launcher_new_def port_flag_def inline_port_def strip_prefix_def
        parse_uint_def u16_max_def is_digit_def digits_val_def digit_val_def)
  then have "configured_port ?l = Some 9333" by (simp add: configured_port_def find_port_first)
  then show ?thesis
    using browser_opens_the_port_awaited [of ?l 40000 Headed "''/tmp/p''"] spelled by simp
qed

text \<open>A flag repeated in the extras is read by its first spelling, and the browser takes the last.\<close>

lemma repeated_flag_waits_on_the_wrong_port:
  "configured_port (with_extra_args [port_flag @ ''=9333'', port_flag @ ''=9444''] l) = Some 9333 \<and>
   List.last (spelled_ports [port_flag @ ''=9333'', port_flag @ ''=9444'']) = 9444"
  by (simp add: with_extra_args_def configured_port_def port_flag_def inline_port_def strip_prefix_def
      parse_uint_def u16_max_def is_digit_def digits_val_def digit_val_def)

section \<open>The wait ends\<close>

lemma attempt_within: "fst (attempt call) \<le> connect_attempt_timeout"
  by (auto simp: attempt_def split: option.split)

lemma connect_loop_ends:
  assumes "now \<le> deadline + connect_retry_delay"
  shows "snd (connect_loop tries deadline k now) \<le> deadline + connect_retry_delay + connect_attempt_timeout"
  using assms
proof (induction tries deadline k now rule: connect_loop.induct)
  case (1 tries deadline k now)
  obtain t opened where a: "attempt (tries k) = (t, opened)" by fastforce
  then have "t \<le> connect_attempt_timeout" by (metis attempt_within fst_conv)
  then show ?case using 1 a by (subst connect_loop.simps) (auto simp del: connect_loop.simps)
qed

lemma connect_loop_patient:
  assumes "connect_loop tries deadline k now = (False, t)"
  shows "deadline \<le> t"
  using assms
proof (induction tries deadline k now rule: connect_loop.induct)
  case (1 tries deadline k now)
  then show ?case
    by (subst (asm) (2) connect_loop.simps)
      (auto simp del: connect_loop.simps split: prod.splits if_splits)
qed

text \<open>
  The wait for the debugging endpoint always ends: a launch gives up no earlier than its
  budget and no later than one pause and one attempt after it, however the attempts go.
\<close>
theorem endpoint_wait_is_bounded:
  "case connect_with_retries tries port log_bytes now of
     (r, t) \<Rightarrow> t \<le> now + launch_timeout + connect_retry_delay + connect_attempt_timeout \<and>
       (case r of Inl e \<Rightarrow> now + launch_timeout \<le> t | Inr u \<Rightarrow> True)"
proof -
  obtain b t where run: "connect_loop tries (now + launch_timeout) 0 now = (b, t)" by fastforce
  then have "t \<le> now + launch_timeout + connect_retry_delay + connect_attempt_timeout"
    using connect_loop_ends [of now "now + launch_timeout" tries 0] by simp
  then show ?thesis
    using run connect_loop_patient [of tries "now + launch_timeout" 0 now t]
    by (cases b) (simp_all add: connect_with_retries_def Let_def)
qed

section \<open>What a launch leaves\<close>

lemma profile_dir_fresh:
  assumes "profile_dir dir masked mkdir chmod fs = (r, fs1)"
  shows "case r of
      Inr d \<Rightarrow> d = dir \<and> fs dir = None \<and> fs1 = fs(dir \<mapsto> owner_only)
    | Inl e \<Rightarrow> fs1 = fs"
  using assms by (auto simp: profile_dir_def Let_def fun_upd_idem split: option.splits if_splits)

lemma fold_max_le: "x \<in> set xs \<Longrightarrow> x \<le> fold max xs (m :: nat)"
proof (induction xs arbitrary: m)
  case (Cons y xs)
  have "k \<le> fold max zs k" for zs and k :: nat
    by (induction zs arbitrary: k) (auto intro: le_trans [OF max.cobounded2])
  from this [of "max y m" xs] Cons show ?case by auto
qed simp

lemma fresh_pid_unused: "(pid, c) \<in> set (ls_procs side) \<Longrightarrow> pid < fresh_pid side"
  using fold_max_le [of pid "map fst (ls_procs side)" 0] by (force simp: fresh_pid_def)

lemma end_fresh:
  "filter (\<lambda>p. fst p \<noteq> fresh_pid side) (ls_procs side) = ls_procs side"
  using fresh_pid_unused by (fastforce simp: filter_id_conv)

lemma fresh_pid_modes [simp]: "fresh_pid (side\<lparr>ls_modes := fs\<rparr>) = fresh_pid side"
  by (simp add: fresh_pid_def)

text \<open>After the spawned process is gone, killed or exited by itself, only what it started remains.\<close>

lemma dropped_procs:
  "ls_procs (drop_guard (fresh_pid side) (hand_over env (fresh_pid side) c (run_process c side))) =
     (case le_relay env of
        None \<Rightarrow> ls_procs side
      | Some relay \<Rightarrow> (fresh_pid (run_process c side), relay c) # ls_procs side)"
proof -
  have "fresh_pid side < fresh_pid (run_process c side)"
    by (rule fresh_pid_unused [of _ c]) (simp add: run_process_def)
  then show ?thesis
    using end_fresh [of side]
    by (simp add: drop_guard_def hand_over_def end_process_def run_process_def split: option.split)
qed

lemma handed_procs:
  "ls_procs (hand_over env (fresh_pid side) c (run_process c side)) =
     (case le_relay env of
        None \<Rightarrow> (fresh_pid side, c) # ls_procs side
      | Some relay \<Rightarrow> (fresh_pid (run_process c side), relay c) # ls_procs side)"
proof -
  have "fresh_pid side < fresh_pid (run_process c side)"
    by (rule fresh_pid_unused [of _ c]) (simp add: run_process_def)
  then show ?thesis
    using end_fresh [of side]
    by (simp add: hand_over_def end_process_def run_process_def split: option.split)
qed

lemma modes_kept [simp]:
  "ls_modes (drop_guard pid side) = ls_modes side" "ls_modes (run_process c side) = ls_modes side"
  "ls_modes (hand_over env pid c side) = ls_modes side"
  by (simp_all add: drop_guard_def end_process_def run_process_def hand_over_def split: option.split)

text \<open>The profile a command line names: the fresh one, unless the extra arguments name another.\<close>

definition named_profiles :: "string list \<Rightarrow> string list" where
  "named_profiles args = filter (prefix profile_flag) args"

lemma named_profiles_args:
  "named_profiles (browser_args mode port profile l) =
     (if named_profiles (ln_extra_args l) = [] then [profile_flag @ ''='' @ profile]
      else named_profiles (ln_extra_args l))"
proof -
  have "filter (prefix profile_flag) automation_args = []"
    by (simp add: automation_args_def profile_flag_def)
  moreover have "filter (prefix profile_flag)
      (if mode = Headless then [''--headless'', ''--hide-scrollbars'', ''--mute-audio'']
       else if ln_app_window l then [''--app=about:blank''] else []) = []"
    by (simp add: profile_flag_def)
  moreover have "\<not> prefix profile_flag (port_flag @ ''='' @ show_nat port)"
    by (simp add: profile_flag_def port_flag_def)
  moreover have "list_ex (prefix profile_flag) (ln_extra_args l) \<longleftrightarrow> named_profiles (ln_extra_args l) \<noteq> []"
    by (auto simp: named_profiles_def list_ex_iff filter_empty_conv)
  ultimately show ?thesis
    by (auto simp: named_profiles_def browser_args_def)
qed

text \<open>
  C29. What a launch leaves running. One that succeeds has added exactly one process, the browser
  with the assembled command line, or the one the executable relayed to; one that fails, at
  whichever step, leaves the processes as they were when the executable is the browser itself,
  and at most the one browser a launcher had already handed over to, which the guard of the
  spawned process does not reach. A success has made a profile directory that did not exist before and
  that only its owner can enter, whatever the umask, and the command line names that profile and
  no other, unless the caller's extra arguments name one: then exactly theirs.
\<close>
theorem launch_accounts_for_its_browser:
  "case launch env mode l side of
     (Inr (product, port), side1) \<Rightarrow>
       (let profile = profile_name (le_temp env) (le_pid env) (le_serial env) (le_secret env);
            args = browser_args mode port profile l; spawned = browser_child l args port profile
        in (\<exists>pid. ls_procs side1 =
              (pid, case le_relay env of None \<Rightarrow> spawned | Some relay \<Rightarrow> relay spawned) # ls_procs side) \<and>
           ls_modes side profile = None \<and> ls_modes side1 profile = Some owner_only \<and>
           named_profiles args =
             (if named_profiles (ln_extra_args l) = [] then [profile_flag @ ''='' @ profile]
              else named_profiles (ln_extra_args l)))
   | (Inl e, side1) \<Rightarrow>
       ls_procs side1 = ls_procs side \<or>
       (\<exists>relay pid spawned. le_relay env = Some relay \<and> ls_procs side1 = (pid, relay spawned) # ls_procs side)"
proof -
  let ?profile = "profile_name (le_temp env) (le_pid env) (le_serial env) (le_secret env)"
  obtain r fs where dir: "profile_dir ?profile (le_masked env) (le_mkdir env) (le_chmod env) (ls_modes side) = (r, fs)"
    by fastforce
  show ?thesis
  proof (cases r)
    case (Inl e)
    then show ?thesis using dir by (simp add: launch_def)
  next
    case (Inr d)
    then have d: "d = ?profile" "ls_modes side ?profile = None" "fs ?profile = Some owner_only"
      using profile_dir_fresh [OF dir] by auto
    note procs =
      dropped_procs [where side = "side\<lparr>ls_modes := fs\<rparr>", unfolded fresh_pid_modes]
      handed_procs [where side = "side\<lparr>ls_modes := fs\<rparr>", unfolded fresh_pid_modes]
    show ?thesis
      using dir Inr d
      by (auto simp: launch_def spawn_browser_def procs named_profiles_args Let_def
          split: option.split sum.split prod.split)
  qed
qed

text \<open>
  The price of launcher-style executables on a failed launch: the browser that outlived its
  launcher keeps running.
\<close>

lemma failed_launch_of_a_relay_leaves_its_browser:
  "case launch
      \<lparr>le_temp = ''/tmp'', le_pid = 1, le_serial = 0, le_secret = 0, le_masked = id, le_mkdir = None,
       le_chmod = None, le_port = Inr 40000, le_log = None, le_spawn = None, le_relay = Some id,
       le_tries = (\<lambda>k. Some (0, Inr ())), le_stderr = None, le_version = None\<rparr>
      Headed (launcher_new ''edge'' Chromium) \<lparr>ls_modes = Map.empty, ls_procs = []\<rparr> of
     (r, side) \<Rightarrow> isl r \<and> length (ls_procs side) = 1"
proof -
  have "fst (connect_with_retries (\<lambda>k. Some (0, Inr ())) port None 0) = Inr ()" for port
    by (simp add: connect_with_retries_def attempt_def)
  moreover have "configured_port (launcher_new ''edge'' Chromium) = None"
    by (simp add: configured_port_def launcher_new_def)
  ultimately show ?thesis
    by (simp add: launch_def profile_dir_def spawn_browser_def dropped_procs silent_call_times_out Let_def)
qed

text \<open>A log that is not UTF-8 is shown with replacement characters.\<close>

lemma log_that_is_not_utf8_is_shown: "stderr_tail (Some [CHR 0xFF]) = replacement"
  by (simp add: stderr_tail_def max_tail_bytes_def one_line_def followers_def in_bytes_def replacement_def
      trim_def trim_start_def trim_end_def white_space_def Let_def)

end
