(* ===== verification/Cdp_Commands.thy ===== *)
theory Cdp_Commands
  imports Cdp_Page Observe_Pages
begin

text \<open>
  The rest of the page handle of \<open>crates/engine-cdp/src/page.rs\<close>: history steps, reload,
  evaluation, dialogs, files and the viewport as sequences of CDP calls under their deadlines, and
  the screencast task with its bounded channel.
\<close>

section \<open>Sequences of calls\<close>

text \<open>One call after another: the times add, the first failure ends the sequence.\<close>

definition call_then :: "'a cdp_call \<Rightarrow> ('a \<Rightarrow> 'b cdp_call) \<Rightarrow> 'b cdp_call" where
  "call_then m k =
     (case m of
        None \<Rightarrow> None
      | Some (t, Inl e) \<Rightarrow> Some (t, Inl e)
      | Some (t, Inr v) \<Rightarrow> map_option (\<lambda>(t1, r). (t + t1, r)) (k v))"

definition call_fails :: "cdp_error \<Rightarrow> 'a cdp_call" where
  "call_fails e = Some (0, Inl e)"

section \<open>History\<close>

record history_env =
  he_history :: "(nat \<times> nat list) cdp_call"
  he_navigate :: "nat \<Rightarrow> unit cdp_call"
  he_settled :: "unit cdp_call"
  he_url :: "string option cdp_call"

definition walk_history :: "history_env \<Rightarrow> int \<Rightarrow> unit cdp_call" where
  "walk_history env offset =
     call_then (he_history env) (\<lambda>(current, entries).
       case history_target entries current offset of
         Inl e \<Rightarrow> call_fails e
       | Inr entry \<Rightarrow> call_then (he_navigate env entry) (\<lambda>u. he_settled env))"

definition navigate_history :: "duration \<Rightarrow> history_env \<Rightarrow> int \<Rightarrow> duration \<times> (engine_error + string)" where
  "navigate_history navigation_timeout env offset =
     (case with_deadline ''history'' navigation_timeout (walk_history env offset) of
        (t, Inl e) \<Rightarrow> (t, Inl e)
      | (t, Inr u) \<Rightarrow>
          (case effective_url ''page URL unavailable after history navigation'' (he_url env) of
             (t1, r) \<Rightarrow> (t + t1, r)))"

definition cdp_go_back :: "duration \<Rightarrow> history_env \<Rightarrow> duration \<times> (engine_error + string)" where
  "cdp_go_back navigation_timeout env = navigate_history navigation_timeout env (- 1)"

definition cdp_go_forward :: "duration \<Rightarrow> history_env \<Rightarrow> duration \<times> (engine_error + string)" where
  "cdp_go_forward navigation_timeout env = navigate_history navigation_timeout env 1"

definition cdp_reload :: "duration \<Rightarrow> unit cdp_call \<Rightarrow> duration \<times> (engine_error + unit)" where
  "cdp_reload navigation_timeout call = with_deadline ''reload'' navigation_timeout call"

section \<open>Evaluation, dialogs, files and the viewport\<close>

text \<open>A result without a value is \<open>null\<close>.\<close>

definition cdp_evaluate ::
  "(string \<Rightarrow> json option cdp_call) \<Rightarrow> string \<Rightarrow> duration \<times> (engine_error + json)" where
  "cdp_evaluate eval expression =
     (case with_deadline ''evaluate'' command_timeout (eval expression) of
        (t, r) \<Rightarrow> (t, map_sum id (\<lambda>v. unwrap_or v JNull) r))"

definition cdp_handle_dialog ::
  "(bool \<Rightarrow> string option \<Rightarrow> unit cdp_call) \<Rightarrow> bool \<Rightarrow> string option \<Rightarrow> duration \<times> (engine_error + unit)" where
  "cdp_handle_dialog send accept prompt_text =
     with_deadline ''handle_dialog'' command_timeout (send accept prompt_text)"

text \<open>
  The element of a reference resolves through the page's store: an expired one answers \<open>null\<close>,
  which carries no object.
\<close>

definition cdp_set_input_files ::
  "(string \<Rightarrow> string option cdp_call) \<Rightarrow> (string \<Rightarrow> string list \<Rightarrow> unit cdp_call) \<Rightarrow> string \<Rightarrow> string list \<Rightarrow>
     duration \<times> (engine_error + unit)" where
  "cdp_set_input_files resolve set_files reference files =
     (case with_deadline ''set_input_files_resolve'' command_timeout (resolve (element_script reference)) of
        (t, Inl e) \<Rightarrow> (t, Inl e)
      | (t, Inr None) \<Rightarrow> (t, Inl (EngReferenceExpired reference))
      | (t, Inr (Some object_id)) \<Rightarrow>
          (case with_deadline ''set_input_files'' command_timeout (set_files object_id files) of
             (t1, r) \<Rightarrow> (t + t1, r)))"

record device_metrics =
  dm_mobile :: bool
  dm_width :: nat
  dm_height :: nat
  dm_scale :: f64

definition cdp_set_viewport ::
  "(device_metrics \<Rightarrow> unit cdp_call) \<Rightarrow> nat \<Rightarrow> nat \<Rightarrow> duration \<times> (engine_error + unit)" where
  "cdp_set_viewport send width height =
     with_deadline ''set_viewport'' command_timeout
       (send \<lparr>dm_mobile = False, dm_width = width, dm_height = height, dm_scale = 1\<rparr>)"

text \<open>The six listeners of the feed are registered one after the other; the first failure ends it.\<close>

fun register_listeners :: "cdp_error option list \<Rightarrow> engine_error option" where
  "register_listeners [] = None"
| "register_listeners (None # rest) = register_listeners rest"
| "register_listeners (Some e # rest) = Some (fold_error e)"

definition observation_listeners :: "(nat \<Rightarrow> cdp_error option) \<Rightarrow> engine_error option" where
  "observation_listeners outcome = register_listeners (map outcome [0, 1, 2, 3, 4, 5])"

section \<open>The screencast\<close>

record screencast_params =
  sc_quality :: nat
  sc_max_width :: nat
  sc_every_nth_frame :: nat

definition the_screencast_params :: screencast_params where
  "the_screencast_params = \<lparr>sc_quality = 50, sc_max_width = 1024, sc_every_nth_frame = 1\<rparr>"

text \<open>What the task sends to the page, in order, and what waits in the viewer's channel.\<close>

datatype cast_command = CastStart screencast_params | CastAck int | CastStop

record screencast =
  sc_sent :: "cast_command list"
  sc_queue :: "string list"
  sc_gone :: bool
  sc_ended :: bool

definition screencast_capacity :: nat where
  "screencast_capacity = 4"

definition screencast_started :: screencast where
  "screencast_started =
     \<lparr>sc_sent = [CastStart the_screencast_params], sc_queue = [], sc_gone = False, sc_ended = False\<rparr>"

definition start_screencast ::
  "engine_error option \<Rightarrow> engine_error option \<Rightarrow> engine_error option \<Rightarrow> engine_error + screencast" where
  "start_screencast frames navigations start =
     (case frames of
        Some e \<Rightarrow> Inl e
      | None \<Rightarrow>
          (case navigations of
             Some e \<Rightarrow> Inl e
           | None \<Rightarrow> (case start of Some e \<Rightarrow> Inl e | None \<Rightarrow> Inr screencast_started)))"

text \<open>The end of the task stops the capture, whatever the answer.\<close>

definition end_cast :: "screencast \<Rightarrow> screencast" where
  "end_cast s = s\<lparr>sc_sent := sc_sent s @ [CastStop], sc_ended := True\<rparr>"

text \<open>
  A frame with the session it belongs to and its data, a navigation, the end of the page's
  events, the viewer taking a frame or leaving, and the task noticing that it left. The decoder
  is a parameter.
\<close>

datatype cast_step = CastFrame int string | CastNavigated | CastPageEnds | CastConsume | CastLeave | CastNotice

definition cast_frame :: "(string \<Rightarrow> string option) \<Rightarrow> int \<Rightarrow> string \<Rightarrow> screencast \<Rightarrow> screencast" where
  "cast_frame decode session data s =
     (let s1 = s\<lparr>sc_sent := sc_sent s @ [CastAck session]\<rparr>
      in if sc_gone s then end_cast s1
         else if length (sc_queue s) < screencast_capacity then
           (case decode data of
              Some jpeg \<Rightarrow> s1\<lparr>sc_queue := sc_queue s @ [jpeg]\<rparr>
            | None \<Rightarrow> s1)
         else s1)"

fun cast_does :: "(string \<Rightarrow> string option) \<Rightarrow> cast_step \<Rightarrow> screencast \<Rightarrow> screencast" where
  "cast_does decode (CastFrame session data) s = (if sc_ended s then s else cast_frame decode session data s)"
| "cast_does decode CastNavigated s =
     (if sc_ended s then s else s\<lparr>sc_sent := sc_sent s @ [CastStart the_screencast_params]\<rparr>)"
| "cast_does decode CastPageEnds s = (if sc_ended s then s else end_cast s)"
| "cast_does decode CastConsume s = s\<lparr>sc_queue := tl (sc_queue s)\<rparr>"
| "cast_does decode CastLeave s = s\<lparr>sc_gone := True\<rparr>"
| "cast_does decode CastNotice s = (if \<not> sc_ended s \<and> sc_gone s then end_cast s else s)"

section \<open>Lemmas\<close>

lemma call_then_None: "call_then None k = None"
  by (simp add: call_then_def)

lemma history_within:
  "fst (navigate_history navigation_timeout env offset) \<le> navigation_timeout + url_timeout"
proof -
  obtain t r where walk: "with_deadline ''history'' navigation_timeout (walk_history env offset) = (t, r)"
    by fastforce
  then have "t \<le> navigation_timeout" by (metis deadline_within fst_conv)
  then show ?thesis
    using walk effective_url_within [of "''page URL unavailable after history navigation''" "he_url env"]
    by (auto simp: navigate_history_def split: sum.split prod.split)
qed

text \<open>At the end of the history nothing is navigated, and the failure says which step was missing.\<close>

lemma history_end:
  assumes "he_history env = Some (t, Inr (current, entries))" "length entries \<le> current + 1"
    "t \<le> navigation_timeout"
  shows "cdp_go_forward navigation_timeout env =
    (t, Inl (EngInternal ''cdp layer failure: no history entry at offset 1''))"
proof -
  have "history_target entries current 1 = Inl (CdpChromeMessage ''no history entry at offset 1'')"
  proof -
    have "show_nat 1 = ''1''" by code_simp
    then show ?thesis using assms(2) by (simp add: history_target_def)
  qed
  then show ?thesis
    using assms(1,3)
    by (simp add: cdp_go_forward_def navigate_history_def walk_history_def call_then_def call_fails_def
        with_deadline_def with_deadline_by_def)
qed

lemma history_step:
  assumes "history_target entries current offset = Inr entry"
  shows "0 \<le> int current + offset \<and> int current + offset < int (length entries) \<and>
    entry = entries ! nat (int current + offset)"
  using assms by (auto simp: history_target_def Let_def split: if_splits)

lemma files_within:
  "fst (cdp_set_input_files resolve set_files reference files) \<le> command_timeout + command_timeout"
proof -
  obtain t r where find: "with_deadline ''set_input_files_resolve'' command_timeout
      (resolve (element_script reference)) = (t, r)" by fastforce
  then have "t \<le> command_timeout" by (metis deadline_within fst_conv)
  moreover have "fst (with_deadline ''set_input_files'' command_timeout (set_files ob files)) \<le> command_timeout" for ob
    by (rule deadline_within)
  ultimately show ?thesis
    using find
    by (cases r) (auto simp: cdp_set_input_files_def case_prod_beta intro: add_mono split: option.split)
qed

lemma expired_reference_sets_no_files:
  assumes "resolve (element_script reference) = Some (t, Inr None)" "t \<le> command_timeout"
  shows "cdp_set_input_files resolve set_files reference files = (t, Inl (EngReferenceExpired reference))"
  using assms by (simp add: cdp_set_input_files_def answer_in_time)

lemma register_listeners_None: "register_listeners xs = None \<longleftrightarrow> list_all (\<lambda>x. x = None) xs"
  by (induction xs rule: register_listeners.induct) simp_all

lemma listeners_all_or_nothing:
  "observation_listeners outcome = None \<longleftrightarrow> list_all (\<lambda>k. outcome k = None) [0, 1, 2, 3, 4, 5]"
  by (simp add: observation_listeners_def register_listeners_None)

text \<open>
  The capture: a stop is the last command and comes exactly when the task ended, the channel is
  bounded, and the first command starts the capture.
\<close>

definition cast_ok :: "screencast \<Rightarrow> bool" where
  "cast_ok s \<longleftrightarrow>
     length (sc_queue s) \<le> screencast_capacity \<and>
     (\<exists>body. CastStop \<notin> set body \<and> sc_sent s = CastStart the_screencast_params # body @ (if sc_ended s then [CastStop] else []))"

lemma end_cast_ok: "cast_ok s \<Longrightarrow> \<not> sc_ended s \<Longrightarrow> cast_ok (end_cast s)"
  by (auto simp: cast_ok_def end_cast_def)

lemma sent_more_ok:
  "cast_ok s \<Longrightarrow> \<not> sc_ended s \<Longrightarrow> c \<noteq> CastStop \<Longrightarrow> cast_ok (s\<lparr>sc_sent := sc_sent s @ [c]\<rparr>)"
  by (fastforce simp: cast_ok_def)

lemma cast_frame_ok:
  assumes "cast_ok s" "\<not> sc_ended s"
  shows "cast_ok (cast_frame decode session data s)"
proof -
  let ?s1 = "s\<lparr>sc_sent := sc_sent s @ [CastAck session]\<rparr>"
  have acked: "cast_ok ?s1" by (rule sent_more_ok) (use assms in auto)
  then have "cast_ok (?s1\<lparr>sc_queue := sc_queue s @ [jpeg]\<rparr>)" if "length (sc_queue s) < screencast_capacity" for jpeg
    using that by (simp add: cast_ok_def)
  then show ?thesis
    using acked end_cast_ok [OF acked] assms(2) by (simp add: cast_frame_def Let_def split: option.split)
qed

lemma cast_does_ok:
  assumes "cast_ok s"
  shows "cast_ok (cast_does decode x s)"
proof (cases x)
  case CastConsume
  then show ?thesis using assms by (cases "sc_queue s") (simp_all add: cast_ok_def)
qed (use assms in \<open>simp_all add: cast_frame_ok end_cast_ok sent_more_ok\<close>, simp add: cast_ok_def)

interpretation screencast_task: guarded_state screencast_started "cast_does decode" cast_ok
  for decode :: "string \<Rightarrow> string option"
  by unfold_locales (simp_all add: cast_does_ok, simp add: cast_ok_def screencast_started_def)

lemma ended_step: "sc_ended s \<Longrightarrow> sc_ended (cast_does decode x s) \<and> sc_sent (cast_does decode x s) = sc_sent s"
  by (cases x) simp_all

lemma ended_run:
  "sc_ended s \<Longrightarrow> sc_ended (run_ops (cast_does decode) xs s) \<and> sc_sent (run_ops (cast_does decode) xs s) = sc_sent s"
  by (induction xs arbitrary: s) (simp_all add: ended_step)

lemma cast_stops:
  assumes "cast_ok s"
  shows "count_list (sc_sent s) CastStop = (if sc_ended s then 1 else 0)"
    "sc_ended s \<Longrightarrow> List.last (sc_sent s) = CastStop"
proof -
  obtain body where "CastStop \<notin> set body"
    "sc_sent s = CastStart the_screencast_params # body @ (if sc_ended s then [CastStop] else [])"
    using assms by (auto simp: cast_ok_def)
  then show "count_list (sc_sent s) CastStop = (if sc_ended s then 1 else 0)"
    "sc_ended s \<Longrightarrow> List.last (sc_sent s) = CastStop"
    by (simp_all add: count_notin)
qed

text \<open>
  A capture runs exactly as long as someone watches and the page lives: whatever the frames,
  navigations and the pace of the viewer, at most four frames wait, nothing is sent after the one stop
  command, and when the viewer leaves the next thing the task sees of it ends the capture.
\<close>
theorem screencast_stops_with_its_viewer:
  fixes decode :: "string \<Rightarrow> string option" and xs ys :: "cast_step list"
  defines "s \<equiv> run_ops (cast_does decode) xs screencast_started"
    and "e \<equiv> run_ops (cast_does decode) (xs @ [CastLeave, CastNotice] @ ys) screencast_started"
  shows "length (sc_queue s) \<le> 4 \<and> count_list (sc_sent s) CastStop \<le> 1 \<and>
    List.last (sc_sent e) = CastStop \<and> count_list (sc_sent e) CastStop = 1"
proof -
  have s: "cast_ok s" unfolding s_def by (rule screencast_task.run_inv)
  have e: "cast_ok e" unfolding e_def by (rule screencast_task.run_inv)
  let ?left = "cast_does decode CastNotice (cast_does decode CastLeave s)"
  have "sc_ended ?left" by (simp add: end_cast_def)
  moreover have "e = run_ops (cast_does decode) ys ?left" by (simp add: e_def s_def run_ops_append)
  ultimately have "sc_ended e" using ended_run by simp
  then show ?thesis using cast_stops [OF s] cast_stops [OF e] s by (simp add: cast_ok_def screencast_capacity_def)
qed

text \<open>A full channel keeps the frames it has and loses the new one, acknowledged as every other.\<close>

lemma full_channel_loses_the_newest:
  "screencast_capacity \<le> length (sc_queue s) \<Longrightarrow> \<not> sc_ended s \<Longrightarrow> \<not> sc_gone s \<Longrightarrow>
     cast_does decode (CastFrame i d) s = s\<lparr>sc_sent := sc_sent s @ [CastAck i]\<rparr>"
  by (simp add: cast_frame_def Let_def)

end
