(* ===== verification/Mcp_Params.thy ===== *)
theory Mcp_Params
  imports Core
begin

text \<open>
  The inputs of the MCP tools, \<open>crates/mcp/src/server/params.rs\<close>: one record per parameter
  struct and the mappings onto the shared vocabulary. The schemas derived from the structs and
  the deserialisation are the \<open>rmcp\<close>, \<open>schemars\<close> and \<open>serde\<close> crates; an \<open>i64\<close>
  field is an \<^typ>\<open>int\<close>, an \<open>u64\<close> field a \<^typ>\<open>nat\<close>.
\<close>

section \<open>Directions and cookies\<close>

datatype scroll_direction_input = InputUp | InputDown | InputLeft | InputRight

fun direction_of_input :: "scroll_direction_input \<Rightarrow> scroll_direction" where
  "direction_of_input InputUp = ScrollUp"
| "direction_of_input InputDown = ScrollDown"
| "direction_of_input InputLeft = ScrollLeft"
| "direction_of_input InputRight = ScrollRight"

datatype same_site_input = InputStrict | InputLax | InputNone

fun same_site_of_input :: "same_site_input \<Rightarrow> same_site" where
  "same_site_of_input InputStrict = SameSiteStrict"
| "same_site_of_input InputLax = SameSiteLax"
| "same_site_of_input InputNone = SameSiteNone"

record cookie_input =
  ci_name :: string
  ci_value :: string
  ci_domain :: string
  ci_path :: "string option"
  ci_secure :: "bool option"
  ci_http_only :: "bool option"
  ci_same_site :: "same_site_input option"
  ci_expires :: "f64 option"

definition cookie_of_input :: "cookie_input \<Rightarrow> 'e + cookie" where
  "cookie_of_input input =
     Inr \<lparr>ck_name = ci_name input, ck_value = ci_value input, ck_domain = ci_domain input,
          ck_path = ci_path input, ck_secure = unwrap_or (ci_secure input) False,
          ck_http_only = unwrap_or (ci_http_only input) False,
          ck_same_site = map_option same_site_of_input (ci_same_site input),
          ck_expires = ci_expires input\<rparr>"

section \<open>Parameter structs\<close>

record navigate_params =
  np_url :: string

record reference_params =
  rp_reference :: string

record type_params =
  tp_reference :: string
  tp_text :: string

record press_key_params =
  kp_key :: string

record select_option_params =
  sp_reference :: string
  sp_values :: "string list"

record scroll_params =
  cp_direction :: scroll_direction_input
  cp_amount :: int
  cp_reference :: "string option"

record wait_for_params =
  wp_text :: string
  wp_timeout_ms :: "nat option"

record page_params =
  pp_page_id :: string

record tabs_open_params =
  op_url :: "string option"

record upload_file_params =
  up_reference :: string
  up_paths :: "string list"

record viewport_params =
  vp_width :: int
  vp_height :: int

record cookies_params =
  kc_cookies :: "cookie_input list"

section \<open>Narrowing\<close>

text \<open>\<open>u32::try_from\<close> of an \<open>i64\<close>, and the \<open>as u32\<close> cast, which truncates.\<close>

definition u32_try_from :: "int \<Rightarrow> nat option" where
  "u32_try_from n = (if 0 \<le> n \<and> n \<le> int u32_max then Some (nat n) else None)"

definition as_u32 :: "int \<Rightarrow> nat" where
  "as_u32 n = nat (n mod 2 ^ 32)"

lemma u32_try_from_Some: "u32_try_from n = Some m \<longleftrightarrow> int m = n \<and> m \<le> u32_max"
  by (auto simp: u32_try_from_def)

lemma as_u32_lossless: "0 \<le> n \<Longrightarrow> n < 2 ^ 32 \<Longrightarrow> int (as_u32 n) = n"
  by (simp add: as_u32_def)

end
