(* ===== verification/Mcp_Server.thy ===== *)
theory Mcp_Server
  imports Mcp_Params Session_Manager "HOL-Library.Word"
begin

text \<open>
  The MCP server, \<open>crates/mcp/src/server/mod.rs\<close> and \<open>http.rs\<close>: one connection over the
  shared session manager. The connection holds its session in a cell that is set once; a tool
  call checks its parameters, passes the gate that compares the cell with the manager's map,
  runs an operation of \<open>Session_Ops\<close> and renders its outcome. Wherever the code awaits the
  manager, other tasks move first: other connections, closes, recoveries, and sibling calls of
  the same connection. The wire format is the \<open>rmcp\<close> crate; base64 and the decimal form of
  a float are parameters.
\<close>

section \<open>State\<close>

text \<open>The connection, the manager it shares, and the session object its cell names.\<close>

record ('h, 'c, 'ch) conn =
  cn_manager :: manager
  cn_cell :: "nat option"
  cn_hub :: "('h, 'c, 'ch) hub"

record ('c, 'ch) open_answers =
  oa_request :: request_answers
  oa_context :: 'c
  oa_broker :: "'ch broker"
  oa_files :: files
  oa_now :: instant

text \<open>
  What other tasks do while a call awaits: a step of the manager, a sibling call that opens the
  session of this connection, one that runs an operation on it. Ids are minted per connection,
  so a request for this connection's id comes only from its own calls.
\<close>

datatype ('h, 'c, 'ch) conn_move =
    ManagerMove manager_op
  | SiblingOpens "('c, 'ch) open_answers"
  | SiblingRuns "('h, 'c, 'ch) hub \<Rightarrow> ('h, 'c, 'ch) hub"

record ('h, 'c, 'ch, 'u) mcp_env =
  me_id :: session_id
  me_session :: "('h, 'c, 'ch, 'u, ('h, 'c, 'ch) hub) env"
  me_policy :: rule_set
  me_state_dir :: "string option"
  me_answers :: "('h, 'c, 'ch) conn \<Rightarrow> ('c, 'ch) open_answers"
  me_moves :: "('h, 'c, 'ch) conn \<Rightarrow> ('h, 'c, 'ch) conn_move list"
  me_base64 :: "string \<Rightarrow> string"
  me_show_f64 :: "f64 \<Rightarrow> string"

datatype content = TextBlock string | ImageBlock string string

record call_result =
  cr_content :: "content list"
  cr_is_error :: bool

datatype mcp_error = InvalidParams string | CodedError int string

definition server_error_code :: int where
  "server_error_code = - 32000"

definition wait_for_default_budget :: duration where
  "wait_for_default_budget = from_secs 10"

section \<open>Rendering\<close>

definition text_result :: "string \<Rightarrow> call_result" where
  "text_result t = \<lparr>cr_content = [TextBlock t], cr_is_error = False\<rparr>"

definition truncation_marker :: string where
  "truncation_marker = [CHR 0xE2, CHR 0x80, CHR 0xA6] @ '' truncated'' @ [newline]"

definition snapshot_result :: "snapshot \<Rightarrow> call_result" where
  "snapshot_result snap =
     text_result (show_snapshot snap @ (if snap_truncated snap then truncation_marker else []))"

definition read_result :: "readout \<Rightarrow> call_result" where
  "read_result r = text_result (show_readout r @ (if ro_truncated r then truncation_marker else []))"

definition hinted :: "session_error \<Rightarrow> string" where
  "hinted e = show_session_error e @ [newline] @ ''hint: '' @ session_error_hint e"

definition error_result :: "session_error \<Rightarrow> call_result" where
  "error_result e = \<lparr>cr_content = [TextBlock (hinted e)], cr_is_error = True\<rparr>"

definition protocol_error :: "session_error \<Rightarrow> mcp_error" where
  "protocol_error e = CodedError server_error_code (hinted e)"

fun same_site_label :: "same_site \<Rightarrow> string" where
  "same_site_label SameSiteStrict = ''strict''"
| "same_site_label SameSiteLax = ''lax''"
| "same_site_label SameSiteNone = ''none''"

definition cookie_line :: "(f64 \<Rightarrow> string) \<Rightarrow> cookie \<Rightarrow> string" where
  "cookie_line show_f64 ck =
     ck_domain ck @ [CHR 0x09] @ ck_name ck @ ''='' @ ck_value ck
     @ (case ck_path ck of None \<Rightarrow> [] | Some path \<Rightarrow> ''; path='' @ path)
     @ (if ck_secure ck then ''; secure'' else [])
     @ (if ck_http_only ck then ''; httpOnly'' else [])
     @ (case ck_same_site ck of None \<Rightarrow> [] | Some ss \<Rightarrow> ''; sameSite='' @ same_site_label ss)
     @ (case ck_expires ck of None \<Rightarrow> [] | Some expires \<Rightarrow> ''; expires='' @ show_f64 expires)"

fun join_with :: "string \<Rightarrow> string list \<Rightarrow> string" where
  "join_with sep [] = []"
| "join_with sep [x] = x"
| "join_with sep (x # y # ys) = x @ sep @ join_with sep (y # ys)"

definition cookies_text :: "(f64 \<Rightarrow> string) \<Rightarrow> cookie list \<Rightarrow> string" where
  "cookies_text show_f64 cks =
     (if cks = [] then ''no cookies'' @ [newline]
      else join_with [newline] (map (cookie_line show_f64) cks) @ [newline])"

definition page_line :: "page_info \<Rightarrow> string" where
  "page_line p =
     page_str (pi_id p) @ '' '' @ (if pi_url p = [] then ''(unknown url)'' else pi_url p)
     @ (if pi_active p then '' (active)'' else []) @ [newline]"

definition pages_text :: "page_info list \<Rightarrow> string" where
  "pages_text ps =
     (let t = concat (map page_line ps)
      in if t = [] then ''no pages open; navigate to open one'' @ [newline] else t)"

definition console_listing :: "page_id option \<Rightarrow> console_entry list \<Rightarrow> string" where
  "console_listing active entries =
     (case active of
        None \<Rightarrow> ''no console output on the active page'' @ [newline]
      | Some page \<Rightarrow>
          ''active page '' @ page_str page @ [newline]
          @ (if entries = [] then ''no console output'' @ [newline]
             else concat (map (\<lambda>e. ''['' @ level_name (ce_level e) @ ''] '' @ ce_text e @ [newline]) entries)))"

definition network_listing :: "page_id option \<Rightarrow> request_entry list \<Rightarrow> string" where
  "network_listing active entries =
     (case active of
        None \<Rightarrow> ''no network requests on the active page'' @ [newline]
      | Some page \<Rightarrow>
          ''active page '' @ page_str page @ [newline]
          @ (if entries = [] then ''no network requests'' @ [newline]
             else concat (map (\<lambda>e. show_request_entry e @ [newline]) entries)))"

section \<open>The connection\<close>

definition on_manager :: "(manager \<Rightarrow> manager) \<Rightarrow> ('h, 'c, 'ch) conn \<Rightarrow> ('h, 'c, 'ch) conn" where
  "on_manager f c = c\<lparr>cn_manager := f (cn_manager c)\<rparr>"

text \<open>
  An object publishes on the backbone of the engine it was created with, which is the manager's
  as long as that engine runs: an operation starts from it and leaves it behind.
\<close>

definition same_epoch :: "nat \<Rightarrow> manager \<Rightarrow> bool" where
  "same_epoch n m \<longleftrightarrow> n < length (mg_objects m) \<and> ob_epoch (mg_objects m ! n) = mg_epoch m"

definition enter :: "nat \<Rightarrow> ('h, 'c, 'ch) conn \<Rightarrow> ('h, 'c, 'ch) hub" where
  "enter n c =
     (if same_epoch n (cn_manager c) then (cn_hub c)\<lparr>sy_backbone := mg_backbone (cn_manager c)\<rparr>
      else cn_hub c)"

definition leave :: "nat \<Rightarrow> ('h, 'c, 'ch) hub \<Rightarrow> ('h, 'c, 'ch) conn \<Rightarrow> ('h, 'c, 'ch) conn" where
  "leave n h c =
     on_manager (\<lambda>m. if same_epoch n m then m\<lparr>mg_backbone := sy_backbone h\<rparr> else m) (c\<lparr>cn_hub := h\<rparr>)"

text \<open>
  \<open>get_or_try_init\<close> over \<open>SessionManager::session\<close>: the cell is set with no await after the
  manager's answer, and stays empty when the manager refuses. An object the manager already
  knew keeps its state, a new one starts fresh.
\<close>

definition open_session ::
  "session_id \<Rightarrow> ('c, 'ch) open_answers \<Rightarrow> ('h, 'c, 'ch) conn \<Rightarrow>
   (session_error + nat) \<times> ('h, 'c, 'ch) conn" where
  "open_session i a c =
     (case manager_session (oa_request a) i (cn_manager c) of
        (Inl e, m) \<Rightarrow> (Inl e, c\<lparr>cn_manager := m\<rparr>)
      | (Inr n, m) \<Rightarrow>
          (Inr n, c\<lparr>cn_manager := m, cn_cell := Some n,
             cn_hub := if n < length (mg_objects (cn_manager c)) then cn_hub c
                       else session_new (oa_context a) (mg_backbone m) (oa_broker a) (oa_files a)
                              (oa_now a) (ra_wall (oa_request a))\<rparr>))"

fun opens_id :: "session_id \<Rightarrow> manager_op \<Rightarrow> bool" where
  "opens_id i (MSession ra j) \<longleftrightarrow> j = i"
| "opens_id i x \<longleftrightarrow> False"

fun conn_step :: "session_id \<Rightarrow> ('h, 'c, 'ch) conn_move \<Rightarrow> ('h, 'c, 'ch) conn \<Rightarrow> ('h, 'c, 'ch) conn" where
  "conn_step i (ManagerMove x) c = (if opens_id i x then c else on_manager (manager_step x) c)"
| "conn_step i (SiblingOpens a) c = (if cn_cell c = None then snd (open_session i a c) else c)"
| "conn_step i (SiblingRuns f) c = c\<lparr>cn_hub := f (cn_hub c)\<rparr>"

definition meanwhile :: "('h, 'c, 'ch, 'u) mcp_env \<Rightarrow> ('h, 'c, 'ch) conn \<Rightarrow> ('h, 'c, 'ch) conn" where
  "meanwhile env c = run_ops (conn_step (me_id env)) (me_moves env c) c"

definition closed_text :: "session_id \<Rightarrow> string" where
  "closed_text i = ''session '' @ quoted (session_str i) @ '' is closed; reconnect to open a new one''"

definition live_session ::
  "('h, 'c, 'ch, 'u) mcp_env \<Rightarrow> nat \<Rightarrow> ('h, 'c, 'ch) conn \<Rightarrow> (mcp_error + nat) \<times> ('h, 'c, 'ch) conn" where
  "live_session env n c =
     (let c1 = meanwhile env c in
      case get_session (me_id env) (cn_manager c1) of
        Some m \<Rightarrow> (Inr n, c1)
      | None \<Rightarrow> (Inl (InvalidParams (closed_text (me_id env))), c1))"

definition mcp_session ::
  "('h, 'c, 'ch, 'u) mcp_env \<Rightarrow> ('h, 'c, 'ch) conn \<Rightarrow> (mcp_error + nat) \<times> ('h, 'c, 'ch) conn" where
  "mcp_session env c =
     (case cn_cell c of
        Some n \<Rightarrow> live_session env n c
      | None \<Rightarrow>
          (let c1 = meanwhile env c in
           case cn_cell c1 of
             Some n \<Rightarrow> live_session env n c1
           | None \<Rightarrow>
               (case open_session (me_id env) (me_answers env c1) c1 of
                  (Inl e, c2) \<Rightarrow> (Inl (protocol_error e), c2)
                | (Inr n, c2) \<Rightarrow> live_session env n c2)))"

text \<open>The session object as \<open>Session::new\<close> was given it.\<close>

definition session_of :: "('h, 'c, 'ch, 'u) mcp_env \<Rightarrow> ('h, 'c, 'ch) conn \<Rightarrow> session" where
  "session_of env c =
     \<lparr>se_id = me_id env, se_config = mg_config (cn_manager c), se_policy = me_policy env,
      se_state_path =
        (case (me_state_dir env, storage_file_name (me_id env)) of
           (Some dir, Inr name) \<Rightarrow> Some (dir, name)
         | _ \<Rightarrow> None)\<rparr>"

section \<open>The shape of a tool\<close>

type_synonym ('h, 'c, 'ch) reply = "((mcp_error + call_result) \<times> ('h, 'c, 'ch) conn) option"

definition with_session ::
  "('h, 'c, 'ch, 'u) mcp_env \<Rightarrow> (nat \<Rightarrow> ('h, 'c, 'ch) conn \<Rightarrow> ('h, 'c, 'ch) reply) \<Rightarrow>
   ('h, 'c, 'ch) conn \<Rightarrow> ('h, 'c, 'ch) reply" where
  "with_session env k c =
     (case mcp_session env c of
        (Inl e, c1) \<Rightarrow> Some (Inl e, c1)
      | (Inr n, c1) \<Rightarrow> k n c1)"

text \<open>An operation of the session, its success rendered, its failure as text plus hint.\<close>

definition answer ::
  "('x \<Rightarrow> call_result) \<Rightarrow>
   (session \<Rightarrow> ('h, 'c, 'ch) hub \<Rightarrow> ((session_error + 'x) \<times> ('h, 'c, 'ch) hub) option) \<Rightarrow>
   ('h, 'c, 'ch, 'u) mcp_env \<Rightarrow> nat \<Rightarrow> ('h, 'c, 'ch) conn \<Rightarrow> ('h, 'c, 'ch) reply" where
  "answer render op env n c =
     (case op (session_of env c) (enter n c) of
        None \<Rightarrow> None
      | Some (Inr x, h) \<Rightarrow> Some (Inr (render x), leave n h c)
      | Some (Inl e, h) \<Rightarrow> Some (Inr (error_result e), leave n h c))"

definition run_tool_action ::
  "('h, 'c, 'ch, 'u) mcp_env \<Rightarrow> action \<Rightarrow> ('h, 'c, 'ch) conn \<Rightarrow> ('h, 'c, 'ch) reply" where
  "run_tool_action env act =
     with_session env (answer snapshot_result (\<lambda>se. execute (me_session env) se act Agent) env)"

definition require_open_page ::
  "('h, 'c, 'ch, 'u) mcp_env \<Rightarrow> string \<Rightarrow> nat \<Rightarrow> ('h, 'c, 'ch) conn \<Rightarrow>
   (mcp_error + unit) \<times> ('h, 'c, 'ch) conn" where
  "require_open_page env page_id n c =
     (case session_pages (me_session env) (session_of env c) (enter n c) of
        (infos, h) \<Rightarrow>
          (if list_ex (\<lambda>p. page_str (pi_id p) = page_id) infos then Inr ()
           else Inl (InvalidParams (''no open page with id '' @ quoted page_id)), leave n h c))"

section \<open>Navigation and elements\<close>

definition tool_navigate where
  "tool_navigate env p = run_tool_action env (Navigate (np_url p))"

definition tool_back where
  "tool_back env = run_tool_action env Back"

definition tool_forward where
  "tool_forward env = run_tool_action env Forward"

definition tool_reload where
  "tool_reload env = run_tool_action env Reload"

definition tool_click where
  "tool_click env p = run_tool_action env (Click (Reference (rp_reference p)))"

definition tool_hover where
  "tool_hover env p = run_tool_action env (Hover (Reference (rp_reference p)))"

definition tool_type_text where
  "tool_type_text env p = run_tool_action env (Type (Reference (tp_reference p)) (tp_text p))"

definition tool_press_key where
  "tool_press_key env p c =
     (if kp_key p = [] then Some (Inl (InvalidParams ''key must not be empty''), c)
      else run_tool_action env (PressKey (kp_key p)) c)"

definition tool_select_option where
  "tool_select_option env p = run_tool_action env (SelectOption (Reference (sp_reference p)) (sp_values p))"

definition tool_upload_file where
  "tool_upload_file env p c =
     (if up_paths p = [] then Some (Inl (InvalidParams ''paths must not be empty''), c)
      else run_tool_action env (SetInputFiles (Reference (up_reference p)) (up_paths p)) c)"

definition tool_scroll where
  "tool_scroll env p c =
     (if cp_amount p \<le> 0 then Some (Inl (InvalidParams ''amount must be greater than zero''), c)
      else
        (case u32_try_from (cp_amount p) of
           None \<Rightarrow> Some (Inl (InvalidParams (''amount must not exceed '' @ show_nat u32_max)), c)
         | Some amount \<Rightarrow>
             run_tool_action env
               (Scroll (map_option Reference (cp_reference p)) (direction_of_input (cp_direction p)) amount) c))"

section \<open>Observations\<close>

definition tool_snapshot where
  "tool_snapshot env =
     with_session env (answer snapshot_result (session_snapshot (me_session env)) env)"

definition tool_read where
  "tool_read env = with_session env (answer read_result (session_read (me_session env)) env)"

definition screenshot_result :: "(string \<Rightarrow> string) \<Rightarrow> screenshot \<Rightarrow> call_result" where
  "screenshot_result base64 shot =
     \<lparr>cr_content = [ImageBlock (base64 (ss_data shot))
        (case ss_format shot of Png \<Rightarrow> ''image/png'' | Jpeg \<Rightarrow> ''image/jpeg'')],
      cr_is_error = False\<rparr>"

definition tool_screenshot where
  "tool_screenshot env =
     with_session env (answer (screenshot_result (me_base64 env))
       (\<lambda>se h. Some (session_screenshot (me_session env) se h)) env)"

definition tool_set_viewport where
  "tool_set_viewport env p c =
     (if \<not> (1 \<le> vp_width p \<and> vp_width p \<le> 10000) \<or> \<not> (1 \<le> vp_height p \<and> vp_height p \<le> 10000)
      then Some (Inl (InvalidParams ''width and height must be between 1 and 10000''), c)
      else
        with_session env (answer snapshot_result
          (\<lambda>se. set_viewport (me_session env) se (as_u32 (vp_width p)) (as_u32 (vp_height p))) env) c)"

definition tool_wait_for where
  "tool_wait_for env p =
     with_session env (answer snapshot_result
       (\<lambda>se. session_wait_for (me_session env) se (wp_text p)
          (unwrap_or (map_option from_millis (wp_timeout_ms p)) wait_for_default_budget)) env)"

definition tool_console_messages where
  "tool_console_messages env =
     with_session env (\<lambda>n c.
       Some (Inr (text_result (console_listing (active_page_id (enter n c)) (console_messages (enter n c)))), c))"

definition tool_network_requests where
  "tool_network_requests env =
     with_session env (\<lambda>n c.
       Some (Inr (text_result (network_listing (active_page_id (enter n c)) (network_requests (enter n c)))), c))"

section \<open>Tabs\<close>

definition tool_tabs_list where
  "tool_tabs_list env =
     with_session env (\<lambda>n c.
       (case session_pages (me_session env) (session_of env c) (enter n c) of
          (infos, h) \<Rightarrow> Some (Inr (text_result (pages_text infos)), leave n h c)))"

text \<open>Both page-naming tools list the pages first, which adopts foreign ones.\<close>

definition on_open_page where
  "on_open_page env page_id k n c =
     (case require_open_page env page_id n c of
        (Inl e, c1) \<Rightarrow> Some (Inl e, c1)
      | (Inr u, c1) \<Rightarrow> k n (meanwhile env c1))"

definition tool_tabs_select where
  "tool_tabs_select env p =
     with_session env (on_open_page env (pp_page_id p)
       (answer snapshot_result (\<lambda>se. select_page (me_session env) se (PageId (pp_page_id p))) env))"

definition tool_tabs_open where
  "tool_tabs_open env p =
     with_session env (answer snapshot_result (\<lambda>se. open_page (me_session env) se (op_url p)) env)"

definition tool_tabs_close where
  "tool_tabs_close env p =
     with_session env (on_open_page env (pp_page_id p)
       (answer text_result (\<lambda>se h. Some (close_page (me_session env) se (PageId (pp_page_id p)) h)) env))"

section \<open>Cookies\<close>

definition tool_get_cookies where
  "tool_get_cookies env =
     with_session env (answer (\<lambda>cks. text_result (cookies_text (me_show_f64 env) cks))
       (\<lambda>se h. Some (session_cookies (me_session env) h)) env)"

fun cookies_of_inputs :: "cookie_input list \<Rightarrow> mcp_error + cookie list" where
  "cookies_of_inputs [] = Inr []"
| "cookies_of_inputs (input # inputs) =
     (case cookie_of_input input of
        Inl e \<Rightarrow> Inl e
      | Inr ck \<Rightarrow>
          (case cookies_of_inputs inputs of Inl e \<Rightarrow> Inl e | Inr cks \<Rightarrow> Inr (ck # cks)))"

definition tool_set_cookies where
  "tool_set_cookies env p c =
     (if kc_cookies p = [] then Some (Inl (InvalidParams ''cookies must not be empty''), c)
      else
        (case cookies_of_inputs (kc_cookies p) of
           Inl e \<Rightarrow> Some (Inl e, c)
         | Inr mapped \<Rightarrow>
             with_session env (answer
               (\<lambda>u. text_result (''set '' @ show_nat (length mapped) @ '' cookie(s)''))
               (\<lambda>se. session_set_cookies (me_session env) se mapped) env) c))"

section \<open>Closing\<close>

text \<open>
  \<open>SessionManager::close_session\<close>: the entry goes under the map lock; outside it the session
  closes its context and forgets its pages, then the last event is published and the ring dropped.
\<close>

definition manager_close_session ::
  "('h, 'c, 'ch, 'u) mcp_env \<Rightarrow> ('h, 'c, 'ch) conn \<Rightarrow> ('h, 'c, 'ch) conn" where
  "manager_close_session env c =
     (let i = me_id env; c1 = meanwhile env c in
      case get_session i (cn_manager c1) of
        None \<Rightarrow> c1
      | Some n \<Rightarrow>
          (let c2 = meanwhile env (on_manager (close_remove i) c1);
               c3 = on_manager (close_read n) c2;
               c4 = leave n (session_close (me_session env) (enter n c3)) c3;
               c5 = on_manager (close_context n) (meanwhile env c4)
           in on_manager (close_forget (sy_wall (cn_hub c5)) n) c5))"

definition tool_close_session where
  "tool_close_session env c =
     (let finish = (\<lambda>c1. Some (Inr (text_result (''closed session '' @ session_str (me_id env))),
                               manager_close_session env c1))
      in if cn_cell c \<noteq> None then with_session env (\<lambda>n. finish) c else finish c)"

section \<open>The tool surface\<close>

datatype tool_call =
    ToolNavigate navigate_params
  | ToolBack
  | ToolForward
  | ToolReload
  | ToolSnapshot
  | ToolRead
  | ToolScreenshot
  | ToolClick reference_params
  | ToolHover reference_params
  | ToolType type_params
  | ToolPressKey press_key_params
  | ToolSelectOption select_option_params
  | ToolUploadFile upload_file_params
  | ToolScroll scroll_params
  | ToolSetViewport viewport_params
  | ToolWaitFor wait_for_params
  | ToolTabsList
  | ToolTabsSelect page_params
  | ToolTabsOpen tabs_open_params
  | ToolTabsClose page_params
  | ToolGetCookies
  | ToolSetCookies cookies_params
  | ToolConsoleMessages
  | ToolNetworkRequests
  | ToolCloseSession

fun call_tool ::
  "('h, 'c, 'ch, 'u) mcp_env \<Rightarrow> tool_call \<Rightarrow> ('h, 'c, 'ch) conn \<Rightarrow> ('h, 'c, 'ch) reply" where
  "call_tool env (ToolNavigate p) c = tool_navigate env p c"
| "call_tool env ToolBack c = tool_back env c"
| "call_tool env ToolForward c = tool_forward env c"
| "call_tool env ToolReload c = tool_reload env c"
| "call_tool env ToolSnapshot c = tool_snapshot env c"
| "call_tool env ToolRead c = tool_read env c"
| "call_tool env ToolScreenshot c = tool_screenshot env c"
| "call_tool env (ToolClick p) c = tool_click env p c"
| "call_tool env (ToolHover p) c = tool_hover env p c"
| "call_tool env (ToolType p) c = tool_type_text env p c"
| "call_tool env (ToolPressKey p) c = tool_press_key env p c"
| "call_tool env (ToolSelectOption p) c = tool_select_option env p c"
| "call_tool env (ToolUploadFile p) c = tool_upload_file env p c"
| "call_tool env (ToolScroll p) c = tool_scroll env p c"
| "call_tool env (ToolSetViewport p) c = tool_set_viewport env p c"
| "call_tool env (ToolWaitFor p) c = tool_wait_for env p c"
| "call_tool env ToolTabsList c = tool_tabs_list env c"
| "call_tool env (ToolTabsSelect p) c = tool_tabs_select env p c"
| "call_tool env (ToolTabsOpen p) c = tool_tabs_open env p c"
| "call_tool env (ToolTabsClose p) c = tool_tabs_close env p c"
| "call_tool env ToolGetCookies c = tool_get_cookies env c"
| "call_tool env (ToolSetCookies p) c = tool_set_cookies env p c"
| "call_tool env ToolConsoleMessages c = tool_console_messages env c"
| "call_tool env ToolNetworkRequests c = tool_network_requests env c"
| "call_tool env ToolCloseSession c = tool_close_session env c"

text \<open>A client that sends its calls one after another.\<close>

fun call_tools ::
  "('h, 'c, 'ch, 'u) mcp_env \<Rightarrow> tool_call list \<Rightarrow> ('h, 'c, 'ch) conn \<Rightarrow>
   ((mcp_error + call_result) list \<times> ('h, 'c, 'ch) conn) option" where
  "call_tools env [] c = Some ([], c)"
| "call_tools env (x # xs) c =
     (case call_tool env x c of
        None \<Rightarrow> None
      | Some (r, c1) \<Rightarrow>
          (case call_tools env xs c1 of None \<Rightarrow> None | Some (rs, c2) \<Rightarrow> Some (r # rs, c2)))"

section \<open>The HTTP transport\<close>

text \<open>
  The factory of \<open>serve_http\<close>: each connection takes the next serial of a 64-bit counter that
  wraps.
\<close>

definition http_session_id :: "nat \<Rightarrow> 64 word \<Rightarrow> session_id" where
  "http_session_id pid serial = SessionId (''http-'' @ show_nat pid @ ''-'' @ show_nat (unat serial))"

definition http_connect :: "nat \<Rightarrow> 64 word \<Rightarrow> session_id \<times> 64 word" where
  "http_connect pid counter = (http_session_id pid counter, counter + 1)"

fun http_connects :: "nat \<Rightarrow> nat \<Rightarrow> 64 word \<Rightarrow> session_id list" where
  "http_connects pid 0 counter = []"
| "http_connects pid (Suc k) counter =
     (case http_connect pid counter of (i, counter') \<Rightarrow> i # http_connects pid k counter')"

end
