(* ===== verification/Mcp_Tools.thy ===== *)
theory Mcp_Tools
  imports Mcp_Server
begin

text \<open>
  What the tools of the MCP server guarantee: the gate of a connection under the moves of other
  tasks, tool calls as a check, the gate and one operation, the authority behind a tool that
  acts, the texts of failures, and the session ids of HTTP connections.
\<close>

section \<open>The gate\<close>

text \<open>
  What the gate relies on: a set cell stays, and an id the manager has forgotten is asked for
  again only by a connection whose cell is empty.
\<close>

locale connection_gate =
  fixes step :: "'m \<Rightarrow> 's \<Rightarrow> 's"
    and cell :: "'s \<Rightarrow> nat option"
    and known :: "'s \<Rightarrow> bool"
  assumes cell_kept: "cell s = Some n \<Longrightarrow> cell (step x s) = Some n"
    and stays_unknown: "cell s = Some n \<Longrightarrow> \<not> known s \<Longrightarrow> \<not> known (step x s)"
begin

lemma cell_run: "cell s = Some n \<Longrightarrow> cell (run_ops step xs s) = Some n"
  by (induction xs arbitrary: s) (auto intro: cell_kept)

lemma unknown_run: "cell s = Some n \<Longrightarrow> \<not> known s \<Longrightarrow> \<not> known (run_ops step xs s)"
proof (induction xs arbitrary: s)
  case (Cons x xs)
  then show ?case using cell_kept [OF Cons.prems(1)] stays_unknown [OF Cons.prems] by simp
qed simp

end

definition knows :: "session_id \<Rightarrow> ('h, 'c, 'ch) conn \<Rightarrow> bool" where
  "knows i c \<longleftrightarrow> get_session i (cn_manager c) \<noteq> None"

lemma on_manager_simps [simp]:
  "cn_cell (on_manager f c) = cn_cell c" "cn_manager (on_manager f c) = f (cn_manager c)"
  "cn_hub (on_manager f c) = cn_hub c"
  by (simp_all add: on_manager_def)

lemma leave_simps [simp]:
  "cn_cell (leave n h c) = cn_cell c" "cn_hub (leave n h c) = h"
  "mg_sessions (cn_manager (leave n h c)) = mg_sessions (cn_manager c)"
  "mg_config (cn_manager (leave n h c)) = mg_config (cn_manager c)"
  by (simp_all add: leave_def)

lemma map_of_filter_other: "map_of (filter (\<lambda>e. fst e \<noteq> j) xs) i = (if i = j then None else map_of xs i)"
  by (induction xs) auto

lemma sessions_close_remove:
  "mg_sessions (close_remove j m) = (if map_of (mg_sessions m) j = None then mg_sessions m
     else filter (\<lambda>e. fst e \<noteq> j) (mg_sessions m))"
  by (auto simp: close_remove_def split: option.splits)

lemma get_session_close_remove:
  "get_session i (close_remove j m) = (if i = j then None else get_session i m)"
  by (auto simp: get_session_def sessions_close_remove map_of_filter_other)

lemma manager_session_other_id:
  assumes "i \<noteq> j"
  shows "get_session i (snd (manager_session ra j m)) = get_session i m"
proof (cases rule: manager_session_cases [of ra j m])
  case (inserted m1)
  then show ?thesis
    using assms ensure_running_frame(2) [OF inserted(1)]
    by (simp add: get_session_def insert_session_def map_add_def split: option.split)
qed (auto simp: get_session_def ensure_running_frame(2))

lemma advances_session: "advances s t \<Longrightarrow> get_session i t = get_session i s"
  by (simp add: advances_def get_session_def)

lemmas kept_sessions = advances_steps [THEN advances_session]

lemma manager_step_unknown:
  assumes "\<not> opens_id i x" "get_session i m = None"
  shows "get_session i (manager_step x m) = None"
proof (cases x)
  case (MSession ra j)
  then show ?thesis using assms manager_session_other_id [of i j ra m] by simp
next
  case MShutdown
  then show ?thesis by (simp add: manager_shutdown_def get_session_def)
qed (simp_all add: assms(2) get_session_close_remove kept_sessions)

interpretation gate: connection_gate "conn_step i" cn_cell "knows i" for i
proof unfold_locales
  show "cn_cell s = Some n \<Longrightarrow> cn_cell (conn_step i x s) = Some n" for s :: "('a, 'b, 'c) conn" and n x
    by (cases x) auto
  show "cn_cell s = Some n \<Longrightarrow> \<not> knows i s \<Longrightarrow> \<not> knows i (conn_step i x s)"
    for s :: "('a, 'b, 'c) conn" and n x
    by (cases x) (auto simp: knows_def dest: manager_step_unknown)
qed

lemma meanwhile_cell: "cn_cell c = Some n \<Longrightarrow> cn_cell (meanwhile env c) = Some n"
  unfolding meanwhile_def by (rule gate.cell_run)

lemma meanwhile_unknown:
  "cn_cell c = Some n \<Longrightarrow> \<not> knows (me_id env) c \<Longrightarrow> \<not> knows (me_id env) (meanwhile env c)"
  unfolding meanwhile_def by (rule gate.unknown_run)

text \<open>A connection whose session was opened and is gone.\<close>

definition shut :: "('h, 'c, 'ch, 'u) mcp_env \<Rightarrow> ('h, 'c, 'ch) conn \<Rightarrow> bool" where
  "shut env c \<longleftrightarrow> cn_cell c \<noteq> None \<and> \<not> knows (me_id env) c"

lemma shut_meanwhile: "shut env c \<Longrightarrow> shut env (meanwhile env c)"
  unfolding shut_def using meanwhile_cell meanwhile_unknown by fastforce

lemma shut_session:
  "shut env c \<Longrightarrow> mcp_session env c = (Inl (InvalidParams (closed_text (me_id env))), meanwhile env c)"
  using meanwhile_unknown [of c _ env]
  by (auto simp: shut_def mcp_session_def live_session_def Let_def knows_def)

lemma shut_with_session:
  "shut env c \<Longrightarrow>
   with_session env k c = Some (Inl (InvalidParams (closed_text (me_id env))), meanwhile env c)"
  by (simp add: with_session_def shut_session)

section \<open>Closing\<close>

lemma cookie_inputs:
  "cookies_of_inputs inputs = Inr (map (\<lambda>input. projr (cookie_of_input input :: mcp_error + cookie)) inputs)"
  by (induction inputs) (simp_all add: cookie_of_input_def)

lemmas tool_defs = tool_navigate_def tool_back_def tool_forward_def tool_reload_def tool_snapshot_def
  tool_read_def tool_screenshot_def tool_click_def tool_hover_def tool_type_text_def tool_press_key_def
  tool_select_option_def tool_upload_file_def tool_scroll_def tool_set_viewport_def tool_wait_for_def
  tool_tabs_list_def tool_tabs_select_def tool_tabs_open_def tool_tabs_close_def tool_get_cookies_def
  tool_set_cookies_def tool_console_messages_def tool_network_requests_def tool_close_session_def
  run_tool_action_def

lemma shut_call:
  assumes "shut env c"
  shows "\<exists>m c'. call_tool env x c = Some (Inl (InvalidParams m), c') \<and> (c' = c \<or> c' = meanwhile env c)"
proof -
  have "cn_cell c \<noteq> None" using assms by (simp add: shut_def)
  then show ?thesis
    by (cases x) (auto simp: tool_defs cookie_inputs shut_with_session [OF assms] Let_def split: option.split)
qed

lemma shut_calls:
  assumes "shut env c"
  shows "\<exists>rs c'. call_tools env xs c = Some (rs, c') \<and> length rs = length xs \<and>
     (\<forall>r \<in> set rs. \<exists>m. r = Inl (InvalidParams m)) \<and> shut env c' \<and>
     ((\<forall>c. me_moves env c = []) \<longrightarrow> c' = c)"
  using assms
proof (induction xs arbitrary: c)
  case (Cons x xs)
  obtain m c1 where one: "call_tool env x c = Some (Inl (InvalidParams m), c1)" and
    c1: "c1 = c \<or> c1 = meanwhile env c"
    using shut_call [OF Cons.prems] by blast
  have "shut env c1" using c1 Cons.prems shut_meanwhile by blast
  moreover have "(\<forall>c. me_moves env c = []) \<longrightarrow> c1 = c" using c1 by (auto simp: meanwhile_def)
  ultimately show ?case using Cons.IH [of c1] one by fastforce
qed simp

lemma knows_simps [simp]:
  "knows i (leave n h c) = knows i c" "knows i (on_manager (close_read n) c) = knows i c"
  "knows i (on_manager (close_context n) c) = knows i c"
  "knows i (on_manager (close_forget now n) c) = knows i c"
  "\<not> knows i (on_manager (close_remove i) c)"
  by (simp_all add: knows_def kept_sessions get_session_close_remove) (simp add: get_session_def)

lemma manager_close_session_shuts:
  assumes "cn_cell c = Some n"
  shows "cn_cell (manager_close_session env c) = Some n \<and> \<not> knows (me_id env) (manager_close_session env c)"
proof (cases "get_session (me_id env) (cn_manager (meanwhile env c))")
  case None
  then show ?thesis
    using meanwhile_cell [OF assms] by (simp add: manager_close_session_def Let_def knows_def)
next
  case (Some k)
  have "shut env (on_manager (close_remove (me_id env)) (meanwhile env c))"
    using meanwhile_cell [OF assms, of env] by (simp add: shut_def)
  note shut_meanwhile [OF this]
  then have "shut env (leave k h (on_manager (close_read k)
      (meanwhile env (on_manager (close_remove (me_id env)) (meanwhile env c)))))" for h
    by (simp add: shut_def)
  note shut_meanwhile [OF this]
  moreover have "cn_cell (meanwhile env (leave k h (on_manager (close_read k)
      (meanwhile env (on_manager (close_remove (me_id env)) (meanwhile env c)))))) = Some n" for h
    by (intro meanwhile_cell) (simp add: meanwhile_cell [OF meanwhile_cell [OF assms, of env], of env]
      meanwhile_cell [OF assms, of env] meanwhile_cell)
  ultimately show ?thesis
    using Some by (simp add: manager_close_session_def Let_def shut_def)
qed

lemma close_call_shuts:
  assumes "cn_cell c = Some n" "call_tool env ToolCloseSession c = Some (Inr r, c')"
  shows "cn_cell c' = Some n \<and> shut env c'"
proof -
  obtain m c1 where ms: "mcp_session env c = (Inr m, c1)" and c': "c' = manager_close_session env c1"
    using assms by (auto simp: tool_close_session_def with_session_def Let_def split: prod.splits sum.splits)
  have "c1 = meanwhile env c"
    using ms assms(1) by (auto simp: mcp_session_def live_session_def Let_def split: option.splits)
  then show ?thesis
    using manager_close_session_shuts meanwhile_cell [OF assms(1)] by (fastforce simp: c' shut_def)
qed

section \<open>A check, the gate, one operation\<close>

text \<open>
  What the tools promise of their parameters, written from the parameter documentation: which
  call is refused and with which text, and the operation an accepted call runs, with the very
  numbers the caller sent.
\<close>

fun refusal :: "tool_call \<Rightarrow> string option" where
  "refusal (ToolPressKey p) = (if kp_key p = [] then Some ''key must not be empty'' else None)"
| "refusal (ToolUploadFile p) = (if up_paths p = [] then Some ''paths must not be empty'' else None)"
| "refusal (ToolScroll p) =
     (if cp_amount p < 1 then Some ''amount must be greater than zero''
      else if 4294967295 < cp_amount p then Some ''amount must not exceed 4294967295'' else None)"
| "refusal (ToolSetViewport p) =
     (if vp_width p \<in> {1..10000} \<and> vp_height p \<in> {1..10000} then None
      else Some ''width and height must be between 1 and 10000'')"
| "refusal (ToolSetCookies p) = (if kc_cookies p = [] then Some ''cookies must not be empty'' else None)"
| "refusal _ = None"

fun action_of :: "tool_call \<Rightarrow> action option" where
  "action_of (ToolNavigate p) = Some (Navigate (np_url p))"
| "action_of ToolBack = Some Back"
| "action_of ToolForward = Some Forward"
| "action_of ToolReload = Some Reload"
| "action_of (ToolClick p) = Some (Click (Reference (rp_reference p)))"
| "action_of (ToolHover p) = Some (Hover (Reference (rp_reference p)))"
| "action_of (ToolType p) = Some (Type (Reference (tp_reference p)) (tp_text p))"
| "action_of (ToolPressKey p) = Some (PressKey (kp_key p))"
| "action_of (ToolSelectOption p) = Some (SelectOption (Reference (sp_reference p)) (sp_values p))"
| "action_of (ToolUploadFile p) = Some (SetInputFiles (Reference (up_reference p)) (up_paths p))"
| "action_of (ToolScroll p) =
     Some (Scroll (map_option Reference (cp_reference p)) (direction_of_input (cp_direction p)) (nat (cp_amount p)))"
| "action_of _ = None"

text \<open>A cookie as the caller gave it: a flag left out is off, everything else is taken as it is.\<close>

definition given_cookie :: "cookie_input \<Rightarrow> cookie" where
  "given_cookie input =
     \<lparr>ck_name = ci_name input, ck_value = ci_value input, ck_domain = ci_domain input,
      ck_path = ci_path input, ck_secure = (ci_secure input = Some True),
      ck_http_only = (ci_http_only input = Some True),
      ck_same_site = map_option same_site_of_input (ci_same_site input),
      ck_expires = ci_expires input\<rparr>"

text \<open>
  The one operation behind the gate, with its arguments and the rendering of its success; an
  unnamed timeout is ten seconds.
\<close>

fun operation_of ::
  "('h, 'c, 'ch, 'u) mcp_env \<Rightarrow> tool_call \<Rightarrow> nat \<Rightarrow> ('h, 'c, 'ch) conn \<Rightarrow> ('h, 'c, 'ch) reply" where
  "operation_of env ToolSnapshot = answer snapshot_result (session_snapshot (me_session env)) env"
| "operation_of env ToolRead = answer read_result (session_read (me_session env)) env"
| "operation_of env ToolScreenshot =
     answer (screenshot_result (me_base64 env)) (\<lambda>se h. Some (session_screenshot (me_session env) se h)) env"
| "operation_of env (ToolSetViewport p) =
     answer snapshot_result
       (\<lambda>se. set_viewport (me_session env) se (nat (vp_width p)) (nat (vp_height p))) env"
| "operation_of env (ToolWaitFor p) =
     answer snapshot_result
       (\<lambda>se. session_wait_for (me_session env) se (wp_text p)
          (case wp_timeout_ms p of None \<Rightarrow> from_secs 10 | Some ms \<Rightarrow> from_millis ms)) env"
| "operation_of env ToolTabsList =
     (\<lambda>n c. case session_pages (me_session env) (session_of env c) (enter n c) of
        (infos, h) \<Rightarrow> Some (Inr (text_result (pages_text infos)), leave n h c))"
| "operation_of env (ToolTabsSelect p) =
     on_open_page env (pp_page_id p)
       (answer snapshot_result (\<lambda>se. select_page (me_session env) se (PageId (pp_page_id p))) env)"
| "operation_of env (ToolTabsOpen p) =
     answer snapshot_result (\<lambda>se. open_page (me_session env) se (op_url p)) env"
| "operation_of env (ToolTabsClose p) =
     on_open_page env (pp_page_id p)
       (answer text_result (\<lambda>se h. Some (close_page (me_session env) se (PageId (pp_page_id p)) h)) env)"
| "operation_of env ToolGetCookies =
     answer (\<lambda>cks. text_result (cookies_text (me_show_f64 env) cks))
       (\<lambda>se h. Some (session_cookies (me_session env) h)) env"
| "operation_of env (ToolSetCookies p) =
     answer (\<lambda>u. text_result (''set '' @ show_nat (length (kc_cookies p)) @ '' cookie(s)''))
       (\<lambda>se. session_set_cookies (me_session env) se (map given_cookie (kc_cookies p))) env"
| "operation_of env ToolConsoleMessages =
     (\<lambda>n c. Some (Inr (text_result (console_listing (active_page_id (enter n c))
        (console_messages (enter n c)))), c))"
| "operation_of env ToolNetworkRequests =
     (\<lambda>n c. Some (Inr (text_result (network_listing (active_page_id (enter n c))
        (network_requests (enter n c)))), c))"
| "operation_of env ToolCloseSession =
     (\<lambda>n c. Some (Inr (text_result (''closed session '' @ session_str (me_id env))),
        manager_close_session env c))"
| "operation_of env x =
     (case action_of x of
        None \<Rightarrow> (\<lambda>n c. None)
      | Some act \<Rightarrow> answer snapshot_result (\<lambda>se. execute (me_session env) se act Agent) env)"

lemma cookies_given: "cookies_of_inputs inputs = Inr (map given_cookie inputs)"
proof (induction inputs)
  case (Cons input inputs)
  have "unwrap_or b False \<longleftrightarrow> b = Some True" for b by (cases b) auto
  with Cons show ?case by (simp add: cookie_of_input_def given_cookie_def)
qed simp

lemma as_u32_small: "1 \<le> n \<Longrightarrow> n \<le> 10000 \<Longrightarrow> as_u32 n = nat n"
  by (simp add: as_u32_def)

lemma show_u32_max: "show_nat u32_max = ''4294967295''"
  by (simp add: u32_max_def show_nat.simps digit_char_def char_of_def bit_0)

lemma call_is_checked_gate:
  "call_tool env x c =
     (case refusal x of
        Some m \<Rightarrow> Some (Inl (InvalidParams m), c)
      | None \<Rightarrow>
          (if x = ToolCloseSession \<and> cn_cell c = None
           then Some (Inr (text_result (''closed session '' @ session_str (me_id env))),
                  manager_close_session env c)
           else with_session env (operation_of env x) c))"
proof (cases x)
  case (ToolScroll p)
  then show ?thesis
    by (auto simp: tool_scroll_def u32_try_from_def u32_max_def run_tool_action_def
        show_u32_max [unfolded u32_max_def])
next
  case (ToolSetViewport p)
  then show ?thesis by (auto simp: tool_set_viewport_def as_u32_small)
next
  case (ToolWaitFor p)
  then show ?thesis
    by (cases "wp_timeout_ms p") (simp_all add: tool_wait_for_def wait_for_default_budget_def)
next
  case (ToolSetCookies p)
  then show ?thesis by (simp add: tool_set_cookies_def cookies_given)
next
  case ToolCloseSession
  then show ?thesis by (auto simp: tool_close_session_def Let_def)
qed (auto simp: tool_defs)

text \<open>
  C35. A tool call is its parameter check, the session gate and one operation. A call whose
  parameters break a rule is refused with the rule's text before anything happens: no session is
  opened, no lock taken, no state changed. Every other call passes the gate and then runs exactly
  the operation of its tool, with the very values the caller sent: the scroll distance in 32
  bits, the viewport's width and height, the wait's text and budget, the page id, the URL, all
  the cookies. Only \<open>close_session\<close> has a case without the gate, on a connection that has no
  session yet.
\<close>
theorem tool_parameters_checked_first:
  "call_tool env x c =
     (case refusal x of
        Some m \<Rightarrow> Some (Inl (InvalidParams m), c)
      | None \<Rightarrow>
          (if x = ToolCloseSession \<and> cn_cell c = None
           then Some (Inr (text_result (''closed session '' @ session_str (me_id env))),
                  manager_close_session env c)
           else (case mcp_session env c of
                   (Inl e, c1) \<Rightarrow> Some (Inl e, c1)
                 | (Inr n, c1) \<Rightarrow> operation_of env x n c1)))"
  unfolding call_is_checked_gate with_session_def by (rule refl)

text \<open>A refusal of a parameter is its bare text.\<close>

lemma refusals_carry_no_hint:
  "call_tool env (ToolScroll \<lparr>cp_direction = InputDown, cp_amount = - 5, cp_reference = None\<rparr>) c =
     Some (Inl (InvalidParams ''amount must be greater than zero''), c)"
  by (simp add: tool_scroll_def)

section \<open>Failures\<close>

lemma hints_given: "engine_error_hint e \<noteq> []" "action_error_hint a \<noteq> []" "session_error_hint se \<noteq> []"
proof -
  show e: "engine_error_hint e \<noteq> []" for e by (cases e) auto
  show a: "action_error_hint a \<noteq> []" for a by (cases a) auto
  show "session_error_hint se \<noteq> []" by (cases se) (auto simp: e a)
qed

text \<open>
  What a tool behind the gate answers: its only refusal is a page id that names no open page,
  and an error result is a hinted text.
\<close>

fun named_page :: "tool_call \<Rightarrow> string option" where
  "named_page (ToolTabsSelect p) = Some (pp_page_id p)"
| "named_page (ToolTabsClose p) = Some (pp_page_id p)"
| "named_page _ = None"

definition no_page_text :: "string \<Rightarrow> string" where
  "no_page_text i = ''no open page with id '' @ quoted i"

definition well_answered :: "string option \<Rightarrow> ('h, 'c, 'ch) reply \<Rightarrow> bool" where
  "well_answered named rep \<longleftrightarrow>
     (\<forall>e c'. rep = Some (Inl e, c') \<longrightarrow> (\<exists>i. named = Some i \<and> e = InvalidParams (no_page_text i))) \<and>
     (\<forall>r c'. rep = Some (Inr r, c') \<longrightarrow> cr_is_error r \<longrightarrow> (\<exists>e. r = error_result e))"

lemma well_answered_simps [simp]:
  "well_answered named None" "well_answered (Some i) (Some (Inl (InvalidParams (no_page_text i)), c))"
  "well_answered named (Some (Inr (error_result e), c))"
  "well_answered named (Some (Inr (text_result t), c))"
  "well_answered named (Some (Inr (snapshot_result snap), c))"
  "well_answered named (Some (Inr (read_result ro), c))"
  "well_answered named (Some (Inr (screenshot_result b shot), c))"
  by (auto simp: well_answered_def text_result_def snapshot_result_def read_result_def screenshot_result_def)

lemma well_answered_answer:
  "(\<And>x c. well_answered named (Some (Inr (render x), c) :: ('h, 'c, 'ch) reply)) \<Longrightarrow>
   well_answered named (answer render op env n (c :: ('h, 'c, 'ch) conn))"
  by (auto simp: answer_def split: option.split prod.split sum.split)

lemma well_answered_open_page:
  "(\<And>c. well_answered (Some i) (k n c)) \<Longrightarrow> well_answered (Some i) (on_open_page env i k n c)"
  by (auto simp: on_open_page_def require_open_page_def no_page_text_def [symmetric]
      simp del: append_Cons append_Nil split: prod.split sum.split)

lemma operation_well_answered: "well_answered (named_page x) (operation_of env x n c)"
  by (cases x) (auto intro!: well_answered_answer well_answered_open_page split: prod.split)

lemma open_session_refused: "open_session i a c = (Inl e, c') \<Longrightarrow> cn_cell c' = cn_cell c"
  by (auto simp: open_session_def split: prod.splits sum.splits)

lemma mcp_session_refused:
  assumes "mcp_session env c = (Inl e, c')"
  shows "e = InvalidParams (closed_text (me_id env)) \<or>
    (\<exists>se. e = protocol_error se) \<and> cn_cell c = None \<and> cn_cell c' = None"
  using assms
  by (auto simp: mcp_session_def live_session_def Let_def dest: open_session_refused
      split: option.splits prod.splits sum.splits)

lemma error_result_text:
  assumes "r = error_result e"
  shows "\<exists>e. cr_content r = [TextBlock (show_session_error e @ newline # ''hint: '' @ session_error_hint e)] \<and>
    session_error_hint e \<noteq> []"
  using assms hints_given(3) by (intro exI [of _ e]) (simp add: error_result_def hinted_def)


section \<open>Authority\<close>

text \<open>What a tool does to the outside: the effect the policy judges.\<close>

fun effect_of :: "tool_call \<Rightarrow> approval_effect option" where
  "effect_of (ToolSetCookies p) = Some (EffectCookies (length (kc_cookies p)))"
| "effect_of (ToolTabsOpen p) = map_option (\<lambda>url. EffectAction (Navigate url)) (op_url p)"
| "effect_of x = map_option EffectAction (action_of x)"

lemma answer_success:
  assumes "answer render op env n c = Some (Inr r, c')" "\<not> cr_is_error r"
  obtains x h where "op (session_of env c) (enter n c) = Some (Inr x, h)" "r = render x"
  using assms by (auto simp: answer_def error_result_def split: option.splits prod.splits sum.splits)

lemma and_then_Inr:
  assumes "and_then m k = Some (Inr y, s')"
  obtains x s where "m = Some (Inr x, s)" "k x s = Some (Inr y, s')"
  using assms by (auto simp: and_then_def split: option.splits prod.splits sum.splits)

text \<open>
  What the effect of a call is judged at, and with what it is then done: the page of the
  operation (the tab just opened, or the session's active page), the URL the effect carries or
  the page answers there, and the engine's own answer to the effect in the state the gate left.
\<close>

definition page_of_call ::
  "('h, 'c, 'ch, 'u, ('h, 'c, 'ch) hub) env \<Rightarrow> session \<Rightarrow> tool_call \<Rightarrow> ('h, 'c, 'ch) hub \<Rightarrow> page_id \<Rightarrow> 'h \<Rightarrow>
   ('h, 'c, 'ch) hub \<Rightarrow> bool" where
  "page_of_call env se x s i page s1 \<longleftrightarrow>
     (case x of
        ToolTabsOpen p \<Rightarrow>
          (\<exists>s0 r. cx_open_page (en_context env) (hb_context s) s = (Inr (i, page), s0) \<and>
             admit (new_slot i [] page False) (hb_pages s0) = (True, r) \<and>
             s1 = emit (se_id se) (PageOpened i) (start_feed i (s0\<lparr>hb_pages := snd (activate i r)\<rparr>)))
      | _ \<Rightarrow> ensure_page env se s = (Inr (i, page), s1))"

definition judged_read ::
  "('h, 'c, 'ch, 'u, ('h, 'c, 'ch) hub) env \<Rightarrow> approval_effect \<Rightarrow> 'h \<Rightarrow> ('h, 'c, 'ch) hub \<Rightarrow>
   string option \<times> ('h, 'c, 'ch) hub" where
  "judged_read env effect page s1 =
     (case target_url effect of
        Some url \<Rightarrow> (Some url, s1)
      | None \<Rightarrow> page_url (en_page env) page s1)"

definition effect_done ::
  "('h, 'c, 'ch, 'u, ('h, 'c, 'ch) hub) env \<Rightarrow> session \<Rightarrow> tool_call \<Rightarrow> page_id \<Rightarrow> 'h \<Rightarrow> ('h, 'c, 'ch) hub \<Rightarrow> bool" where
  "effect_done env se x i page s \<longleftrightarrow>
     (case x of
        ToolTabsOpen p \<Rightarrow> \<exists>url effective s'. op_url p = Some url \<and> pa_navigate (en_page env) page url s = (Inr effective, s')
      | ToolSetCookies p \<Rightarrow>
          \<exists>s'. cx_set_cookies (en_context env) (hb_context s) (map given_cookie (kc_cookies p)) s = (Inr (), s')
      | _ \<Rightarrow> \<exists>act snap s'. action_of x = Some act \<and> perform env se act Agent i page s = Some (Inr snap, s'))"

lemma engine_call_Inr: "engine_call rs = Some (Inr y, s) \<Longrightarrow> rs = (Inr y, s)"
  by (cases rs; cases "fst rs") (auto simp: engine_call_def map_err_def)

lemma execute_success_cleared:
  assumes "execute env se act Agent s = Some (Inr snap, s')"
  shows "\<exists>i page s1 raw s2 s3. ensure_page env se s = (Inr (i, page), s1) \<and>
    judged_read env (EffectAction act) page s1 = (raw, s2) \<and>
    cleared env se (EffectAction act) page i raw s2 s3 \<and>
    perform env se act Agent i page s3 = Some (Inr snap, s')"
proof -
  from assms obtain i page s1 s3 where found: "ensure_page env se s = (Inr (i, page), s1)"
    "supervise env se act Agent i page s1 = Some (Inr (), s3)"
    "perform env se act Agent i page s3 = Some (Inr snap, s')"
    unfolding execute_def by (auto elim!: and_then_Inr)
  moreover have "judged_read env (EffectAction act) page s1 = policy_url env act page s1"
    by (cases act) (simp_all add: judged_read_def policy_url_def)
  ultimately show ?thesis
    using supervise_Agent [OF found(2)] by (metis prod.collapse)
qed

lemma set_cookies_success_cleared:
  assumes "session_set_cookies env se cks s = Some (Inr u, s')"
  shows "\<exists>i page s1 raw s2 s3 s4. ensure_page env se s = (Inr (i, page), s1) \<and>
    judged_read env (EffectCookies (length cks)) page s1 = (raw, s2) \<and>
    cleared env se (EffectCookies (length cks)) page i raw s2 s3 \<and>
    cx_set_cookies (en_context env) (hb_context s3) cks s3 = (Inr (), s4)"
proof -
  from assms obtain i page s1 raw s2 s3 s4 where run: "ensure_page env se s = (Inr (i, page), s1)"
    "page_url (en_page env) page s1 = (raw, s2)"
    "enforce env se (EffectCookies (length cks)) page i raw s2 = Some (Inr (), s3)"
    "engine_call (cx_set_cookies (en_context env) (hb_context s3) cks s3) = Some (Inr (), s4)"
    unfolding session_set_cookies_def by (auto split: prod.splits elim!: and_then_Inr)
  from engine_call_Inr [OF run(4)] show ?thesis
    using run enforce_cleared [OF run(3)] by (auto simp: judged_read_def)
qed

lemma open_page_success_cleared:
  assumes "open_page env se (Some url) s = Some (Inr snap, s')"
  shows "\<exists>i page s0 r s1 s3 effective s4.
    cx_open_page (en_context env) (hb_context s) s = (Inr (i, page), s0) \<and>
    admit (new_slot i [] page False) (hb_pages s0) = (True, r) \<and>
    s1 = emit (se_id se) (PageOpened i) (start_feed i (s0\<lparr>hb_pages := snd (activate i r)\<rparr>)) \<and>
    cleared env se (EffectAction (Navigate url)) page i (Some url) s1 s3 \<and>
    pa_navigate (en_page env) page url s3 = (Inr effective, s4)"
proof -
  from assms obtain i page s0 r u s2 where opened: "cx_open_page (en_context env) (hb_context s) s = (Inr (i, page), s0)"
    "admit (new_slot i [] page False) (hb_pages s0) = (True, r)"
    "navigate_opened env se i page url
       (emit (se_id se) (PageOpened i) (start_feed i (s0\<lparr>hb_pages := snd (activate i r)\<rparr>))) = Some (Inr u, s2)"
    unfolding open_page_def
    by (auto simp: Let_def split: if_splits prod.splits sum.splits elim!: and_then_Inr)
  from opened(3) obtain s3 effective s4 where gate:
    "enforce env se (EffectAction (Navigate url)) page i (Some url)
       (emit (se_id se) (PageOpened i) (start_feed i (s0\<lparr>hb_pages := snd (activate i r)\<rparr>))) = Some (Inr (), s3)"
    "engine_call (pa_navigate (en_page env) page url s3) = Some (Inr effective, s4)"
    unfolding navigate_opened_def by (auto elim!: and_then_Inr)
  from engine_call_Inr [OF gate(2)] show ?thesis
    using opened(1,2) enforce_cleared [OF gate(1)] by auto
qed

text \<open>A call answered with success passed the gate and ran its operation.\<close>

lemma success_ran:
  assumes "call_tool env x c = Some (Inr r, c')" "x \<noteq> ToolCloseSession"
  obtains n c1 where "mcp_session env c = (Inr n, c1)" "operation_of env x n c1 = Some (Inr r, c')"
  using assms call_is_checked_gate [of env x c] that
  by (auto simp: with_session_def split: option.splits if_splits prod.splits sum.splits)

lemma session_of_fields [simp]: "se_id (session_of env c) = me_id env" "se_policy (session_of env c) = me_policy env"
  by (simp_all add: session_of_def)

lemma action_operation:
  assumes "action_of x = Some act"
  shows "operation_of env x = answer snapshot_result (\<lambda>se. execute (me_session env) se act Agent) env"
  using assms by (cases x) auto

lemma action_cleared:
  assumes "operation_of env x n c = Some (Inr r, c')" "\<not> cr_is_error r" "action_of x = Some act"
  shows "\<exists>i page s1 raw s2 s3. page_of_call (me_session env) (session_of env c) x (enter n c) i page s1 \<and>
    judged_read (me_session env) (EffectAction act) page s1 = (raw, s2) \<and>
    cleared (me_session env) (session_of env c) (EffectAction act) page i raw s2 s3 \<and>
    effect_done (me_session env) (session_of env c) x i page s3"
proof -
  obtain snap h where "execute (me_session env) (session_of env c) act Agent (enter n c) = Some (Inr snap, h)"
    using assms(1,2) unfolding action_operation [OF assms(3)] by (elim answer_success)
  from execute_success_cleared [OF this] obtain i page s1 raw s2 s3 where run:
    "ensure_page (me_session env) (session_of env c) (enter n c) = (Inr (i, page), s1)"
    "judged_read (me_session env) (EffectAction act) page s1 = (raw, s2)"
    "cleared (me_session env) (session_of env c) (EffectAction act) page i raw s2 s3"
    "perform (me_session env) (session_of env c) act Agent i page s3 = Some (Inr snap, h)"
    by blast
  then have "page_of_call (me_session env) (session_of env c) x (enter n c) i page s1"
    using assms(3) by (cases x) (simp_all add: page_of_call_def)
  moreover have "effect_done (me_session env) (session_of env c) x i page s3"
    using assms(3) run(4) by (cases x) (auto simp: effect_done_def)
  ultimately show ?thesis using run by blast
qed

lemma cookies_cleared:
  assumes "operation_of env (ToolSetCookies p) n c = Some (Inr r, c')" "\<not> cr_is_error r"
  shows "\<exists>i page s1 raw s2 s3. page_of_call (me_session env) (session_of env c) (ToolSetCookies p) (enter n c) i page s1 \<and>
    judged_read (me_session env) (EffectCookies (length (kc_cookies p))) page s1 = (raw, s2) \<and>
    cleared (me_session env) (session_of env c) (EffectCookies (length (kc_cookies p))) page i raw s2 s3 \<and>
    effect_done (me_session env) (session_of env c) (ToolSetCookies p) i page s3"
proof -
  obtain u h where "session_set_cookies (me_session env) (session_of env c) (map given_cookie (kc_cookies p))
      (enter n c) = Some (Inr u, h)"
    using assms by (auto elim: answer_success)
  from set_cookies_success_cleared [OF this] show ?thesis
    by (auto simp: page_of_call_def effect_done_def)
qed

lemma tab_cleared:
  assumes "operation_of env (ToolTabsOpen p) n c = Some (Inr r, c')" "\<not> cr_is_error r" "op_url p = Some url"
  shows "\<exists>i page s1 raw s2 s3. page_of_call (me_session env) (session_of env c) (ToolTabsOpen p) (enter n c) i page s1 \<and>
    judged_read (me_session env) (EffectAction (Navigate url)) page s1 = (raw, s2) \<and>
    cleared (me_session env) (session_of env c) (EffectAction (Navigate url)) page i raw s2 s3 \<and>
    effect_done (me_session env) (session_of env c) (ToolTabsOpen p) i page s3"
proof -
  obtain snap h where "open_page (me_session env) (session_of env c) (Some url) (enter n c) = Some (Inr snap, h)"
    using assms by (auto elim: answer_success)
  from open_page_success_cleared [OF this] assms(3) show ?thesis
    by (fastforce simp: page_of_call_def effect_done_def judged_read_def)
qed

text \<open>
  C37. A tool of the server never acts on its own. Whenever a call that navigates, acts on an
  element, opens a tab at a URL or writes cookies is answered with success, then in this call,
  past the gate of the connection: the policy judged exactly this effect, for the page the call
  runs on, at the target it carries or at the URL that page answered then; from that state the
  approval gate passed it, by an allowing review or a human's grant (as \<open>gate_at\<close> and
  \<open>cleared\<close> say, state by state); and in the state the gate left, and in no other, the
  engine carried the effect out.
\<close>
theorem tool_success_had_authority:
  assumes "call_tool env x c = Some (Inr r, c')" "\<not> cr_is_error r" "effect_of x = Some effect"
  shows "\<exists>n c1 i page s1 raw s2 s3. mcp_session env c = (Inr n, c1) \<and>
    page_of_call (me_session env) (session_of env c1) x (enter n c1) i page s1 \<and>
    judged_read (me_session env) effect page s1 = (raw, s2) \<and>
    cleared (me_session env) (session_of env c1) effect page i raw s2 s3 \<and>
    effect_done (me_session env) (session_of env c1) x i page s3"
proof -
  have "x \<noteq> ToolCloseSession" using assms(3) by auto
  then obtain n c1 where c1: "mcp_session env c = (Inr n, c1)" and
    ran: "operation_of env x n c1 = Some (Inr r, c')"
    using success_ran [OF assms(1)] by blast
  consider (action) act where "action_of x = Some act" "effect = EffectAction act"
    | (cookies) p where "x = ToolSetCookies p" "effect = EffectCookies (length (kc_cookies p))"
    | (tab) p url where "x = ToolTabsOpen p" "op_url p = Some url" "effect = EffectAction (Navigate url)"
    using assms(3) by (cases x) auto
  then show ?thesis
  proof cases
    case action
    then show ?thesis using action_cleared [OF ran assms(2)] c1 by blast
  next
    case cookies
    then show ?thesis using cookies_cleared [OF ran [unfolded cookies(1)] assms(2)] c1 by blast
  next
    case tab
    then show ?thesis using tab_cleared [OF ran [unfolded tab(1)] assms(2) tab(2)] c1 by blast
  qed
qed

section \<open>A closed connection\<close>

text \<open>
  C38. Closing is final. Once \<open>close_session\<close> was answered on a connection whose session had
  been opened, every later call is refused as invalid and none opens the session again or runs
  an operation, whatever other connections, recoveries, shutdowns and sibling calls do between
  the awaits; and when nothing else moves, nothing changes at all.
\<close>
theorem closed_connection_stays_closed:
  assumes "cn_cell c = Some n" "call_tool env ToolCloseSession c = Some (Inr r, c1)"
  shows "\<exists>rs c2. call_tools env xs c1 = Some (rs, c2) \<and> length rs = length xs \<and>
     (\<forall>r \<in> set rs. \<exists>m. r = Inl (InvalidParams m)) \<and>
     get_session (me_id env) (cn_manager c2) = None \<and>
     ((\<forall>c. me_moves env c = []) \<longrightarrow> c2 = c1)"
proof -
  have "shut env c1" using close_call_shuts [OF assms] by simp
  from shut_calls [OF this, of xs] show ?thesis by (auto simp: shut_def knows_def)
qed

section \<open>HTTP session ids\<close>

lemma length_show_nat: "n < 10 ^ k \<Longrightarrow> 0 < k \<Longrightarrow> length (show_nat n) \<le> k"
proof (induction k arbitrary: n)
  case (Suc k)
  show ?case
  proof (cases "n < 10")
    case False
    then have "0 < k" using Suc.prems(1) by (cases k) auto
    moreover have "n div 10 < 10 ^ k" using Suc.prems(1) by (simp add: div_less_iff_less_mult mult.commute)
    ultimately show ?thesis using Suc.IH [of "n div 10"] False by (simp add: show_nat.simps [of n])
  qed (simp add: show_nat.simps [of n])
qed simp

lemma http_session_id_inject: "http_session_id pid m = http_session_id pid n \<longleftrightarrow> m = n"
  by (auto simp: http_session_id_def intro: unsigned_word_eqI)

lemma http_connects_ids:
  "http_connects pid k counter = map (\<lambda>j. http_session_id pid (counter + of_nat j)) [0..<k]"
proof (induction k arbitrary: counter)
  case (Suc k)
  have "[0..<Suc k] = 0 # map Suc [0..<k]" by (simp add: upt_conv_Cons map_Suc_upt del: upt_Suc)
  then show ?case using Suc.IH [of "counter + 1"] by (simp add: http_connect_def comp_def add.assoc)
qed simp

lemma http_session_id_safe: "pid \<le> u32_max \<Longrightarrow> is_storage_safe (http_session_id pid serial)"
proof -
  assume "pid \<le> u32_max"
  then have "length (show_nat pid) \<le> 10" by (intro length_show_nat) (simp_all add: u32_max_def)
  moreover have "length (show_nat (unat serial)) \<le> 20"
    using unsigned_less [of serial, where 'a = nat] by (intro length_show_nat) simp_all
  moreover have "c \<noteq> CHR ''/'' \<and> c \<noteq> backslash \<and> c \<noteq> CHR 0x00" if "c \<in> set (show_nat n)" for c n
    using show_nat_only_digits [OF that] by (auto simp: is_digit_def)
  ultimately show ?thesis
    by (auto simp: is_storage_safe_def http_session_id_def Let_def max_id_bytes_def list_ex_iff)
qed

text \<open>
  Connections of one HTTP server never share a session: until the 64-bit counter has gone
  all the way round, the ids it hands out are distinct, and each can name the storage file of its
  session, no two the same one.
\<close>
theorem http_connections_get_their_own_session:
  assumes "pid \<le> u32_max" "k \<le> 2 ^ 64"
  shows "distinct (http_connects pid k counter) \<and>
    (\<forall>i \<in> set (http_connects pid k counter). is_storage_safe i) \<and>
    inj_on storage_file_name (set (http_connects pid k counter))"
proof (intro conjI ballI)
  have "inj_on (\<lambda>j. http_session_id pid (counter + of_nat j)) {0..<k}"
  proof (rule inj_onI)
    fix i j assume "i \<in> {0..<k}" "j \<in> {0..<k}"
      "http_session_id pid (counter + of_nat i) = http_session_id pid (counter + of_nat j)"
    then have "(of_nat i :: 64 word) = of_nat j" "i < 2 ^ 64" "j < 2 ^ 64"
      using assms(2) by (simp_all add: http_session_id_inject)
    then show "i = j" by (simp add: of_nat_inverse word_of_nat_eq_iff take_bit_nat_eq_self)
  qed
  then show "distinct (http_connects pid k counter)" by (simp add: http_connects_ids distinct_map)
  show safe: "is_storage_safe i" if "i \<in> set (http_connects pid k counter)" for i
    using that http_session_id_safe [OF assms(1)] by (auto simp: http_connects_ids)
  show "inj_on storage_file_name (set (http_connects pid k counter))"
    by (intro inj_onI) (metis safe storage_file_name_flat storage_file_name_inject)
qed

section \<open>Witnesses\<close>

text \<open>
  A server over the lone session, with a policy that allows everything and nothing else moving.
\<close>

definition lone_answers :: "(unit, decision option \<times> bool) open_answers" where
  "lone_answers =
     \<lparr>oa_request = granted, oa_context = (), oa_broker = broker_new, oa_files = Map.empty, oa_now = 0\<rparr>"

definition lone_server :: "(unit, unit, decision option \<times> bool, string) mcp_env" where
  "lone_server =
     \<lparr>me_id = SessionId ''a'', me_session = lone_env, me_policy = rule_set_new [] Allow,
      me_state_dir = None,
      me_answers = (\<lambda>c. lone_answers),
      me_moves = (\<lambda>c. []), me_base64 = (\<lambda>d. d), me_show_f64 = (\<lambda>x. ''0'')\<rparr>"

definition fresh_conn :: "(unit, unit, decision option \<times> bool) conn" where
  "fresh_conn = \<lparr>cn_manager = manager_new default_session_config, cn_cell = None, cn_hub = fresh_hub\<rparr>"

lemma lone_server_simps [simp]:
  "me_id lone_server = SessionId ''a''" "me_session lone_server = lone_env"
  "meanwhile lone_server c = c" "me_answers lone_server c = lone_answers" "oa_request lone_answers = granted"
  "me_policy lone_server = rule_set_new [] Allow"
  by (simp_all add: lone_server_def meanwhile_def lone_answers_def)

lemma fresh_conn_session:
  "\<exists>c1. mcp_session lone_server fresh_conn = (Inr 0, c1) \<and> cn_cell c1 = Some 0 \<and>
     get_session (SessionId ''a'') (cn_manager c1) = Some 0 \<and> hb_pages (cn_hub c1) = registry_new"
  by (simp add: mcp_session_def fresh_conn_def open_session_def manager_eval live_session_def Let_def
      get_session_def session_new_def)

text \<open>
  A close before the first call answers success and ends nothing: the next call opens the session.
\<close>

lemma close_before_first_call_is_not_final:
  "\<exists>c1 c2 t. call_tools lone_server [ToolCloseSession, ToolConsoleMessages] fresh_conn =
      Some ([Inr (text_result ''closed session a''), Inr (text_result t)], c2) \<and>
    get_session (SessionId ''a'') (cn_manager c2) = Some 0"
proof -
  have none: "get_session (SessionId ''a'') (cn_manager fresh_conn) = None" "cn_cell fresh_conn = None"
    by (simp_all add: fresh_conn_def get_session_def manager_new_def)
  then have "call_tool lone_server ToolCloseSession fresh_conn =
      Some (Inr (text_result ''closed session a''), fresh_conn)"
    by (simp add: tool_close_session_def manager_close_session_def Let_def)
  moreover obtain c1 where "mcp_session lone_server fresh_conn = (Inr 0, c1)"
    "get_session (SessionId ''a'') (cn_manager c1) = Some 0"
    using fresh_conn_session by blast
  ultimately show ?thesis by (auto simp: tool_console_messages_def with_session_def)
qed

theorem closed_connection_stays_closed_witness:
  "\<exists>c1 c2 r. call_tool lone_server ToolCloseSession c1 = Some (r, c2) \<and>
     (\<exists>rs c3. call_tools lone_server [ToolBack, ToolTabsList, ToolCloseSession] c2 = Some (rs, c3) \<and>
        length rs = 3 \<and> c3 = c2)"
proof -
  obtain c1 :: "(unit, unit, decision option \<times> bool) conn" where cell: "cn_cell c1 = Some 0" and known: "get_session (SessionId ''a'') (cn_manager c1) = Some 0"
    using fresh_conn_session by blast
  then have "call_tool lone_server ToolCloseSession c1 =
      Some (Inr (text_result ''closed session a''), manager_close_session lone_server c1)"
    by (simp add: tool_close_session_def with_session_def mcp_session_def live_session_def Let_def)
  moreover have "\<forall>c. me_moves lone_server c = []" by (simp add: lone_server_def)
  ultimately show ?thesis
    using closed_connection_stays_closed [OF cell, of lone_server _ _ "[ToolBack, ToolTabsList, ToolCloseSession]"]
    by (metis length_Cons list.size(3) numeral_3_eq_3)
qed

theorem http_connections_get_their_own_session_witness:
  "distinct (http_connects 7 1000 (- 3))"
  using http_connections_get_their_own_session [of 7 1000 "- 3"] by (simp add: u32_max_def)

definition one_cookie :: cookies_params where
  "one_cookie = \<lparr>kc_cookies = [\<lparr>ci_name = ''n'', ci_value = ''v'', ci_domain = ''a'', ci_path = None,
     ci_secure = None, ci_http_only = None, ci_same_site = None, ci_expires = None\<rparr>]\<rparr>"

lemma lone_cookies:
  assumes "se_policy se = rule_set_new [] Allow" "hb_pages s = registry_new"
  shows "\<exists>s'. session_set_cookies lone_env se cks s = Some (Inr (), s')"
proof -
  obtain s1 where "ensure_page lone_env se s = (Inr (PageId ''p'', ()), s1)"
    using assms(2) by (simp add: ensure_page_def active_page_def registry_new_def accepts_new_page_def
        lone_env_def lone_context_def admit_active_def tick_def)
  moreover have "review (en_urls lone_env) (se_policy se) (EffectCookies k) (Some ''https://a/'') = Allowed" for k
    using assms(1)
    by (simp add: review_Allowed_iff lone_env_def plain_url_api_def canonical_url_def
        rule_set_new_def evaluate_def judge_def judgment_url_def)
  then have "enforce lone_env se (EffectCookies k) () (PageId ''p'') (Some ''https://a/'') t = Some (Inr (), t)" for k t
    by (subst enforce.simps) simp
  moreover have "cx_set_cookies (en_context lone_env) ctx cs t = (Inr (), tick 1 t)" for ctx cs t
    by (simp add: lone_env_def lone_context_def)
  ultimately show ?thesis by (simp add: session_set_cookies_def lone_page_url engine_call_def)
qed

theorem tool_success_had_authority_witness:
  "\<exists>se i page s1 raw s2 s3. se_id se = SessionId ''a'' \<and> se_policy se = rule_set_new [] Allow \<and>
     page_url (en_page lone_env) page s1 = (raw, s2) \<and>
     cleared lone_env se (EffectCookies 1) page i raw s2 s3 \<and>
     effect_done lone_env se (ToolSetCookies one_cookie) i page s3"
proof -
  obtain c1 where c1: "mcp_session lone_server fresh_conn = (Inr 0, c1)" "hb_pages (cn_hub c1) = registry_new"
    using fresh_conn_session by blast
  obtain mapped :: "cookie list" where mapped: "cookies_of_inputs (kc_cookies one_cookie) = Inr mapped" "length mapped = 1"
    by (simp add: cookie_inputs one_cookie_def)
  obtain h where "session_set_cookies lone_env (session_of lone_server c1) mapped (enter 0 c1) = Some (Inr (), h)"
    using lone_cookies [of "session_of lone_server c1" "enter 0 c1" mapped] c1(2)
    by (auto simp: session_of_def enter_def)
  moreover have "kc_cookies one_cookie \<noteq> []" by (simp add: one_cookie_def)
  ultimately have "call_tool lone_server (ToolSetCookies one_cookie) fresh_conn =
      Some (Inr (text_result (''set '' @ show_nat 1 @ '' cookie(s)'')), leave 0 h c1)"
    using c1(1) mapped by (simp add: tool_set_cookies_def with_session_def answer_def)
  from tool_success_had_authority [OF this, of "EffectCookies 1"]
  obtain c2 i page s1 raw s2 s3 where "judged_read lone_env (EffectCookies 1) page s1 = (raw, s2)"
    "cleared lone_env (session_of lone_server c2) (EffectCookies 1) page i raw s2 s3"
    "effect_done lone_env (session_of lone_server c2) (ToolSetCookies one_cookie) i page s3"
    by (auto simp: text_result_def one_cookie_def)
  then show ?thesis
    by (intro exI [of _ "session_of lone_server c2"]) (simp add: judged_read_def, blast)
qed

end
