(* ===== verification/Cli_Settings.thy ===== *)
theory Cli_Settings
  imports Download_Store Cdp_Launch Policy_Config "HOL-Library.Word"
begin

unbundle bit_operations_syntax

text \<open>
  The command line before a mode runs, crate \<open>rutter-cli\<close>: the settings (\<open>config.rs\<close>), the
  errors with their hints (\<open>error.rs\<close>), the policy file (\<open>lib.rs\<close>) and the engine a mode
  resolves (\<open>launcher.rs\<close>). The argument parser is the \<open>clap\<close> crate; what it hands over
  appears as values.
\<close>

section \<open>Addresses\<close>

text \<open>
  \<open>std::net\<close>: an address with its port, the loopback test and the printed form: dotted
  decimals, or the segments in hexadecimal with the first longest run of zero segments elided.
  The scope of an IPv6 address is not modelled.
\<close>

datatype ip_addr = V4 "8 word" "8 word" "8 word" "8 word" | V6 "128 word"

record socket_addr =
  sa_ip :: ip_addr
  sa_port :: nat

fun is_loopback :: "ip_addr \<Rightarrow> bool" where
  "is_loopback (V4 a b c d) \<longleftrightarrow> a = 127"
| "is_loopback (V6 w) \<longleftrightarrow> w = 1"

definition segments :: "128 word \<Rightarrow> nat list" where
  "segments w = map (\<lambda>k. unat (drop_bit (16 * (7 - k)) w AND 65535)) [0..<8]"

fun show_hex :: "nat \<Rightarrow> string" where
  "show_hex n = (if n < 16 then [hex_digit n] else show_hex (n div 16) @ [hex_digit (n mod 16)])"

declare show_hex.simps [simp del]

fun zero_run :: "nat list \<Rightarrow> nat" where
  "zero_run (0 # xs) = Suc (zero_run xs)"
| "zero_run _ = 0"

text \<open>Start and length of the first longest run.\<close>

definition longest_run :: "nat list \<Rightarrow> nat \<times> nat" where
  "longest_run xs =
     foldl (\<lambda>(start, len) k. if zero_run (drop k xs) > len then (k, zero_run (drop k xs)) else (start, len))
       (0, 0) [0..<length xs]"

fun colons :: "nat list \<Rightarrow> string" where
  "colons [] = []"
| "colons [x] = show_hex x"
| "colons (x # xs) = show_hex x @ CHR '':'' # colons xs"

definition show_v4 :: "8 word \<Rightarrow> 8 word \<Rightarrow> 8 word \<Rightarrow> 8 word \<Rightarrow> string" where
  "show_v4 a b c d =
     show_nat (unat a) @ ''.'' @ show_nat (unat b) @ ''.'' @ show_nat (unat c) @ ''.'' @ show_nat (unat d)"

definition show_v6 :: "128 word \<Rightarrow> string" where
  "show_v6 w =
     (if drop_bit 32 w = 65535
      then ''::ffff:'' @ show_v4 (ucast (drop_bit 24 w)) (ucast (drop_bit 16 w)) (ucast (drop_bit 8 w)) (ucast w)
      else
        (let xs = segments w; (start, len) = longest_run xs
         in if 1 < len then colons (take start xs) @ ''::'' @ colons (drop (start + len) xs) else colons xs))"

fun show_ip :: "ip_addr \<Rightarrow> string" where
  "show_ip (V4 a b c d) = show_v4 a b c d"
| "show_ip (V6 w) = ''['' @ show_v6 w @ '']''"

definition show_addr :: "socket_addr \<Rightarrow> string" where
  "show_addr a = show_ip (sa_ip a) @ '':'' @ show_nat (sa_port a)"

section \<open>Errors\<close>

datatype cli_error =
    CliEngine engine_error
  | CliSignalHandling string string
  | CliStdioTransport string
  | CliHttpTransport string
  | CliRemoteHttpBind socket_addr
  | CliPolicyFile string string
  | CliDashboard string

fun show_cli_error :: "cli_error \<Rightarrow> string" where
  "show_cli_error (CliEngine e) = show_engine_error e"
| "show_cli_error (CliSignalHandling mode reason) =
     mode @ '' could not watch for the interrupt signal: '' @ reason"
| "show_cli_error (CliStdioTransport message) = ''mcp stdio transport failed: '' @ message"
| "show_cli_error (CliHttpTransport message) = ''mcp http transport failed: '' @ message"
| "show_cli_error (CliRemoteHttpBind addr) =
     ''refusing to serve MCP HTTP on '' @ show_addr addr @
     '': the transport drives a real browser with this user's sessions and has no authentication''"
| "show_cli_error (CliPolicyFile path reason) =
     ''policy file '' @ path @ '' could not be loaded: '' @ reason"
| "show_cli_error (CliDashboard message) = ''dashboard failed to start: '' @ message"

fun cli_error_hint :: "cli_error \<Rightarrow> string" where
  "cli_error_hint (CliEngine e) = engine_error_hint e"
| "cli_error_hint (CliSignalHandling mode reason) =
     quoted mode @ '' was interrupted while handling a signal; rerun the command''"
| "cli_error_hint (CliStdioTransport message) =
     ''check that stdin/stdout are connected and not owned by another process''"
| "cli_error_hint (CliHttpTransport message) =
     ''check that the --http address is correct and the port is not already held by another process, then retry''"
| "cli_error_hint (CliRemoteHttpBind addr) =
     ''pass --allow-remote if this server really must be reachable from other machines, and put an authenticated gateway in front of it''"
| "cli_error_hint (CliPolicyFile path reason) =
     ''fix the policy file (docs/policy.md has the format and the rejection rules), then rerun''"
| "cli_error_hint (CliDashboard message) =
     ''check that the --dashboard port is not already held by another process (or pass --dashboard 0 to let rutter pick a free one), then retry''"

section \<open>Settings\<close>

definition default_navigation_timeout :: duration where
  "default_navigation_timeout = from_secs 30"

record settings =
  st_engine_executable :: "fpath option"
  st_cache_root :: fpath
  st_extra_engine_args :: "string list"
  st_navigation_timeout :: duration

text \<open>
  The default cache root: the trimmed override of the environment, else a directory below the
  cache directory of the operating system, which may be unknown.
\<close>

definition cache_root_default :: "string option \<Rightarrow> fpath option \<Rightarrow> engine_error + fpath" where
  "cache_root_default override os_cache =
     (case resolve_cache_root override of
        Some dir \<Rightarrow> Inr (path_parts dir)
      | None \<Rightarrow>
          rbind (ok_or os_cache
              (EngDownloadFailed ''cannot determine the OS cache directory; set RUTTER_CACHE_DIR''))
            (\<lambda>base. Inr (path_join base ''rutter'')))"

definition settings_resolve ::
  "string option \<Rightarrow> fpath option \<Rightarrow> fpath option \<Rightarrow> fpath option \<Rightarrow> string list \<Rightarrow> engine_error + settings" where
  "settings_resolve override os_cache engine_executable cache_dir extra_engine_args =
     rbind (case cache_dir of Some dir \<Rightarrow> Inr dir | None \<Rightarrow> cache_root_default override os_cache)
       (\<lambda>cache_root.
          Inr \<lparr>st_engine_executable = engine_executable, st_cache_root = cache_root,
               st_extra_engine_args = extra_engine_args,
               st_navigation_timeout = default_navigation_timeout\<rparr>)"

section \<open>The policy file\<close>

definition policy_file ::
  "(string \<Rightarrow> string + policy_config) \<Rightarrow> string \<Rightarrow> string + string \<Rightarrow> cli_error + rule_set" where
  "policy_file from_toml path content =
     rbind (map_err (CliPolicyFile path) content)
       (\<lambda>txt. map_err (\<lambda>e. CliPolicyFile path (''invalid policy configuration: '' @ config_detail e)) (parse_policy from_toml txt))"

section \<open>The engine of a mode\<close>

definition resolve_executable ::
  "ensure_env \<Rightarrow> settings \<Rightarrow> product \<Rightarrow> (engine_error + fpath) \<times> Download_Store.files" where
  "resolve_executable env st product =
     (case ensure env product (st_cache_root st) (st_engine_executable st) of
        (Inl e, fs) \<Rightarrow> (Inl e, fs)
      | (Inr engine, fs) \<Rightarrow> (Inr (ie_executable engine), fs))"

definition headless_launcher ::
  "ensure_env \<Rightarrow> settings \<Rightarrow> (engine_error + cdp_launcher) \<times> Download_Store.files" where
  "headless_launcher env st =
     (case resolve_executable env st ChromeHeadlessShell of
        (Inl e, fs) \<Rightarrow> (Inl e, fs)
      | (Inr executable, fs) \<Rightarrow>
          (Inr (with_extra_args (st_extra_engine_args st)
                  (launcher_new (show_path executable) ChromiumHeadlessShell)), fs))"

text \<open>The first standard install location that is a file; the Windows locations are not modelled.\<close>

definition system_browser_candidates :: "string \<Rightarrow> fpath list" where
  "system_browser_candidates os =
     (if os = ''macos'' then
        map path_parts
          [''/Applications/Google Chrome.app/Contents/MacOS/Google Chrome'',
           ''/Applications/Microsoft Edge.app/Contents/MacOS/Microsoft Edge'',
           ''/Applications/Chromium.app/Contents/MacOS/Chromium'']
      else
        map path_parts
          [''/usr/bin/google-chrome'', ''/usr/bin/google-chrome-stable'', ''/usr/bin/chromium'',
           ''/usr/bin/chromium-browser'', ''/snap/bin/chromium''])"

definition discover_system_browser :: "string \<Rightarrow> Download_Store.files \<Rightarrow> fpath option" where
  "discover_system_browser os fs = find (is_file fs) (system_browser_candidates os)"

definition headed_launcher ::
  "ensure_env \<Rightarrow> settings \<Rightarrow> (engine_error + cdp_launcher) \<times> Download_Store.files" where
  "headed_launcher env st =
     (let explicit = st_engine_executable st \<noteq> None;
          built = (\<lambda>executable. with_extra_args (st_extra_engine_args st)
            (with_app_window (\<not> explicit) (launcher_new (show_path executable) Chromium)))
      in case st_engine_executable st of
           Some path \<Rightarrow> (Inr (built path), en_files env)
         | None \<Rightarrow>
             (case discover_system_browser (en_os env) (en_files env) of
                Some path \<Rightarrow> (Inr (built path), en_files env)
              | None \<Rightarrow>
                  (case ensure env Chrome (st_cache_root st) None of
                     (Inl e, fs) \<Rightarrow> (Inl e, fs)
                   | (Inr engine, fs) \<Rightarrow> (Inr (built (ie_executable engine)), fs))))"

record lazy_launcher =
  ll_settings :: settings
  ll_headed :: bool

definition lazy_describe :: "lazy_launcher \<Rightarrow> string" where
  "lazy_describe l =
     (if ll_headed l then ''lazy cdp engine (headed: system browser or chrome)''
      else ''lazy cdp engine (chrome-headless-shell)'')"

text \<open>The first launch resolves the binary, then launches.\<close>

definition lazy_launch ::
  "ensure_env \<Rightarrow> launch_env \<Rightarrow> lazy_launcher \<Rightarrow> launch_mode \<Rightarrow> launch_side \<Rightarrow>
   (engine_error + string \<times> nat) \<times> Download_Store.files \<times> launch_side" where
  "lazy_launch env lenv l mode side =
     (case (if ll_headed l then headed_launcher env (ll_settings l)
            else headless_launcher env (ll_settings l)) of
        (Inl e, fs) \<Rightarrow> (Inl e, fs, side)
      | (Inr launcher, fs) \<Rightarrow>
          (case launch lenv mode launcher side of (r, side1) \<Rightarrow> (r, fs, side1)))"

text \<open>
  The argument parser reads the environment variable of the override as the value of
  \<open>--cache-dir\<close>, so a value of blanks never reaches the rule that calls it unset.
\<close>

lemma blank_cache_dir_is_used:
  "cache_root_default (Some ''  '') (Some [''home'']) = Inr [''home'', ''rutter''] \<and>
   settings_resolve (Some ''  '') (Some [''home'']) None (Some (path_parts ''  '')) [] =
     Inr \<lparr>st_engine_executable = None, st_cache_root = [''  ''], st_extra_engine_args = [],
          st_navigation_timeout = default_navigation_timeout\<rparr>"
proof -
  have "trim ''  '' = []"
    by (simp add: trim_def trim_start_def trim_end_def white_space_def numeral_2_eq_2)
  then show ?thesis
    by (simp add: cache_root_default_def settings_resolve_def resolve_cache_root_def non_blank_def
        path_join_def path_parts_def)
qed

end
