(* ===== verification/Cli_Modes.thy ===== *)
theory Cli_Modes
  imports Cli_Settings Mcp_Tools Dashboard_Server
begin

text \<open>
  The modes of the binary, crate \<open>rutter-cli\<close>: the one-shot drive and its two users
  (\<open>one_shot.rs\<close>, \<open>open.rs\<close>, \<open>read.rs\<close>), browse mode (\<open>browse.rs\<close>), serve mode over
  either transport (\<open>serve.rs\<close>, with \<open>mcp/src/http.rs\<close>), the dispatch (\<open>entry.rs\<close>) and
  the exit code (\<open>main.rs\<close>). The engine behind the traits is an interface; what connections
  and other tasks do to the session manager while a transport serves is a run of its steps.
\<close>

section \<open>The engine traits\<close>

record ('e, 'c, 's) engine_api =
  eg_descriptor :: "'e \<Rightarrow> engine_descriptor"
  eg_create_context :: "'e \<Rightarrow> context_config \<Rightarrow> 's \<Rightarrow> (engine_error + 'c) \<times> 's"
  eg_health :: "'e \<Rightarrow> 's \<Rightarrow> (engine_error + health_report) \<times> 's"
  eg_shutdown :: "'e \<Rightarrow> 's \<Rightarrow> (engine_error + unit) \<times> 's"

record ('e, 's) launcher_api =
  la_describe :: string
  la_launch :: "launch_mode \<Rightarrow> 's \<Rightarrow> (engine_error + 'e) \<times> 's"

section \<open>The one-shot drive\<close>

definition one_shot_config :: "settings \<Rightarrow> context_config" where
  "one_shot_config st = default_context_config\<lparr>cc_navigation_timeout := st_navigation_timeout st\<rparr>"

text \<open>The \<open>?\<close> operator of the block, which folds an engine failure into a command-line one.\<close>

definition cli_try :: "(engine_error + 'a) \<times> 's \<Rightarrow> ('a \<Rightarrow> 's \<Rightarrow> (cli_error + 'b) \<times> 's) \<Rightarrow> (cli_error + 'b) \<times> 's" where
  "cli_try m k = (case m of (Inl e, s) \<Rightarrow> (Inl (CliEngine e), s) | (Inr x, s) \<Rightarrow> k x s)"

definition drive ::
  "('e, 'c, 's) engine_api \<Rightarrow> ('c, 'h, 's) context_api \<Rightarrow> ('h, 's) page_api \<Rightarrow> settings \<Rightarrow>
   ('e, 's) launcher_api \<Rightarrow> string \<Rightarrow> ('h \<Rightarrow> string \<Rightarrow> 's \<Rightarrow> (cli_error + 't) \<times> 's) \<Rightarrow> 's \<Rightarrow>
   (cli_error + 't) \<times> 's" where
  "drive eng ctx pg st launcher url use_page s =
     cli_try (la_launch launcher Headless s) (\<lambda>engine s1.
       (case cli_try (eg_create_context eng engine (one_shot_config st) s1) (\<lambda>c s2.
              cli_try (cx_open_page ctx c s2) (\<lambda>opened s3.
              cli_try (pa_navigate pg (snd opened) url s3) (\<lambda>effective s4.
                use_page (snd opened) effective s4))) of
          (observed, s5) \<Rightarrow> (observed, snd (eg_shutdown eng engine s5))))"

section \<open>What serve hands the manager beside its configuration\<close>

record serve_setup =
  su_launcher :: lazy_launcher
  su_mode :: launch_mode
  su_policy :: rule_set
  su_state_dir :: fpath

definition serve_setup_of :: "settings \<Rightarrow> bool \<Rightarrow> rule_set option \<Rightarrow> serve_setup" where
  "serve_setup_of st headed policy =
     \<lparr>su_launcher = \<lparr>ll_settings = st, ll_headed = headed\<rparr>,
      su_mode = (if headed then Headed else Headless),
      su_policy = unwrap_or policy default_set,
      su_state_dir = path_join (st_cache_root st) ''sessions''\<rparr>"

section \<open>The world of an invocation\<close>

text \<open>
  What an invocation touches: the files of the engine cache, the engine behind the traits, the
  hand-off files of the dashboard, the manager of a serving process, and what was printed.
\<close>

record 's cli_world =
  cw_files :: Download_Store.files
  cw_engine :: 's
  cw_access :: private_files
  cw_setup :: "serve_setup option"
  cw_manager :: "manager option"
  cw_out :: "string list"
  cw_err :: "string list"

datatype service_end = ServiceEnds "string + unit" | InterruptArrives "string + unit"

text \<open>
  How a transport fares: a failure to start, else what happens to the manager while it serves
  and how it ends.
\<close>

record transport =
  tr_start :: "string option"
  tr_moves :: "manager_op list"
  tr_end :: service_end

record ('e, 'c, 'h, 'v, 's) cli_env =
  cl_ensure :: ensure_env
  cl_engine :: "('e, 'c, 's) engine_api"
  cl_context :: "('c, 'h, 's) context_api"
  cl_page :: "('h, 's) page_api"
  cl_launcher :: "cdp_launcher \<Rightarrow> ('e, 's) launcher_api"
  cl_texts :: texts
  cl_supervise :: "cdp_launcher \<Rightarrow> launch_mode \<Rightarrow> 's \<Rightarrow> (engine_error + 'v) \<times> 's"
  cl_stop :: "'v \<Rightarrow> 's \<Rightarrow> 's"
  cl_interrupt :: "string + unit"
  cl_token :: "string option"
  cl_digest :: "64 word"
  cl_listener :: "string + nat"
  cl_faults :: file_faults
  cl_terminal :: bool
  cl_stdio :: transport
  cl_http :: transport

definition print_out :: "string \<Rightarrow> 's cli_world \<Rightarrow> 's cli_world" where
  "print_out t w = w\<lparr>cw_out := cw_out w @ [t]\<rparr>"

definition print_err :: "string \<Rightarrow> 's cli_world \<Rightarrow> 's cli_world" where
  "print_err t w = w\<lparr>cw_err := cw_err w @ [t]\<rparr>"

definition resolving :: "('e, 'c, 'h, 'v, 's) cli_env \<Rightarrow> 's cli_world \<Rightarrow> ensure_env" where
  "resolving env w = (cl_ensure env)\<lparr>en_files := cw_files w\<rparr>"

section \<open>Open and read\<close>

definition render_marked :: "string \<Rightarrow> bool \<Rightarrow> string" where
  "render_marked value truncated = value @ (if truncated then truncation_marker else [])"

definition one_shot_run ::
  "('e, 'c, 'h, 'v, 's) cli_env \<Rightarrow> settings \<Rightarrow> string \<Rightarrow> string \<Rightarrow> (string \<Rightarrow> json \<Rightarrow> string) \<Rightarrow>
   's cli_world \<Rightarrow> (cli_error + unit) \<times> 's cli_world" where
  "one_shot_run env st url script render w =
     (case headless_launcher (resolving env w) st of
        (Inl e, fs) \<Rightarrow> (Inl (CliEngine e), w\<lparr>cw_files := fs\<rparr>)
      | (Inr launcher, fs) \<Rightarrow>
          (case drive (cl_engine env) (cl_context env) (cl_page env) st (cl_launcher env launcher) url
                  (\<lambda>page effective s.
                     cli_try (pa_evaluate (cl_page env) page script s) (\<lambda>raw s1. (Inr (render effective raw), s1)))
                  (cw_engine w) of
             (Inl e, s) \<Rightarrow> (Inl e, w\<lparr>cw_files := fs, cw_engine := s\<rparr>)
           | (Inr t, s) \<Rightarrow> (Inr (), print_out t (w\<lparr>cw_files := fs, cw_engine := s\<rparr>))))"

definition open_run where
  "open_run env st url =
     one_shot_run env st url (tx_serializer (cl_texts env)) (\<lambda>effective raw.
       let snap = snapshot_from_response (tx_parse (cl_texts env)) effective raw
       in render_marked (show_snapshot snap) (snap_truncated snap))"

definition read_run where
  "read_run env st url =
     one_shot_run env st url (tx_reader (cl_texts env)) (\<lambda>effective raw.
       let readout = read_from_response (tx_parse (cl_texts env)) raw
       in render_marked (show_readout readout) (ro_truncated readout))"

section \<open>Browse\<close>

definition browse_banner :: string where
  "browse_banner =
     ''rutter: browse mode is running; the engine window is yours.'' @ [newline] @ ''Press Ctrl-C to exit.''"

definition browse_run ::
  "('e, 'c, 'h, 'v, 's) cli_env \<Rightarrow> settings \<Rightarrow> 's cli_world \<Rightarrow> (cli_error + unit) \<times> 's cli_world" where
  "browse_run env st w =
     (case headed_launcher (resolving env w) st of
        (Inl e, fs) \<Rightarrow> (Inl (CliEngine e), w\<lparr>cw_files := fs\<rparr>)
      | (Inr launcher, fs) \<Rightarrow>
          (case cl_supervise env launcher Headed (cw_engine w) of
             (Inl e, s) \<Rightarrow> (Inl (CliEngine e), w\<lparr>cw_files := fs, cw_engine := s\<rparr>)
           | (Inr supervisor, s) \<Rightarrow>
               (let w1 = print_out browse_banner (w\<lparr>cw_files := fs, cw_engine := s\<rparr>)
                in case cl_interrupt env of
                     Inl e \<Rightarrow> (Inl (CliSignalHandling ''browse'' (''signal handling failed: '' @ e)), w1)
                   | Inr u \<Rightarrow>
                       (let w2 = print_out ''rutter: shutting down'' w1
                        in (Inr (), w2\<lparr>cw_engine := cl_stop env supervisor (cw_engine w2)\<rparr>)))))"

section \<open>Serve\<close>

definition ensure_bind_is_consented :: "socket_addr \<Rightarrow> bool \<Rightarrow> cli_error + unit" where
  "ensure_bind_is_consented addr allow_remote =
     (if allow_remote \<or> is_loopback (sa_ip addr) then Inr () else Inl (CliRemoteHttpBind addr))"

definition serve_with_interrupt :: "(string \<Rightarrow> cli_error) \<Rightarrow> service_end \<Rightarrow> cli_error + unit" where
  "serve_with_interrupt map_service_error ended =
     (case ended of
        ServiceEnds r \<Rightarrow> map_err map_service_error r
      | InterruptArrives r \<Rightarrow>
          map_err (\<lambda>e. CliSignalHandling ''serve'' (''signal handling failed: '' @ e)) r)"

definition on_served :: "transport \<Rightarrow> 's cli_world \<Rightarrow> 's cli_world" where
  "on_served tr w = w\<lparr>cw_manager := map_option (run_ops manager_step (tr_moves tr)) (cw_manager w)\<rparr>"

definition serve_stdio :: "transport \<Rightarrow> 's cli_world \<Rightarrow> (cli_error + unit) \<times> 's cli_world" where
  "serve_stdio tr w =
     (case tr_start tr of
        Some e \<Rightarrow> (Inl (CliStdioTransport e), w)
      | None \<Rightarrow> (serve_with_interrupt CliStdioTransport (tr_end tr), on_served tr w))"

definition em_dash :: string where
  "em_dash = [CHR 0xE2, CHR 0x80, CHR 0x94]"

text \<open>The HTTP service of the MCP crate: the warning, the bind, the unconditional line, the serving.\<close>

definition mcp_serve_http :: "transport \<Rightarrow> socket_addr \<Rightarrow> 's cli_world \<Rightarrow> service_end \<times> 's cli_world" where
  "mcp_serve_http tr addr w =
     (let w1 = (if is_loopback (sa_ip addr) then w
                else print_err (''rutter: warning: MCP HTTP transport binds '' @ show_addr addr @
                  '', a non-loopback address; anyone who can reach it and presents a loopback Host can drive the browser'') w)
      in case tr_start tr of
           Some e \<Rightarrow> (ServiceEnds (Inl (''cannot bind '' @ show_addr addr @ '': '' @ e)), w1)
         | None \<Rightarrow>
             (let w2 = print_err (''rutter: MCP over streamable HTTP on http://'' @ show_addr addr @
                    ''/mcp '' @ em_dash @
                    '' no authentication; anyone who can reach this address can drive the browser'') w1
              in (case tr_end tr of
                    ServiceEnds r \<Rightarrow> ServiceEnds (map_err (\<lambda>e. ''http server failed: '' @ e) r)
                  | InterruptArrives r \<Rightarrow> InterruptArrives r,
                  on_served tr w2)))"

definition serve_http :: "transport \<Rightarrow> socket_addr \<Rightarrow> 's cli_world \<Rightarrow> (cli_error + unit) \<times> 's cli_world" where
  "serve_http tr addr w =
     (case mcp_serve_http tr addr w of
        (ended, w1) \<Rightarrow> (serve_with_interrupt CliHttpTransport ended, w1))"

definition serve_dashboard ::
  "('e, 'c, 'h, 'v, 's) cli_env \<Rightarrow> settings \<Rightarrow> nat option \<Rightarrow> 's cli_world \<Rightarrow> (cli_error + unit) \<times> 's cli_world" where
  "serve_dashboard env st port w =
     (case port of
        None \<Rightarrow> (Inr (), w)
      | Some p \<Rightarrow>
          (case dashboard_bind (cl_listener env) (cl_faults env) (cl_terminal env)
                  (dashboard_new (cl_token env) (cl_digest env) p (Some (show_path (st_cache_root st))))
                  (cw_access w) of
             (Inl message, fs) \<Rightarrow> (Inl (CliDashboard message), w\<lparr>cw_access := fs\<rparr>)
           | (Inr (state, line), fs) \<Rightarrow> (Inr (), print_err line (w\<lparr>cw_access := fs\<rparr>))))"

definition serve_run ::
  "('e, 'c, 'h, 'v, 's) cli_env \<Rightarrow> settings \<Rightarrow> bool \<Rightarrow> rule_set option \<Rightarrow> nat option \<Rightarrow>
   socket_addr option \<Rightarrow> bool \<Rightarrow> 's cli_world \<Rightarrow> (cli_error + unit) \<times> 's cli_world" where
  "serve_run env st headed policy dashboard_port http_addr allow_remote w =
     (case (case http_addr of None \<Rightarrow> Inr () | Some addr \<Rightarrow> ensure_bind_is_consented addr allow_remote) of
        Inl e \<Rightarrow> (Inl e, w)
      | Inr u \<Rightarrow>
          (case serve_dashboard env st dashboard_port
                  (w\<lparr>cw_setup := Some (serve_setup_of st headed policy),
                     cw_manager := Some (manager_new default_session_config)\<rparr>) of
             (Inl e, w1) \<Rightarrow> (Inl e, w1)
           | (Inr u, w1) \<Rightarrow>
               (case (case http_addr of
                        Some addr \<Rightarrow> serve_http (cl_http env) addr w1
                      | None \<Rightarrow> serve_stdio (cl_stdio env) w1) of
                  (r, w2) \<Rightarrow> (r, w2\<lparr>cw_manager := map_option manager_shutdown (cw_manager w2)\<rparr>))))"

section \<open>Dispatch and exit code\<close>

datatype entry_mode = Browse | Serve bool | Open string | Read string

fun show_entry_mode :: "entry_mode \<Rightarrow> string" where
  "show_entry_mode Browse = ''browse''"
| "show_entry_mode (Serve headed) = ''serve''"
| "show_entry_mode (Open url) = ''open''"
| "show_entry_mode (Read url) = ''read''"

fun entry_run ::
  "('e, 'c, 'h, 'v, 's) cli_env \<Rightarrow> entry_mode \<Rightarrow> settings \<Rightarrow> rule_set option \<Rightarrow> nat option \<Rightarrow>
   socket_addr option \<Rightarrow> bool \<Rightarrow> 's cli_world \<Rightarrow> (cli_error + unit) \<times> 's cli_world" where
  "entry_run env Browse st policy dashboard_port http_addr allow_remote w = browse_run env st w"
| "entry_run env (Open url) st policy dashboard_port http_addr allow_remote w = open_run env st url w"
| "entry_run env (Read url) st policy dashboard_port http_addr allow_remote w = read_run env st url w"
| "entry_run env (Serve headed) st policy dashboard_port http_addr allow_remote w =
     serve_run env st headed policy dashboard_port http_addr allow_remote w"

datatype command = CmdServe bool | CmdOpen string | CmdRead string

text \<open>
  The parsed arguments, as \<open>clap\<close> hands them over: \<open>--cache-dir\<close> falls back on
  \<open>RUTTER_CACHE_DIR\<close>.
\<close>

record cli_args =
  ca_command :: "command option"
  ca_engine_executable :: "fpath option"
  ca_cache_dir :: "fpath option"
  ca_engine_args :: "string list"
  ca_policy :: "string option"
  ca_dashboard :: "nat option"
  ca_http :: "socket_addr option"
  ca_allow_remote :: bool

fun mode_of_command :: "command option \<Rightarrow> entry_mode" where
  "mode_of_command None = Browse"
| "mode_of_command (Some (CmdServe headed)) = Serve headed"
| "mode_of_command (Some (CmdOpen url)) = Open url"
| "mode_of_command (Some (CmdRead url)) = Read url"

record startup =
  up_override :: "string option"
  up_os_cache :: "fpath option"
  up_runtime :: "string option"
  up_policy_content :: "string \<Rightarrow> string + string"
  up_from_toml :: "string \<Rightarrow> string + policy_config"

datatype exit_code = ExitSuccess | ExitFailure

definition report :: "cli_error \<Rightarrow> 's cli_world \<Rightarrow> exit_code \<times> 's cli_world" where
  "report e w =
     (ExitFailure,
      print_err (''rutter: hint '' @ em_dash @ '' '' @ cli_error_hint e)
        (print_err (''rutter: '' @ show_cli_error e) w))"

definition main_run ::
  "('e, 'c, 'h, 'v, 's) cli_env \<Rightarrow> startup \<Rightarrow> cli_args \<Rightarrow> 's cli_world \<Rightarrow> exit_code \<times> 's cli_world" where
  "main_run env up args w =
     (case settings_resolve (up_override up) (up_os_cache up) (ca_engine_executable args)
             (ca_cache_dir args) (ca_engine_args args) of
        Inl e \<Rightarrow>
          (ExitFailure,
           print_err (''rutter: hint '' @ em_dash @ '' set RUTTER_CACHE_DIR to a writable path'')
             (print_err (''rutter: '' @ show_engine_error e) w))
      | Inr st \<Rightarrow>
          (case up_runtime up of
             Some e \<Rightarrow> (ExitFailure, print_err (''rutter: cannot start the async runtime: '' @ e) w)
           | None \<Rightarrow>
               (case (case ca_policy args of
                        None \<Rightarrow> Inr None
                      | Some path \<Rightarrow>
                          rbind (policy_file (up_from_toml up) path (up_policy_content up path))
                            (\<lambda>rules. Inr (Some rules))) of
                  Inl e \<Rightarrow> report e w
                | Inr policy \<Rightarrow>
                    (case entry_run env (mode_of_command (ca_command args)) st policy (ca_dashboard args)
                            (ca_http args) (ca_allow_remote args) w of
                       (Inr u, w1) \<Rightarrow> (ExitSuccess, w1)
                     | (Inl e, w1) \<Rightarrow> report e w1))))"

section \<open>The drive\<close>

text \<open>The same engine, context, page and launcher with every call noted.\<close>

datatype 'e engine_call = CallLaunch | CallEngine | CallContext | CallPage | CallShutdown 'e

definition noted :: "'e engine_call \<Rightarrow> ('s \<Rightarrow> 'r \<times> 's) \<Rightarrow>
   's \<times> 'e engine_call list \<Rightarrow> 'r \<times> 's \<times> 'e engine_call list" where
  "noted call f st = (case st of (s, calls) \<Rightarrow> case f s of (r, s1) \<Rightarrow> (r, s1, calls @ [call]))"

definition noted_engine ::
  "('e, 'c, 's) engine_api \<Rightarrow> ('e, 'c, 's \<times> 'e engine_call list) engine_api" where
  "noted_engine eng =
     \<lparr>eg_descriptor = eg_descriptor eng,
      eg_create_context = (\<lambda>e c. noted CallEngine (eg_create_context eng e c)),
      eg_health = (\<lambda>e. noted CallEngine (eg_health eng e)),
      eg_shutdown = (\<lambda>e. noted (CallShutdown e) (eg_shutdown eng e))\<rparr>"

definition noted_context ::
  "('c, 'h, 's) context_api \<Rightarrow> ('c, 'h, 's \<times> 'e engine_call list) context_api" where
  "noted_context ctx =
     \<lparr>cx_open_page = (\<lambda>c. noted CallContext (cx_open_page ctx c)),
      cx_close_page = (\<lambda>c i. noted CallContext (cx_close_page ctx c i)),
      cx_foreign_pages = (\<lambda>c. noted CallContext (cx_foreign_pages ctx c)),
      cx_adopt_page = (\<lambda>c i. noted CallContext (cx_adopt_page ctx c i)),
      cx_set_cookies = (\<lambda>c cks. noted CallContext (cx_set_cookies ctx c cks)),
      cx_cookies = (\<lambda>c. noted CallContext (cx_cookies ctx c)),
      cx_close = (\<lambda>c. noted CallContext (cx_close ctx c))\<rparr>"

definition noted_page ::
  "('h, 's) page_api \<Rightarrow> ('h, 's \<times> 'e engine_call list) page_api" where
  "noted_page pg =
     \<lparr>pa_evaluate = (\<lambda>h e. noted CallPage (pa_evaluate pg h e)),
      pa_navigate = (\<lambda>h url. noted CallPage (pa_navigate pg h url)),
      pa_reload = (\<lambda>h. noted CallPage (pa_reload pg h)),
      pa_go_back = (\<lambda>h. noted CallPage (pa_go_back pg h)),
      pa_go_forward = (\<lambda>h. noted CallPage (pa_go_forward pg h)),
      pa_dispatch = (\<lambda>h e. noted CallPage (pa_dispatch pg h e)),
      pa_set_files = (\<lambda>h r fs. noted CallPage (pa_set_files pg h r fs)),
      pa_screenshot = (\<lambda>h. noted CallPage (pa_screenshot pg h)),
      pa_start_screencast = (\<lambda>h. noted CallPage (pa_start_screencast pg h)),
      pa_set_viewport = (\<lambda>h x y. noted CallPage (pa_set_viewport pg h x y)),
      pa_path_exists = (\<lambda>p st. pa_path_exists pg p (fst st)),
      pa_sleep = (\<lambda>d st. (pa_sleep pg d (fst st), snd st))\<rparr>"

definition noted_launcher ::
  "('e, 's) launcher_api \<Rightarrow> ('e, 's \<times> 'e engine_call list) launcher_api" where
  "noted_launcher l =
     \<lparr>la_describe = la_describe l, la_launch = (\<lambda>mode. noted CallLaunch (la_launch l mode))\<rparr>"

lemmas noted_defs = noted_def noted_engine_def noted_context_def noted_page_def noted_launcher_def

text \<open>
  C39. A one-shot mode never leaves its browser behind. Noting the calls changes nothing the drive
  does; when the launch fails, the launch was the only call; and when it answers an engine, then
  whatever fails after it, the last call of the drive shuts exactly that engine down, and no
  other call launches or shuts down anything.
\<close>
theorem drive_ends_with_the_shutdown:
  "case drive (noted_engine eng) (noted_context ctx) (noted_page pg) st (noted_launcher l) url
      (\<lambda>h effective. noted CallPage (use_page h effective)) (s, []) of
     (r, s', calls) \<Rightarrow>
       drive eng ctx pg st l url use_page s = (r, s') \<and>
       (case fst (la_launch l Headless s) of
          Inl e \<Rightarrow> r = Inl (CliEngine e) \<and> calls = [CallLaunch]
        | Inr e \<Rightarrow> \<exists>mid. calls = CallLaunch # mid @ [CallShutdown e] \<and>
            set mid \<subseteq> {CallEngine, CallContext, CallPage})"
  by (simp add: drive_def cli_try_def noted_defs split: prod.split sum.split)

text \<open>A one-shot mode prints nothing on stdout but what it was asked for, and that only on success.\<close>

lemma one_shot_output:
  "case one_shot_run env st url script render w of
     (r, w') \<Rightarrow> cw_err w' = cw_err w \<and> cw_access w' = cw_access w \<and> cw_manager w' = cw_manager w \<and>
       (case r of Inl e \<Rightarrow> cw_out w' = cw_out w | Inr u \<Rightarrow> \<exists>t. cw_out w' = cw_out w @ [t])"
  by (simp add: one_shot_run_def print_out_def split: prod.split sum.split)

section \<open>Serving\<close>

lemma serve_dashboard_frame:
  assumes "serve_dashboard env st port w = (r, w1)"
  shows "cw_manager w1 = cw_manager w" "cw_files w1 = cw_files w" "cw_engine w1 = cw_engine w"
    "cw_out w1 = cw_out w" "r = Inr () \<or> (\<exists>message. r = Inl (CliDashboard message))"
  using assms by (auto simp: serve_dashboard_def print_err_def split: option.splits prod.splits sum.splits)

lemma serve_transport_frame:
  assumes "(case http_addr of Some addr \<Rightarrow> serve_http tr addr w | None \<Rightarrow> serve_stdio tr' w) = (r, w1)"
  shows "cw_out w1 = cw_out w \<and> (cw_manager w \<noteq> None \<longrightarrow> cw_manager w1 \<noteq> None) \<and>
    (\<forall>addr. r \<noteq> Inl (CliRemoteHttpBind addr))"
  using assms
  by (auto simp: serve_http_def mcp_serve_http_def serve_stdio_def serve_with_interrupt_def on_served_def
      print_err_def Let_def map_err_def split: option.splits prod.splits sum.splits if_splits service_end.splits)

definition loopback_or_consented :: "socket_addr option \<Rightarrow> bool \<Rightarrow> bool" where
  "loopback_or_consented http_addr allow_remote \<longleftrightarrow>
     allow_remote \<or> (case http_addr of None \<Rightarrow> True | Some addr \<Rightarrow> is_loopback (sa_ip addr))"

definition no_engine_left :: "manager \<Rightarrow> bool" where
  "no_engine_left m \<longleftrightarrow> \<not> mg_running m \<and> mg_sessions m = [] \<and> mg_live m = []"


section \<open>Exit codes\<close>

lemma cli_hints_given: "cli_error_hint e \<noteq> []"
  by (cases e) (auto simp: hints_given quoted_def)

text \<open>What a startup failure or a failed mode prints last.\<close>

definition told :: "string \<Rightarrow> string \<Rightarrow> string list \<Rightarrow> bool" where
  "told message hint lines \<longleftrightarrow>
     (\<exists>before. lines = before @ [''rutter: '' @ message, ''rutter: hint '' @ em_dash @ '' '' @ hint]) \<and>
     hint \<noteq> []"

lemma report_told:
  "fst (report e w) = ExitFailure"
  "told (show_cli_error e) (cli_error_hint e) (cw_err (snd (report e w)))"
  "(snd (report e w))\<lparr>cw_err := cw_err w\<rparr> = w"
  by (simp_all add: report_def print_err_def told_def cli_hints_given)

text \<open>
  The exit code tells the truth: an invocation exits with success exactly when its mode
  ran and returned without an error. Every failure but a missing runtime ends with the error and
  a hint that is not empty, and a failure before the mode has touched nothing but stderr.
\<close>
theorem failed_invocations_say_why:
  "case main_run env up args w of
     (ExitSuccess, w') \<Rightarrow>
       (\<exists>st policy. entry_run env (mode_of_command (ca_command args)) st policy (ca_dashboard args)
          (ca_http args) (ca_allow_remote args) w = (Inr (), w'))
   | (ExitFailure, w') \<Rightarrow>
       (\<exists>e st policy w1. entry_run env (mode_of_command (ca_command args)) st policy (ca_dashboard args)
            (ca_http args) (ca_allow_remote args) w = (Inl e, w1) \<and>
          told (show_cli_error e) (cli_error_hint e) (cw_err w') \<and> w'\<lparr>cw_err := cw_err w1\<rparr> = w1) \<or>
       w'\<lparr>cw_err := cw_err w\<rparr> = w \<and>
         (case up_runtime up of
            None \<Rightarrow> \<exists>message hint. told message hint (cw_err w')
          | Some e \<Rightarrow> True)"
proof -
  show ?thesis
  proof (cases "settings_resolve (up_override up) (up_os_cache up) (ca_engine_executable args)
      (ca_cache_dir args) (ca_engine_args args)")
    case (Inl e)
    then show ?thesis by (auto simp: main_run_def print_err_def told_def split: option.split)
  next
    case (Inr st)
    note resolved = Inr
    show ?thesis
    proof (cases "up_runtime up")
      case (Some e)
      then show ?thesis using resolved by (simp add: main_run_def print_err_def)
    next
      case None
      define chosen where "chosen = (case ca_policy args of None \<Rightarrow> Inr None
        | Some path \<Rightarrow> rbind (policy_file (up_from_toml up) path (up_policy_content up path)) (\<lambda>rules. Inr (Some rules)))"
      show ?thesis
      proof (cases chosen)
        case (Inl e)
        then have "main_run env up args w = report e w"
          using resolved None by (simp add: main_run_def chosen_def)
        then show ?thesis
          using report_told [where e = e and w = w] None by (cases "report e w") auto
      next
        case (Inr policy)
        obtain r w1 where ran: "entry_run env (mode_of_command (ca_command args)) st policy (ca_dashboard args)
            (ca_http args) (ca_allow_remote args) w = (r, w1)"
          by fastforce
        then have run: "main_run env up args w = (case r of Inr u \<Rightarrow> (ExitSuccess, w1) | Inl e \<Rightarrow> report e w1)"
          using resolved None Inr by (simp add: main_run_def chosen_def split: sum.split)
        show ?thesis
        proof (cases r)
          case (Inl e)
          then show ?thesis
            using run ran report_told [where e = e and w = w1] by (cases "report e w1") fastforce
        qed (use run ran in auto)
      qed
    qed
  qed
qed

end
