(* ===== verification/Context_Contract.thy ===== *)
theory Context_Contract
  imports Engine
begin

text \<open>
  What the session layer relies on from a browser context, the page lifecycle of the trait
  \<open>ContextHandle\<close> (\<open>crates/engine/src/context.rs\<close>): opening registers a fresh id, adopting is
  idempotent, a failed call leaves the tracked pages alone, closing forgets. The interface is a
  locale whose provider answers each call under a condition of the outside world; the contract is
  an abstract map of ids to handles moved by the answers alone. The backend and the test double
  of the session layer both provide it. Beside the contract stand the streams of
  \<open>crates/engine/src/page.rs\<close> and the answers a backend gives for what it leaves out.
\<close>

section \<open>Streams and default answers\<close>

text \<open>
  The receiving end of a channel: what waits in it and whether a sender is left. A wait on an
  empty channel that still has a sender does not return.
\<close>

record 'a live_stream =
  ls_queue :: "'a list"
  ls_sender :: bool

datatype 'a received = Item 'a | StreamEnded | StillWaiting

definition next_item :: "'a live_stream \<Rightarrow> 'a received \<times> 'a live_stream" where
  "next_item st =
     (case ls_queue st of
        item # rest \<Rightarrow> (Item item, st\<lparr>ls_queue := rest\<rparr>)
      | [] \<Rightarrow> (if ls_sender st then StillWaiting else StreamEnded, st))"

definition default_foreign_pages :: "engine_error + foreign_page list" where
  "default_foreign_pages = Inr []"

definition default_adopt_page :: "page_id \<Rightarrow> engine_error + page_id \<times> 'h" where
  "default_adopt_page i =
     Inl (EngUnsupported ''adopt_page'' ''this engine cannot adopt pages it did not open'')"

definition default_observe :: "engine_error + page_observation live_stream" where
  "default_observe = Inr \<lparr>ls_queue = [], ls_sender = False\<rparr>"

definition default_handle_dialog :: "bool \<Rightarrow> string option \<Rightarrow> engine_error + unit" where
  "default_handle_dialog accept prompt_text =
     Inl (EngUnsupported ''handle_dialog'' ''this engine cannot answer page dialogs'')"

definition default_set_input_files :: "string \<Rightarrow> string list \<Rightarrow> engine_error + unit" where
  "default_set_input_files reference files =
     Inl (EngUnsupported ''set_input_files'' ''this engine cannot set files on file inputs'')"

definition default_set_viewport :: "nat \<Rightarrow> nat \<Rightarrow> engine_error + unit" where
  "default_set_viewport width height =
     Inl (EngUnsupported ''set_viewport'' ''this engine cannot resize a page'')"

text \<open>A stream hands its items over in order and, its sender gone, stays ended.\<close>

lemma stream_in_order:
  "((snd \<circ> next_item) ^^ n) st = st\<lparr>ls_queue := drop n (ls_queue st)\<rparr>"
  by (induction n arbitrary: st)
    (auto simp: next_item_def funpow_swap1 drop_Suc simp del: funpow.simps(2)
      simp add: funpow_Suc_right split: list.splits)

lemma stream_item:
  "fst (next_item (((snd \<circ> next_item) ^^ n) st)) =
     (if n < length (ls_queue st) then Item (ls_queue st ! n)
      else if ls_sender st then StillWaiting else StreamEnded)"
  by (auto simp: stream_in_order next_item_def drop_eq_Nil2 Cons_nth_drop_Suc [symmetric] split: list.split)

lemma default_observation_ends:
  "default_observe = Inr st \<Longrightarrow> fst (next_item (((snd \<circ> next_item) ^^ n) st)) = StreamEnded"
  by (simp add: stream_item) (auto simp: default_observe_def)

section \<open>Calls, answers and the promise\<close>

datatype 'a context_call =
    CallOpenPage 'a
  | CallClosePage 'a page_id
  | CallAdopt 'a page_id
  | CallCloseContext 'a

datatype 'h context_answer = Handed page_id 'h | Finished | Refused engine_error

fun promised :: "'a context_call \<Rightarrow> 'h context_answer \<Rightarrow> (page_id \<rightharpoonup> 'h) \<Rightarrow> (page_id \<rightharpoonup> 'h)" where
  "promised (CallOpenPage a) (Handed i h) m = m(i \<mapsto> h)"
| "promised (CallAdopt a j) (Handed i h) m = m(i \<mapsto> h)"
| "promised (CallClosePage a i) Finished m = m(i := None)"
| "promised (CallCloseContext a) Finished m = Map.empty"
| "promised x r m = m"

text \<open>Which answers are allowed: a fresh id for a new page, the id asked for and its registered handle.\<close>

fun allowed :: "'a context_call \<Rightarrow> 'h context_answer \<Rightarrow> (page_id \<rightharpoonup> 'h) \<Rightarrow> bool" where
  "allowed (CallOpenPage a) (Handed i h) m \<longleftrightarrow> m i = None"
| "allowed (CallAdopt a j) (Handed i h) m \<longleftrightarrow> i = j \<and> m j \<in> {None, Some h}"
| "allowed (CallAdopt a j) (Refused e) m \<longleftrightarrow> m j = None"
| "allowed (CallClosePage a i) (Handed j h) m \<longleftrightarrow> False"
| "allowed (CallCloseContext a) (Handed j h) m \<longleftrightarrow> False"
| "allowed x r m \<longleftrightarrow> True"

fun spec_run :: "('a context_call \<times> 'h context_answer) list \<Rightarrow> (page_id \<rightharpoonup> 'h) \<Rightarrow> (page_id \<rightharpoonup> 'h)" where
  "spec_run [] m = m"
| "spec_run ((x, r) # xs) m = spec_run xs (promised x r m)"

fun spec_allows :: "('a context_call \<times> 'h context_answer) list \<Rightarrow> (page_id \<rightharpoonup> 'h) \<Rightarrow> bool" where
  "spec_allows [] m \<longleftrightarrow> True"
| "spec_allows ((x, r) # xs) m \<longleftrightarrow> allowed x r m \<and> spec_allows xs (promised x r m)"

fun calls_run ::
  "('a context_call \<Rightarrow> 's \<Rightarrow> 'h context_answer \<times> 's) \<Rightarrow> 'a context_call list \<Rightarrow> 's \<Rightarrow>
   ('a context_call \<times> 'h context_answer) list \<times> 's" where
  "calls_run call [] s = ([], s)"
| "calls_run call (x # xs) s =
     (case call x s of (r, s1) \<Rightarrow>
        (case calls_run call xs s1 of (rs, s2) \<Rightarrow> ((x, r) # rs, s2)))"

text \<open>A call that may end the tracking of a page.\<close>

fun forgets :: "page_id \<Rightarrow> 'a context_call \<Rightarrow> bool" where
  "forgets i (CallClosePage a j) \<longleftrightarrow> i = j"
| "forgets i (CallCloseContext a) \<longleftrightarrow> True"
| "forgets i x \<longleftrightarrow> False"

section \<open>The interface\<close>

locale context_contract =
  fixes call :: "'a context_call \<Rightarrow> 's \<Rightarrow> 'h context_answer \<times> 's"
    and tracked :: "'s \<Rightarrow> page_id \<rightharpoonup> 'h"
    and inv :: "'s \<Rightarrow> bool"
  assumes inv_call: "inv s \<Longrightarrow> call x s = (r, t) \<Longrightarrow> inv t"
    and answer_allowed: "inv s \<Longrightarrow> call x s = (r, t) \<Longrightarrow> allowed x r (tracked s)"
    and answer_kept: "inv s \<Longrightarrow> call x s = (r, t) \<Longrightarrow> tracked t = promised x r (tracked s)"
    and known_adoption: "inv s \<Longrightarrow> tracked s i = Some h \<Longrightarrow> call (CallAdopt a i) s = (Handed i h, s)"
begin

lemma calls_refine:
  "inv s \<Longrightarrow> calls_run call xs s = (rs, t) \<Longrightarrow>
   map fst rs = xs \<and> inv t \<and> spec_allows rs (tracked s) \<and> tracked t = spec_run rs (tracked s)"
proof (induction xs arbitrary: s rs)
  case (Cons x xs)
  obtain r s1 where one: "call x s = (r, s1)" by fastforce
  obtain qs where rest: "calls_run call xs s1 = (qs, t)" "rs = (x, r) # qs"
    using Cons.prems(2) one by (auto split: prod.splits)
  show ?case
    using Cons.IH [OF inv_call [OF Cons.prems(1) one] rest(1)] rest(2)
      answer_allowed [OF Cons.prems(1) one] answer_kept [OF Cons.prems(1) one] by simp
qed simp

lemma promised_keeps:
  "allowed x r m \<Longrightarrow> m i = Some h \<Longrightarrow> \<not> forgets i x \<Longrightarrow> promised x r m i = Some h"
  by (cases x; cases r) auto

lemma handle_stays:
  assumes "inv s" "tracked s i = Some h" "\<not> list_ex (forgets i) xs" "calls_run call xs s = (rs, t)"
  shows "tracked t i = Some h"
  using assms
proof (induction xs arbitrary: s rs)
  case (Cons x xs)
  obtain r s1 where one: "call x s = (r, s1)" by fastforce
  obtain qs where rest: "calls_run call xs s1 = (qs, t)"
    using Cons.prems(4) one by (auto split: prod.splits)
  have "tracked s1 i = Some h"
    using promised_keeps [OF answer_allowed [OF Cons.prems(1) one] Cons.prems(2)]
      answer_kept [OF Cons.prems(1) one] Cons.prems(3) by simp
  then show ?case
    using Cons.IH [OF inv_call [OF Cons.prems(1) one] _ _ rest] Cons.prems(3) by simp
qed simp

text \<open>A handle once handed out is handed out again, whatever happened in between but its close.\<close>

lemma adoption_answers_the_same:
  assumes "inv s" "call x s = (Handed i h, s1)" "\<not> list_ex (forgets i) xs" "calls_run call xs s1 = (rs, t)"
  shows "call (CallAdopt a i) t = (Handed i h, t)"
proof -
  have "tracked s1 i = Some h"
    using answer_kept [OF assms(1,2)] answer_allowed [OF assms(1,2)] by (cases x) auto
  moreover have "inv s1" using inv_call [OF assms(1,2)] .
  ultimately show ?thesis
    using handle_stays [OF _ _ assms(3,4)] calls_refine [OF _ assms(4)] known_adoption by blast
qed

end

end
