(* ===== verification/Cdp_Contract.thy ===== *)
theory Cdp_Contract
  imports Cdp_Context Context_Contract
begin

text \<open>
  The CDP context provides the page contract of \<open>ContextHandle\<close>. A call meets the answers of the
  browser; no other caller moves during it.
\<close>

fun backend_call ::
  "browser_env context_call \<Rightarrow> cdp_context \<times> engine_side \<Rightarrow>
   cdp_page context_answer \<times> cdp_context \<times> engine_side" where
  "backend_call (CallOpenPage env) (cx, es) =
     (case cdp_open_page env (\<lambda>k. []) cx es of
        (Inr (i, h), s) \<Rightarrow> (Handed i h, s)
      | (Inl e, s) \<Rightarrow> (Refused e, s))"
| "backend_call (CallClosePage env i) (cx, es) =
     (case cdp_close_page env (\<lambda>k. []) i cx es of
        (None, s) \<Rightarrow> (Finished, s)
      | (Some e, s) \<Rightarrow> (Refused e, s))"
| "backend_call (CallAdopt env i) (cx, es) =
     (case adopt_page env (\<lambda>k. []) i cx es of
        (Inr (j, h), s) \<Rightarrow> (Handed j h, s)
      | (Inl e, s) \<Rightarrow> (Refused e, s))"
| "backend_call (CallCloseContext env) (cx, es) =
     (case cdp_close_context env (\<lambda>k. []) cx es of
        (None, s) \<Rightarrow> (Finished, s)
      | (Some e, s) \<Rightarrow> (Refused e, s))"

definition cdp_tracked :: "cdp_context \<times> engine_side \<Rightarrow> page_id \<rightharpoonup> cdp_page" where
  "cdp_tracked s = (\<lambda>i. cx_lookup i (fst s))"

definition minted_id :: "cdp_context \<Rightarrow> nat \<Rightarrow> page_id" where
  "minted_id cx n = PageId (context_str (cx_id cx) @ '':page-'' @ show_nat n)"

text \<open>Every tracked id was minted below the counter or names a foreign target.\<close>

definition ids_known :: "cdp_context \<times> engine_side \<Rightarrow> bool" where
  "ids_known s \<longleftrightarrow>
     prefix ''ctx-'' (context_str (cx_id (fst s))) \<and>
     (\<forall>i. cx_lookup i (fst s) \<noteq> None \<longrightarrow>
        (\<exists>n < cx_counter (fst s). i = minted_id (fst s) n) \<or> (\<exists>tid. i = foreign_page_id tid))"

lemma minted_id_simps [simp]:
  "minted_id cx m = minted_id cx n \<longleftrightarrow> m = n"
  "prefix ''ctx-'' (context_str (cx_id cx)) \<Longrightarrow> minted_id cx n \<noteq> foreign_page_id tid"
  by (auto simp: minted_id_def foreign_page_id_def prefix_def)

lemma fresh_id: "ids_known (cx, es) \<Longrightarrow> cx_lookup (minted_id cx (cx_counter cx)) cx = None"
  by (fastforce simp: ids_known_def)

lemma drain_lookup [simp]: "cx_lookup i (drain_pages cx) = None"
  by (simp add: cx_lookup_def drain_pages_def)

lemma ids_known_frame:
  assumes "ids_known (cx, es)" "cx_id cx' = cx_id cx" "cx_counter cx \<le> cx_counter cx'"
    "\<And>i. cx_lookup i cx' \<noteq> None \<Longrightarrow> cx_lookup i cx \<noteq> None \<or> (\<exists>n < cx_counter cx'. i = minted_id cx n) \<or>
       (\<exists>tid. i = foreign_page_id tid)"
  shows "ids_known (cx', es')"
proof -
  have "minted_id cx' = minted_id cx" using assms(2) by (auto simp: minted_id_def)
  then show ?thesis
    using assms unfolding ids_known_def by (simp add: fun_eq_iff) (meson less_le_trans)
qed

lemma cdp_opens:
  assumes "ids_known (cx, es)" "cdp_open_page env (\<lambda>k. []) cx es = (r, cx', es')"
  shows "cx_id cx' = cx_id cx \<and> cx_counter cx \<le> cx_counter cx' \<and>
    (case r of
       Inl e \<Rightarrow> (\<forall>i. cx_lookup i cx' = cx_lookup i cx)
     | Inr (i, h) \<Rightarrow> i = minted_id cx (cx_counter cx) \<and> cx_counter cx' = cx_counter cx + 1 \<and>
         (\<forall>j. cx_lookup j cx' = ((\<lambda>j. cx_lookup j cx)(i \<mapsto> h)) j))"
  using assms(2)
  by (auto simp: cdp_open_page_def Let_def mint_page_id_def register_page_def minted_id_def cx_lookup_def update_conv'
      split: if_splits sum.splits option.splits prod.splits)

lemma cdp_closes_page:
  assumes "cdp_close_page env (\<lambda>k. []) i cx es = (r, cx', es')"
  shows "cx_id cx' = cx_id cx \<and> cx_counter cx' = cx_counter cx \<and>
    (case r of
       Some e \<Rightarrow> (\<forall>j. cx_lookup j cx' = cx_lookup j cx)
     | None \<Rightarrow> (\<forall>j. cx_lookup j cx' = ((\<lambda>j. cx_lookup j cx)(i := None)) j))"
  using assms
  by (auto simp: cdp_close_page_def Let_def cdp_remove_page_def cx_lookup_def delete_conv'
      split: if_splits option.splits) (metis option.exhaust)

lemma cdp_adopts:
  assumes "adopt_page env (\<lambda>k. []) i cx es = (r, cx', es')"
  shows "cx_id cx' = cx_id cx \<and> cx_counter cx' = cx_counter cx \<and>
    (case r of
       Inl e \<Rightarrow> cx_lookup i cx = None \<and> (\<forall>j. cx_lookup j cx' = cx_lookup j cx)
     | Inr (k, h) \<Rightarrow> k = i \<and> cx_lookup i cx \<in> {None, Some h} \<and>
         (cx_lookup i cx = None \<longrightarrow> (\<exists>tid. i = foreign_page_id tid)) \<and>
         (\<forall>j. cx_lookup j cx' = ((\<lambda>j. cx_lookup j cx)(i \<mapsto> h)) j))"
proof (cases "cx_lookup i cx")
  case (Some h)
  then show ?thesis using assms by (auto simp: adopt_page_def)
next
  case None
  then show ?thesis
    using assms
    by (auto simp: adopt_page_def insert_page_def Let_def find_Some_iff
        split: sum.splits option.splits prod.splits)
qed

lemma cdp_closes_context:
  assumes "cdp_close_context env (\<lambda>k. []) cx es = (r, cx', es')"
  shows "cx_id cx' = cx_id cx \<and> cx_counter cx' = cx_counter cx \<and>
    (\<forall>j. cx_lookup j cx' = (case r of Some e \<Rightarrow> cx_lookup j cx | None \<Rightarrow> None))"
  using assms
  by (auto simp: cdp_close_context_def Let_def drain_pages_def cx_lookup_def split: if_splits option.splits)

text \<open>Every call at once: the condition of the ids, the answer and the map it leaves.\<close>

lemma backend_call_effect:
  assumes inv: "ids_known s" and run: "backend_call x s = (r, t)"
  shows "ids_known t \<and> allowed x r (cdp_tracked s) \<and> cdp_tracked t = promised x r (cdp_tracked s)"
proof -
  obtain cx es cx' es' where st: "s = (cx, es)" "t = (cx', es')" by fastforce
  show ?thesis
  proof (cases x)
    case (CallOpenPage env)
    obtain q where call: "cdp_open_page env (\<lambda>k. []) cx es = (q, cx', es')"
      "r = (case q of Inr (i, h) \<Rightarrow> Handed i h | Inl e \<Rightarrow> Refused e)"
      using run CallOpenPage st by (auto split: sum.splits prod.splits)
    note eff = cdp_opens [OF inv [unfolded st] call(1)]
    have "ids_known (cx', es')"
      using eff by (intro ids_known_frame [OF inv [unfolded st]]) (auto split: sum.splits prod.splits if_splits)
    then show ?thesis
      using eff call(2) st CallOpenPage fresh_id [OF inv [unfolded st]]
      by (auto simp: cdp_tracked_def fun_eq_iff split: sum.splits prod.splits)
  next
    case (CallClosePage env i)
    obtain q where call: "cdp_close_page env (\<lambda>k. []) i cx es = (q, cx', es')"
      "r = (case q of None \<Rightarrow> Finished | Some e \<Rightarrow> Refused e)"
      using run CallClosePage st by (auto split: option.splits prod.splits)
    note eff = cdp_closes_page [OF call(1)]
    have "ids_known (cx', es')"
      using eff by (intro ids_known_frame [OF inv [unfolded st]]) (auto split: option.splits if_splits)
    then show ?thesis
      using eff call(2) st CallClosePage by (auto simp: cdp_tracked_def fun_eq_iff split: option.splits)
  next
    case (CallAdopt env i)
    obtain q where call: "adopt_page env (\<lambda>k. []) i cx es = (q, cx', es')"
      "r = (case q of Inr (i, h) \<Rightarrow> Handed i h | Inl e \<Rightarrow> Refused e)"
      using run CallAdopt st by (auto split: sum.splits prod.splits)
    note eff = cdp_adopts [OF call(1)]
    have "ids_known (cx', es')"
      using eff by (intro ids_known_frame [OF inv [unfolded st]]) (auto split: sum.splits prod.splits if_splits)
    then show ?thesis
      using eff call(2) st CallAdopt by (auto simp: cdp_tracked_def fun_eq_iff split: sum.splits prod.splits)
  next
    case (CallCloseContext env)
    obtain q where call: "cdp_close_context env (\<lambda>k. []) cx es = (q, cx', es')"
      "r = (case q of None \<Rightarrow> Finished | Some e \<Rightarrow> Refused e)"
      using run CallCloseContext st by (auto split: option.splits prod.splits)
    note eff = cdp_closes_context [OF call(1)]
    have "ids_known (cx', es')"
      using eff by (intro ids_known_frame [OF inv [unfolded st]]) (auto split: option.splits)
    then show ?thesis
      using eff call(2) st CallCloseContext by (auto simp: cdp_tracked_def fun_eq_iff split: option.splits)
  qed
qed

interpretation backend: context_contract backend_call cdp_tracked ids_known
proof unfold_locales
  fix s x r t
  assume "ids_known s" "backend_call x s = (r, t)"
  note backend_call_effect [OF this]
  then show "ids_known t" "allowed x r (cdp_tracked s)" "cdp_tracked t = promised x r (cdp_tracked s)" by simp_all
next
  fix s i h a
  assume "cdp_tracked s i = Some h"
  then show "backend_call (CallAdopt a i) s = (Handed i h, s)"
    by (cases s) (simp add: cdp_tracked_def adopt_page_def)
qed

lemma fresh_context_ids:
  "ids_known (context_new (ContextId (''ctx-'' @ k)) isolation config, es)"
  by (simp add: ids_known_def context_new_def cx_lookup_def)

text \<open>
  C27. The backend's context keeps the contract the sessions are written against: whatever the
  browser answers to whatever calls, the pages it tracks are the map those answers spell, a new
  page has a fresh id, and a page that was handed out is handed out again as the same handle,
  with nothing changed, until it or the context is closed.
\<close>
theorem cdp_context_keeps_the_contract:
  "case calls_run backend_call xs (context_new (ContextId (''ctx-'' @ k)) isolation config, es) of
    (rs, s) \<Rightarrow>
      map fst rs = xs \<and> spec_allows rs Map.empty \<and> cdp_tracked s = spec_run rs Map.empty \<and>
      (case backend_call x s of
         (Handed i h, s1) \<Rightarrow>
           (case calls_run backend_call (filter (Not \<circ> forgets i) ys) s1 of
              (qs, t) \<Rightarrow> backend_call (CallAdopt env i) t = (Handed i h, t))
       | _ \<Rightarrow> True)"
proof -
  let ?start = "(context_new (ContextId (''ctx-'' @ k)) isolation config, es)"
  obtain rs s where run: "calls_run backend_call xs ?start = (rs, s)" by (rule prod.exhaust)
  have ids: "ids_known ?start" by (rule fresh_context_ids)
  note refine = backend.calls_refine [OF ids run]
  have empty: "cdp_tracked ?start = Map.empty"
    by (simp add: cdp_tracked_def context_new_def cx_lookup_def fun_eq_iff)
  have "backend_call (CallAdopt env i) t = (Handed i h, t)"
    if "backend_call x s = (Handed i h, s1)" "calls_run backend_call (filter (Not \<circ> forgets i) ys) s1 = (qs, t)"
    for i h s1 qs t
    using backend.adoption_answers_the_same [OF _ that(1) _ that(2)] refine by (simp add: list_ex_iff)
  then show ?thesis
    using run refine empty by (auto split: prod.split context_answer.split)
qed

end
