(* ===== verification/Session_Mock.thy ===== *)
theory Session_Mock
  imports Session_Storage Context_Contract "HOL-Library.AList" "HOL-Library.List_Lexorder"
begin

text \<open>
  The in-memory engine the tests of the session layer run on, \<open>crates/session/src/mock.rs\<close>: a
  page that answers each script by the markers it carries and notes what it was asked to do, and
  a context that tracks its pages. A page handle is a number: the shared state behind the \<open>Arc\<close>
  of a page is a cell of the context. Every method takes its locks for one stretch of code, so a
  call is one step. What a wedged double would make of every test built on it is why the page
  contract is proved for it as for the backend.
\<close>

section \<open>Answers\<close>

definition mock_box :: "bool \<Rightarrow> bool \<Rightarrow> f64 \<Rightarrow> f64 \<Rightarrow> f64 \<Rightarrow> f64 \<Rightarrow> json" where
  "mock_box hidden disabled x y width height =
     JObj [(''missing'', JBool False), (''x'', JFloat x), (''y'', JFloat y), (''width'', JFloat width),
           (''height'', JFloat height), (''disabled'', JBool disabled), (''hidden'', JBool hidden)]"

definition ready_box :: json where
  "ready_box = mock_box False False 10 20 100 30"

definition missing_answer :: json where
  "missing_answer = JObj [(''missing'', JBool True)]"

section \<open>Pages\<close>

text \<open>
  The sender of the observation feed is the queue of the channel behind it while a consumer
  holds the stream.
\<close>

record mock_page =
  mp_resolve_answers :: "json list"
  mp_default_answer :: "json option"
  mp_cycle :: bool
  mp_url :: string
  mp_found :: bool
  mp_inputs :: "input_event list"
  mp_observations :: "page_observation list option"
  mp_dialog_answers :: "(bool \<times> string option) list"
  mp_input_files :: "(string \<times> string list) list"
  mp_viewport_calls :: "(nat \<times> nat) list"
  mp_file_check :: "json option"
  mp_storage :: "json option"
  mp_fail_dialogs :: bool

definition mock_page_new :: mock_page where
  "mock_page_new =
     \<lparr>mp_resolve_answers = [], mp_default_answer = None, mp_cycle = False, mp_url = [], mp_found = False,
      mp_inputs = [], mp_observations = None, mp_dialog_answers = [], mp_input_files = [],
      mp_viewport_calls = [], mp_file_check = None, mp_storage = None, mp_fail_dialogs = False\<rparr>"

definition push_resolve_answer :: "json \<Rightarrow> mock_page \<Rightarrow> mock_page" where
  "push_resolve_answer answer p = p\<lparr>mp_resolve_answers := mp_resolve_answers p @ [answer]\<rparr>"

definition set_default_answer :: "json \<Rightarrow> mock_page \<Rightarrow> mock_page" where
  "set_default_answer answer p = p\<lparr>mp_default_answer := Some answer\<rparr>"

definition set_cycle :: "bool \<Rightarrow> mock_page \<Rightarrow> mock_page" where
  "set_cycle cycle p = p\<lparr>mp_cycle := cycle\<rparr>"

definition mock_set_url :: "string \<Rightarrow> mock_page \<Rightarrow> mock_page" where
  "mock_set_url url p = p\<lparr>mp_url := url\<rparr>"

definition set_found :: "bool \<Rightarrow> mock_page \<Rightarrow> mock_page" where
  "set_found found p = p\<lparr>mp_found := found\<rparr>"

definition feed_capacity_of_mock :: nat where
  "feed_capacity_of_mock = 16"

text \<open>\<open>try_send\<close>: nothing without a consumer, nothing into a full channel.\<close>

definition mock_emit :: "page_observation \<Rightarrow> mock_page \<Rightarrow> mock_page" where
  "mock_emit observation p =
     (case mp_observations p of
        None \<Rightarrow> p
      | Some queue \<Rightarrow>
          (if length queue < feed_capacity_of_mock then p\<lparr>mp_observations := Some (queue @ [observation])\<rparr>
           else p))"

definition feed_claimed :: "mock_page \<Rightarrow> bool" where
  "feed_claimed p \<longleftrightarrow> mp_observations p \<noteq> None"

definition end_feed :: "mock_page \<Rightarrow> mock_page" where
  "end_feed p = p\<lparr>mp_observations := None\<rparr>"

definition set_file_check :: "json \<Rightarrow> mock_page \<Rightarrow> mock_page" where
  "set_file_check answer p = p\<lparr>mp_file_check := Some answer\<rparr>"

text \<open>The entries collect into a map of sorted keys, the last value of a key winning.\<close>

definition set_storage :: "string \<Rightarrow> (string \<times> string) list \<Rightarrow> mock_page \<Rightarrow> mock_page" where
  "set_storage origin entries p =
     p\<lparr>mp_storage := Some (JObj [(''origin'', JStr origin),
        (''data'', JObj (sort_key (\<lambda>field. map of_char (fst field) :: nat list)
                    (foldl (\<lambda>fs (k, v). AList.update k (JStr v) fs) [] entries)))])\<rparr>"

definition set_fail_dialogs :: "bool \<Rightarrow> mock_page \<Rightarrow> mock_page" where
  "set_fail_dialogs fail p = p\<lparr>mp_fail_dialogs := fail\<rparr>"

definition next_resolve_answer :: "mock_page \<Rightarrow> json \<times> mock_page" where
  "next_resolve_answer p =
     (case mp_resolve_answers p of
        [] \<Rightarrow> (unwrap_or (mp_default_answer p) ready_box, p)
      | head # rest \<Rightarrow>
          (head, p\<lparr>mp_resolve_answers := (if mp_cycle p then rest @ [head] else rest)\<rparr>))"

section \<open>The page trait\<close>

definition mock_navigate :: "string \<Rightarrow> mock_page \<Rightarrow> (engine_error + string) \<times> mock_page" where
  "mock_navigate url p = (Inr url, mock_set_url url p)"

definition mock_history :: "mock_page \<Rightarrow> (engine_error + string) \<times> mock_page" where
  "mock_history p = (Inr (mp_url p), p)"

definition mock_evaluate :: "string \<Rightarrow> mock_page \<Rightarrow> (engine_error + json) \<times> mock_page" where
  "mock_evaluate expression p =
     (if contains_str expression ''var VALUES = '' then
        (Inr (JObj [(''missing'', JBool False), (''not_select'', JBool False), (''matched'', JInt 1)]), p)
      else if contains_str expression ''not_file'' then
        (Inr (unwrap_or (mp_file_check p)
           (JObj [(''missing'', JBool False), (''not_file'', JBool False), (''ok'', JBool True),
                  (''multiple'', JBool True)])), p)
      else if contains_str expression ''var REF = '' then
        (case next_resolve_answer p of (answer, p1) \<Rightarrow> (Inr answer, p1))
      else if contains_str expression ''var NEEDLE = '' then
        (Inr (JObj [(''found'', JBool (mp_found p))]), p)
      else if contains_str expression ''MAX_NODES'' then
        (Inr (JObj [(''version'', JInt 1), (''truncated'', JBool False),
           (''root'', JObj [(''role'', JStr ''root''),
              (''children'', JArr [JObj [(''role'', JStr ''button''), (''name'', JStr ''Ok''),
                 (''ref'', JStr ''e1'')]])])]), p)
      else if contains_str expression ''location.href'' then (Inr (JStr (mp_url p)), p)
      else if contains_str expression ''innerWidth'' then
        (Inr (JObj [(''x'', JFloat 400), (''y'', JFloat 300)]), p)
      else if contains_str expression ''localStorage'' then
        (Inr (unwrap_or (mp_storage p) (JObj [(''unavailable'', JBool True)])), p)
      else (Inr JNull, p))"

definition mock_dispatch :: "input_event \<Rightarrow> mock_page \<Rightarrow> (engine_error + unit) \<times> mock_page" where
  "mock_dispatch event p = (Inr (), p\<lparr>mp_inputs := mp_inputs p @ [event]\<rparr>)"

definition mock_screenshot :: "mock_page \<Rightarrow> (engine_error + screenshot) \<times> mock_page" where
  "mock_screenshot p = (Inr \<lparr>ss_format = Png, ss_data = replicate 1024 (CHR 0x00)\<rparr>, p)"

text \<open>The sender is dropped at once, so the cast ends without a frame.\<close>

definition mock_screencast :: "mock_page \<Rightarrow> (engine_error + string list) \<times> mock_page" where
  "mock_screencast p = (Inr [], p)"

definition mock_observe :: "mock_page \<Rightarrow> (engine_error + unit) \<times> mock_page" where
  "mock_observe p =
     (if feed_claimed p
      then (Inl (EngUnsupported ''observe'' ''this page's observation feed already has a consumer''), p)
      else (Inr (), p\<lparr>mp_observations := Some []\<rparr>))"

definition mock_handle_dialog ::
  "bool \<Rightarrow> string option \<Rightarrow> mock_page \<Rightarrow> (engine_error + unit) \<times> mock_page" where
  "mock_handle_dialog accept prompt_text p =
     (if mp_fail_dialogs p then (Inl EngTerminated, p)
      else (Inr (), p\<lparr>mp_dialog_answers := mp_dialog_answers p @ [(accept, prompt_text)]\<rparr>))"

definition mock_set_input_files ::
  "string \<Rightarrow> string list \<Rightarrow> mock_page \<Rightarrow> (engine_error + unit) \<times> mock_page" where
  "mock_set_input_files reference paths p =
     (Inr (), p\<lparr>mp_input_files := mp_input_files p @ [(reference, paths)]\<rparr>)"

definition mock_set_viewport :: "nat \<Rightarrow> nat \<Rightarrow> mock_page \<Rightarrow> (engine_error + unit) \<times> mock_page" where
  "mock_set_viewport width height p =
     (Inr (), p\<lparr>mp_viewport_calls := mp_viewport_calls p @ [(width, height)]\<rparr>)"

section \<open>Contexts\<close>

record mock_context =
  mc_id :: context_id
  mc_pages :: "(page_id \<times> nat) list"
  mc_counter :: nat
  mc_closed :: bool
  mc_cookie_calls :: "cookie list list"
  mc_foreign :: "(page_id \<times> string \<times> nat) list"
  mc_foreign_counter :: nat
  mc_fail_foreign :: bool
  mc_cells :: "mock_page list"

definition mock_context_new :: mock_context where
  "mock_context_new =
     \<lparr>mc_id = ContextId ''ctx-mock'', mc_pages = [], mc_counter = 0, mc_closed = False, mc_cookie_calls = [],
      mc_foreign = [], mc_foreign_counter = 0, mc_fail_foreign = False, mc_cells = []\<rparr>"

definition mock_lookup :: "page_id \<Rightarrow> mock_context \<Rightarrow> nat option" where
  "mock_lookup i c = map_option snd (find (\<lambda>e. fst e = i) (mc_pages c))"

definition page_mock :: "page_id \<Rightarrow> mock_context \<Rightarrow> nat option" where
  "page_mock = mock_lookup"

definition mock_page_ids :: "mock_context \<Rightarrow> page_id list" where
  "mock_page_ids c = map fst (mc_pages c)"

definition add_foreign_page :: "string \<Rightarrow> mock_context \<Rightarrow> page_id \<times> mock_context" where
  "add_foreign_page url c =
     (let i = PageId (''target:foreign-'' @ show_nat (mc_foreign_counter c))
      in (i, c\<lparr>mc_foreign_counter := mc_foreign_counter c + 1,
               mc_foreign := mc_foreign c @ [(i, url, length (mc_cells c))],
               mc_cells := mc_cells c @ [mock_set_url url mock_page_new]\<rparr>))"

definition fail_foreign_pages :: "bool \<Rightarrow> mock_context \<Rightarrow> mock_context" where
  "fail_foreign_pages fail c = c\<lparr>mc_fail_foreign := fail\<rparr>"

definition mock_open_page :: "mock_context \<Rightarrow> (engine_error + page_id \<times> nat) \<times> mock_context" where
  "mock_open_page c =
     (if mc_closed c then (Inl EngTerminated, c)
      else
        (let i = PageId (context_str (mc_id c) @ '':page-'' @ show_nat (mc_counter c));
             h = length (mc_cells c)
         in (Inr (i, h), c\<lparr>mc_counter := mc_counter c + 1, mc_cells := mc_cells c @ [mock_page_new],
                           mc_pages := mc_pages c @ [(i, h)]\<rparr>)))"

definition mock_close_page :: "page_id \<Rightarrow> mock_context \<Rightarrow> (engine_error + unit) \<times> mock_context" where
  "mock_close_page i c = (Inr (), c\<lparr>mc_pages := filter (\<lambda>e. fst e \<noteq> i) (mc_pages c)\<rparr>)"

definition mock_set_cookies :: "cookie list \<Rightarrow> mock_context \<Rightarrow> (engine_error + unit) \<times> mock_context" where
  "mock_set_cookies cookies c = (Inr (), c\<lparr>mc_cookie_calls := mc_cookie_calls c @ [cookies]\<rparr>)"

definition mock_cookies :: "mock_context \<Rightarrow> (engine_error + cookie list) \<times> mock_context" where
  "mock_cookies c = (Inr [], c)"

definition mock_close :: "mock_context \<Rightarrow> (engine_error + unit) \<times> mock_context" where
  "mock_close c = (Inr (), c\<lparr>mc_closed := True, mc_pages := []\<rparr>)"

definition mock_foreign_pages :: "mock_context \<Rightarrow> (engine_error + foreign_page list) \<times> mock_context" where
  "mock_foreign_pages c =
     (if mc_fail_foreign c then (Inl EngTerminated, c)
      else (Inr (map (\<lambda>(i, url, h). \<lparr>fp_id = i, fp_url = url\<rparr>) (mc_foreign c)), c))"

text \<open>The first surface of that id leaves the foreign list and joins the tracked pages.\<close>

fun take_foreign ::
  "page_id \<Rightarrow> (page_id \<times> string \<times> nat) list \<Rightarrow> (nat \<times> (page_id \<times> string \<times> nat) list) option" where
  "take_foreign i [] = None"
| "take_foreign i ((j, url, h) # rest) =
     (if j = i then Some (h, rest)
      else map_option (\<lambda>(k, others). (k, (j, url, h) # others)) (take_foreign i rest))"

definition mock_adopt_page ::
  "page_id \<Rightarrow> mock_context \<Rightarrow> (engine_error + page_id \<times> nat) \<times> mock_context" where
  "mock_adopt_page i c =
     (case mock_lookup i c of
        Some h \<Rightarrow> (Inr (i, h), c)
      | None \<Rightarrow>
          (case take_foreign i (mc_foreign c) of
             Some (h, rest) \<Rightarrow>
               (Inr (i, h), c\<lparr>mc_foreign := rest, mc_pages := mc_pages c @ [(i, h)]\<rparr>)
           | None \<Rightarrow>
               (Inl (EngInternal (''the engine reports no adoptable page '' @ quoted (page_str i))), c)))"

text \<open>A call on a page acts on the cell its handle names.\<close>

definition on_cell :: "(mock_page \<Rightarrow> 'r \<times> mock_page) \<Rightarrow> nat \<Rightarrow> mock_context \<Rightarrow> 'r \<times> mock_context" where
  "on_cell f h c =
     (case f (if h < length (mc_cells c) then mc_cells c ! h else mock_page_new) of
        (r, p) \<Rightarrow> (r, c\<lparr>mc_cells := (mc_cells c)[h := p]\<rparr>))"

text \<open>The double behind the interfaces of the session layer, with what it leaves to the test.\<close>

definition mock_page_api ::
  "(string \<Rightarrow> mock_context \<Rightarrow> bool) \<Rightarrow> (duration \<Rightarrow> mock_context \<Rightarrow> mock_context) \<Rightarrow>
   (nat, mock_context) page_api" where
  "mock_page_api path_exists sleep =
     \<lparr>pa_evaluate = (\<lambda>h e. on_cell (mock_evaluate e) h),
      pa_navigate = (\<lambda>h url. on_cell (mock_navigate url) h),
      pa_reload = (\<lambda>h c. (Inr (), c)),
      pa_go_back = (\<lambda>h. on_cell mock_history h),
      pa_go_forward = (\<lambda>h. on_cell mock_history h),
      pa_dispatch = (\<lambda>h event. on_cell (mock_dispatch event) h),
      pa_set_files = (\<lambda>h reference paths. on_cell (mock_set_input_files reference paths) h),
      pa_screenshot = (\<lambda>h. on_cell mock_screenshot h),
      pa_start_screencast = (\<lambda>h. on_cell mock_screencast h),
      pa_set_viewport = (\<lambda>h width height. on_cell (mock_set_viewport width height) h),
      pa_path_exists = path_exists,
      pa_sleep = sleep\<rparr>"

definition mock_context_api :: "(unit, nat, mock_context) context_api" where
  "mock_context_api =
     \<lparr>cx_open_page = (\<lambda>u. mock_open_page), cx_close_page = (\<lambda>u. mock_close_page),
      cx_foreign_pages = (\<lambda>u. mock_foreign_pages), cx_adopt_page = (\<lambda>u. mock_adopt_page),
      cx_set_cookies = (\<lambda>u. mock_set_cookies), cx_cookies = (\<lambda>u. mock_cookies),
      cx_close = (\<lambda>u. mock_close)\<rparr>"

section \<open>The page contract\<close>

text \<open>Beside the calls of the trait, a test plants surfaces: that is the outside of the double.\<close>

fun mock_call ::
  "string list context_call \<Rightarrow> mock_context \<Rightarrow> nat context_answer \<times> mock_context" where
  "mock_call (CallOpenPage urls) c =
     (case mock_open_page (fold (\<lambda>url c. snd (add_foreign_page url c)) urls c) of
        (Inr (i, h), c1) \<Rightarrow> (Handed i h, c1)
      | (Inl e, c1) \<Rightarrow> (Refused e, c1))"
| "mock_call (CallClosePage urls i) c =
     (case mock_close_page i (fold (\<lambda>url c. snd (add_foreign_page url c)) urls c) of
        (Inr u, c1) \<Rightarrow> (Finished, c1)
      | (Inl e, c1) \<Rightarrow> (Refused e, c1))"
| "mock_call (CallAdopt urls i) c =
     (case mock_adopt_page i c of
        (Inr (j, h), c1) \<Rightarrow> (Handed j h, c1)
      | (Inl e, c1) \<Rightarrow> (Refused e, c1))"
| "mock_call (CallCloseContext urls) c =
     (case mock_close (fold (\<lambda>url c. snd (add_foreign_page url c)) urls c) of
        (Inr u, c1) \<Rightarrow> (Finished, c1)
      | (Inl e, c1) \<Rightarrow> (Refused e, c1))"

definition mock_tracked :: "mock_context \<Rightarrow> page_id \<rightharpoonup> nat" where
  "mock_tracked c = (\<lambda>i. mock_lookup i c)"

definition mock_minted :: "nat \<Rightarrow> page_id" where
  "mock_minted n = PageId (''ctx-mock:page-'' @ show_nat n)"

definition mock_foreign_id :: "nat \<Rightarrow> page_id" where
  "mock_foreign_id n = PageId (''target:foreign-'' @ show_nat n)"

definition mock_ids :: "mock_context \<Rightarrow> bool" where
  "mock_ids c \<longleftrightarrow>
     mc_id c = ContextId ''ctx-mock'' \<and>
     (\<forall>i \<in> fst ` set (mc_pages c). (\<exists>n < mc_counter c. i = mock_minted n) \<or> (\<exists>n. i = mock_foreign_id n)) \<and>
     (\<forall>i \<in> fst ` set (mc_foreign c). \<exists>n. i = mock_foreign_id n)"

lemma mock_id_simps [simp]:
  "mock_minted m = mock_minted n \<longleftrightarrow> m = n" "mock_minted m \<noteq> mock_foreign_id n"
  by (simp_all add: mock_minted_def mock_foreign_id_def)

lemma mock_lookup_map_of: "mock_lookup i c = map_of (mc_pages c) i"
proof -
  have "map_option snd (find (\<lambda>e. fst e = i) ps) = map_of ps i" for ps :: "(page_id \<times> nat) list"
    by (induction ps) auto
  then show ?thesis by (simp add: mock_lookup_def)
qed

lemma planted:
  "mc_pages (fold (\<lambda>url c. snd (add_foreign_page url c)) urls c) = mc_pages c \<and>
   mc_counter (fold (\<lambda>url c. snd (add_foreign_page url c)) urls c) = mc_counter c \<and>
   mc_closed (fold (\<lambda>url c. snd (add_foreign_page url c)) urls c) = mc_closed c \<and>
   (mock_ids c \<longrightarrow> mock_ids (fold (\<lambda>url c. snd (add_foreign_page url c)) urls c))"
proof (induction urls arbitrary: c)
  case (Cons url urls)
  have "mock_ids c \<longrightarrow> mock_ids (snd (add_foreign_page url c))"
    by (auto simp: mock_ids_def add_foreign_page_def Let_def mock_foreign_id_def)
  moreover have "mc_pages (snd (add_foreign_page url c)) = mc_pages c"
    "mc_counter (snd (add_foreign_page url c)) = mc_counter c"
    "mc_closed (snd (add_foreign_page url c)) = mc_closed c"
    by (simp_all add: add_foreign_page_def Let_def)
  ultimately show ?case using Cons.IH [of "snd (add_foreign_page url c)"] by simp
qed simp

lemma take_foreign_from:
  "take_foreign i xs = Some (h, rest) \<Longrightarrow> i \<in> fst ` set xs \<and> set rest \<subseteq> set xs"
  by (induction xs arbitrary: rest) (fastforce split: if_splits)+

lemma map_of_snoc: "map_of ps i = None \<Longrightarrow> map_of (ps @ [(i, h)]) = (map_of ps)(i \<mapsto> h)"
  by (auto simp: fun_eq_iff map_add_def split: option.split)

lemma mock_fresh:
  assumes "mock_ids c"
  shows "map_of (mc_pages c) (mock_minted (mc_counter c)) = None"
proof -
  have "mock_minted (mc_counter c) \<notin> fst ` set (mc_pages c)"
    using assms unfolding mock_ids_def by (metis less_irrefl mock_id_simps)
  then show ?thesis by (simp add: map_of_eq_None_iff)
qed

lemma mock_ids_shrink:
  assumes "mock_ids c" "mc_id t = mc_id c" "mc_counter t = mc_counter c"
    "set (mc_pages t) \<subseteq> set (mc_pages c)" "mc_foreign t = mc_foreign c"
  shows "mock_ids t"
proof -
  have "fst ` set (mc_pages t) \<subseteq> fst ` set (mc_pages c)" using assms(4) by blast
  then show ?thesis using assms unfolding mock_ids_def by (metis subsetD)
qed

lemma mock_call_effect:
  assumes inv: "mock_ids c" and run: "mock_call x c = (r, t)"
  shows "mock_ids t \<and> allowed x r (mock_tracked c) \<and> mock_tracked t = promised x r (mock_tracked c)"
proof (cases x)
  case (CallOpenPage urls)
  let ?c = "fold (\<lambda>url c. snd (add_foreign_page url c)) urls c"
  note plant = planted [of urls c]
  have ids: "mock_ids ?c" using plant inv by simp
  have name: "PageId (context_str (mc_id ?c) @ '':page-'' @ show_nat k) = mock_minted k" for k
    using ids by (simp add: mock_ids_def mock_minted_def)
  show ?thesis
  proof (cases "mc_closed ?c")
    case True
    then show ?thesis
      using run CallOpenPage ids plant by (auto simp: mock_open_page_def mock_tracked_def mock_lookup_map_of)
  next
    case False
    let ?i = "mock_minted (mc_counter ?c)"
    have t: "r = Handed ?i (length (mc_cells ?c))"
      "mc_pages t = mc_pages ?c @ [(?i, length (mc_cells ?c))]"
      "mc_counter t = mc_counter ?c + 1" "mc_id t = mc_id ?c" "mc_foreign t = mc_foreign ?c"
      using run CallOpenPage False name by (auto simp: mock_open_page_def Let_def)
    have "mock_ids t" using ids t unfolding mock_ids_def by (auto simp: less_Suc_eq)
    then show ?thesis
      using t CallOpenPage plant map_of_snoc [OF mock_fresh [OF ids]] mock_fresh [OF ids]
      by (simp add: mock_tracked_def mock_lookup_map_of fun_eq_iff)
  qed
next
  case (CallClosePage urls i)
  note plant = planted [of urls c]
  have "mock_ids t"
    by (rule mock_ids_shrink [of "fold (\<lambda>url c. snd (add_foreign_page url c)) urls c"])
      (use run CallClosePage plant inv in \<open>auto simp: mock_close_page_def\<close>)
  then show ?thesis
    using run CallClosePage plant
    by (auto simp: mock_close_page_def mock_tracked_def mock_lookup_map_of map_of_filter_key fun_eq_iff)
next
  case (CallAdopt urls i)
  show ?thesis
  proof (cases "mock_lookup i c")
    case (Some h)
    then show ?thesis
      using run CallAdopt inv by (auto simp: mock_adopt_page_def mock_tracked_def fun_eq_iff)
  next
    case None
    show ?thesis
    proof (cases "take_foreign i (mc_foreign c)")
      case (Some found)
      obtain h rest where found: "found = (h, rest)" by fastforce
      note took = take_foreign_from [OF Some [unfolded found]]
      have t: "r = Handed i h" "t = c\<lparr>mc_foreign := rest, mc_pages := mc_pages c @ [(i, h)]\<rparr>"
        using run CallAdopt None Some found by (auto simp: mock_adopt_page_def)
      have "mock_ids t" using inv took t(2) unfolding mock_ids_def by (auto; blast)
      then show ?thesis
        using t CallAdopt None map_of_snoc [of "mc_pages c" i h]
        by (simp add: mock_tracked_def mock_lookup_map_of fun_eq_iff)
    next
      case no_surface: None
      then show ?thesis
        using run CallAdopt None inv by (auto simp: mock_adopt_page_def mock_tracked_def)
    qed
  qed
next
  case (CallCloseContext urls)
  note plant = planted [of urls c]
  have "mock_ids t"
    by (rule mock_ids_shrink [of "fold (\<lambda>url c. snd (add_foreign_page url c)) urls c"])
      (use run CallCloseContext plant inv in \<open>auto simp: mock_close_def\<close>)
  then show ?thesis
    using run CallCloseContext plant
    by (auto simp: mock_close_def mock_tracked_def mock_lookup_map_of)
qed

interpretation double: context_contract mock_call mock_tracked mock_ids
proof unfold_locales
  fix s x r t
  assume "mock_ids s" "mock_call x s = (r, t)"
  note mock_call_effect [OF this]
  then show "mock_ids t" "allowed x r (mock_tracked s)" "mock_tracked t = promised x r (mock_tracked s)"
    by simp_all
next
  fix s i h a
  assume "mock_tracked s i = Some h"
  then show "mock_call (CallAdopt a i) s = (Handed i h, s)"
    by (simp add: mock_tracked_def mock_adopt_page_def)
qed

lemma mock_start: "mock_ids mock_context_new" "mock_tracked mock_context_new = Map.empty"
  by (simp_all add: mock_ids_def mock_context_new_def mock_tracked_def mock_lookup_map_of)

text \<open>
  The double the session tests run on does not promise more or less than the backend: it
  keeps the same contract, for every sequence of calls and whatever surfaces the test plants.
  Beyond it, a closed context refuses every new page.
\<close>
theorem mock_context_keeps_the_contract:
  "case calls_run mock_call xs mock_context_new of
    (rs, s) \<Rightarrow>
      map fst rs = xs \<and> spec_allows rs Map.empty \<and> mock_tracked s = spec_run rs Map.empty \<and>
      fst (mock_open_page (snd (mock_close s))) = Inl EngTerminated \<and>
      (case mock_call x s of
         (Handed i h, s1) \<Rightarrow>
           (case calls_run mock_call (filter (Not \<circ> forgets i) ys) s1 of
              (qs, t) \<Rightarrow> mock_call (CallAdopt urls i) t = (Handed i h, t))
       | _ \<Rightarrow> True)"
proof -
  obtain rs s where run: "calls_run mock_call xs mock_context_new = (rs, s)" by (rule prod.exhaust)
  note refine = double.calls_refine [OF mock_start(1) run]
  have "mock_call (CallAdopt urls i) t = (Handed i h, t)"
    if "mock_call x s = (Handed i h, s1)" "calls_run mock_call (filter (Not \<circ> forgets i) ys) s1 = (qs, t)"
    for i h s1 qs t
    using double.adoption_answers_the_same [OF _ that(1) _ that(2)] refine by (simp add: list_ex_iff)
  moreover have "fst (mock_open_page (snd (mock_close s))) = Inl EngTerminated"
    by (simp add: mock_close_def mock_open_page_def)
  ultimately show ?thesis
    using run refine mock_start(2) by (auto split: prod.split context_answer.split)
qed

text \<open>Queued answers come one per evaluation, then the default; a cycling queue never runs dry.\<close>

lemma queue_drains:
  "\<not> mp_cycle p \<Longrightarrow> mp_resolve_answers p = answers \<Longrightarrow>
   next_resolve_answer p =
     (case answers of [] \<Rightarrow> (unwrap_or (mp_default_answer p) ready_box, p)
      | a # rest \<Rightarrow> (a, p\<lparr>mp_resolve_answers := rest\<rparr>))"
  by (auto simp: next_resolve_answer_def split: list.split)

lemma queue_cycles:
  "mp_cycle p \<Longrightarrow> mp_resolve_answers p = a # rest \<Longrightarrow>
   next_resolve_answer p = (a, p\<lparr>mp_resolve_answers := rotate1 (a # rest)\<rparr>)"
  by (simp add: next_resolve_answer_def)

end
