(* ===== verification/Spec2Isabelle.thy ===== *)
theory Spec2Isabelle
  imports Policy_Config Policy_Broker Events Download_Store Observe_Pages Session_Manager
    Dashboard_Feed Cdp_Context Cdp_Launch Cdp_Commands Mcp_Tools Cli_Modes
    Cdp_Contract Session_Mock
begin

text \<open>
  rutter is a browser server for agents: a supervised browser engine, sessions on top of it, a
  policy that decides what an operation may do, a broker that parks the questions a human must
  answer, and an event history of all of it. This development models the Rust workspace under
  \<open>src/crates\<close> crate by crate; every definition is translated from the code its theory names.

  \<^bold>\<open>How the parts interact.\<close> An operation on a session (\<open>Session_Ops\<close>, from
  \<open>session/src/session/mod.rs\<close>) derives its action class (\<open>Policy_Class\<close>), asks the
  rules for a verdict at the page's URL (\<open>Policy_Rules\<close>, with the patterns of
  \<open>Policy_Pattern\<close> and the document of \<open>Policy_Config\<close>), parks a question with the
  broker when the verdict asks for one (\<open>Policy_Broker\<close>, \<open>Session_Approval\<close>), runs the
  action through the executor (\<open>Session_Actions\<close> over the waits of \<open>Session_Wait\<close>) on a
  page of the registry (\<open>Session_Pages\<close>), builds what the agent sees
  (\<open>Observe_Snapshot\<close>, \<open>Observe_Pages\<close>), publishes events (\<open>Events\<close>) and stores
  cookies and local storage (\<open>Session_Storage\<close>). The manager (\<open>Session_Manager\<close>) owns the
  sessions and the engine, which \<open>Supervisor\<close> launches, watches and replaces; the browser
  binary comes from \<open>Download_Manifest\<close>, \<open>Download_Fetch\<close> and \<open>Download_Store\<close>. The
  engine itself is the Chrome DevTools backend: \<open>Cdp_Launch\<close> starts the browser,
  \<open>Cdp_Context\<close> opens, adopts and closes its pages under concurrent callers, each prepared
  by the protocol of \<open>Cdp_Prepare\<close>, and \<open>Cdp_Page\<close> and \<open>Cdp_Commands\<close> are the page
  handle. A human watches and decides over the dashboard: the gate of \<open>Dashboard_Auth\<close> before
  every route of \<open>Dashboard_Server\<close>, and the event socket of \<open>Dashboard_Feed\<close>, which replays
  the rings of \<open>Events\<close>, follows the bus and hands decisions to the broker. An agent reaches all
  of it through the tools of \<open>Mcp_Server\<close>: one connection is one session of the manager, opened
  by the first call and gone after the close. \<open>Cli_Modes\<close> composes the parts into a process:
  one-shot runs over an engine of their own, browse mode over a supervised one, and serve mode
  with the manager, the dashboard and a transport; \<open>Cli_Settings\<close> resolves what they need.

  \<^bold>\<open>Theories and sources.\<close>
  \<^item> \<open>Prelude\<close>: results as sums, strings and numbers as Rust prints them, durations,
    JSON values, runs of operations, and the two locales every component interprets:
    \<open>guarded_state\<close> (an invariant every operation keeps) and \<open>bounded_log\<close> (a buffer
    that keeps the newest entries).
  \<^item> \<open>Core\<close>: \<open>core/src\<close>, identifiers, actions, cookies, errors, snapshots and readouts.
  \<^item> \<open>Policy_Class\<close>, \<open>Policy_Pattern\<close>, \<open>Policy_Rules\<close>, \<open>Policy_Config\<close>,
    \<open>Policy_Broker\<close>: \<open>policy/src\<close>.
  \<^item> \<open>Events\<close>: \<open>events/src\<close>, the rings, the numbering and the fan-out.
  \<^item> \<open>Engine\<close>, \<open>Supervisor\<close>, \<open>Download_*\<close>: \<open>engine/src\<close>.
  \<^item> \<open>Observe_Snapshot\<close>, \<open>Observe_Pages\<close>: \<open>observe/src\<close>.
  \<^item> \<open>Session_*\<close>: \<open>session/src\<close>, one theory per module or group of modules, with
    \<open>Session_Manager\<close> for \<open>manager.rs\<close>.
  \<^item> \<open>Dashboard_Auth\<close>, \<open>Dashboard_Server\<close>, \<open>Dashboard_Feed\<close>: \<open>dashboard/src\<close>
    (\<open>auth.rs\<close>, \<open>lib.rs\<close>, \<open>ws.rs\<close>).
  \<^item> \<open>Cdp_Page\<close> and \<open>Cdp_Commands\<close>: \<open>engine-cdp/src/error.rs\<close>, \<open>keys.rs\<close> and the page
    handle of \<open>page.rs\<close>; \<open>Cdp_Prepare\<close>: the scope operations of \<open>page.rs\<close> and
    \<open>prepare_once\<close> of \<open>context.rs\<close>; \<open>Cdp_Context\<close>: the rest of \<open>context.rs\<close> and
    \<open>engine.rs\<close>; \<open>Cdp_Launch\<close>: \<open>launch.rs\<close>.
  \<^item> \<open>Mcp_Params\<close>: \<open>mcp/src/server/params.rs\<close>; \<open>Mcp_Server\<close>: \<open>mcp/src/server/mod.rs\<close> and
    the ids of \<open>mcp/src/http.rs\<close>; \<open>Mcp_Tools\<close>: what the tools guarantee, over the locale
    \<open>connection_gate\<close>.
  \<^item> \<open>Cli_Settings\<close>: \<open>cli/src/config.rs\<close>, \<open>error.rs\<close>, \<open>launcher.rs\<close> and the policy file
    of \<open>lib.rs\<close>; \<open>Cli_Modes\<close>: \<open>one_shot.rs\<close>, \<open>open.rs\<close>, \<open>read.rs\<close>, \<open>browse.rs\<close>,
    \<open>serve.rs\<close>, \<open>entry.rs\<close>, \<open>main.rs\<close> and the HTTP service of \<open>mcp/src/http.rs\<close>.
  \<^item> \<open>Context_Contract\<close>: the page lifecycle that \<open>engine/src/context.rs\<close> promises as the
    locale \<open>context_contract\<close>, with the streams and the default answers of
    \<open>engine/src/page.rs\<close>; \<open>Cdp_Contract\<close> provides it for the backend and \<open>Session_Mock\<close>
    for the test double of \<open>session/src/mock.rs\<close>.

  \<^bold>\<open>Correspondence.\<close> A struct is a record, an enum a datatype with the source's variants, a
  method a definition that returns the updated record. A \<open>Result\<close> is a sum whose left side is
  the error. What the code awaits from outside (a page, a clock, a human, the file system, the
  network, a URL parser, a JSON parser) is a parameter: a record of functions over an abstract
  state that the theorems quantify over, so a theorem holds for every behaviour of that part.
  Concurrency is interleaving: a step is what one task does under one lock, or between two
  awaits, and an invariant is proved for every list of steps. A CDP call is its outcome after a
  time, or none at all; in \<open>Cdp_Prepare\<close> every call may also be lost before or after it took
  effect, and the page moves before each call. There the document, its property and its claim are
  a small state of the browser, and what an operation guarantees is a triple over it whose
  assertions are stable under the moves of the page.

  \<^bold>\<open>What the lemmas show.\<close> Each component has its invariant, its preservation by every
  operation through \<open>guarded_state\<close>, and on top of it the properties, numbered C1 and on in
  the texts before them: decisions (the matcher is the glob relation, the first rule decides, a
  missing URL fails closed), the broker (an answer is delivered once, nothing is granted without
  one), history (the rings refine the unbounded history), the supervisor (no window exceeds the
  restart budget, an open breaker recovers), acquisition (host pin, caps, confinement of
  extraction and install), observation (budgets, honest truncation flags, quoted references),
  sessions (one active page, termination of waits and actions, atomic storage writes and their
  round trip, the gate passes only with authority, every question is settled) and the manager
  (capacity, distinct storage files, no context outlives its session, bounded recovery), the
  browser backend (a prepared page cannot choose its reference scope, opening is all or nothing,
  only a context's own targets are closed, other sessions are out of reach, a page cannot grow its
  observation feed, a failed launch leaves no browser, a
  context keeps the contract the sessions are written against, as their test double does) and the dashboard (the
  gate opens exactly to the operator, every route is gated, the socket never repeats or reorders
  an event and a client that keeps up misses none), the tool server (parameters are checked before
  anything happens and reach the session unchanged, success had authority, failures carry hints, a
  closed connection stays closed under every interleaving) and the command line (a one-shot run
  ends with the shutdown of its engine, serving leaves none, failures are told). Lemmas that show where the code departs
  from its comments stand beside these, for example
  \<open>Cdp_Prepare.unclaimed_document_is_never_prepared\<close>,
  \<open>Session_Manager.reopened_id_hides_a_closed_session\<close> and
  \<open>Dashboard_Feed.torn_replay_loses_an_event\<close>.

  \<^bold>\<open>Bounds and fuel.\<close> Loops bounded by the code (retry counts, restart caps, rounds) recurse
  on their counter. Loops bounded by a clock (polling, auto-wait, the policy gate) are
  \<open>partial_function (option)\<close>: that they return is a theorem about every clock that advances
  with each poll, not an assumption. Time is a natural number of nanoseconds; integers of the
  code that can overflow are saturating or checked, as the code has them.

  \<^bold>\<open>Not modelled.\<close> The tokio runtime, the log lines, serialisation of events, the third-party
  crates (url, serde_json, reqwest, zip, rmcp, axum, chromiumoxide) beyond the behaviour the code
  relies on, the JavaScript of \<open>observe/src/assets.rs\<close>, the Windows branches of the launchers, the
  list of standard browser install paths, the choice of a free port, the schemas and the greeting
  of the tool server, and the argument parser. A float is printed by a parameter, an IPv6 address
  without its scope.
  \<open>Session::recover\<close> publishing on a forgotten ring is a step of the manager; a publish by
  an operation still in flight is not.
\<close>

end
